(* ===== verification/Prelude.thy ===== *)
theory Prelude
  imports Main "HOL-Library.List_Lexorder" "HOL-Library.Char_ord"
begin

text \<open>
  Shared vocabulary of the development: the gRPC status of an answer, the text comparison of the
  store's columns, the row operations a SQL statement is made of, and the two interfaces the tables
  are used through: rows found by a key that an update leaves alone (\<open>keyed_rows\<close>) and a column
  that is set once (\<open>tombstone\<close>).
\<close>

named_theorems row_simps \<open>equations of the row operations\<close>
named_theorems calm_simps \<open>what a step does when nothing fails and no other session moves\<close>
named_theorems keeps_intros \<open>composition rules of the guarantees an operation gives\<close>
named_theorems keeps_any \<open>the same rules where nothing is carried from one step to the next\<close>

section \<open>Statuses\<close>

datatype code =
    INVALID_ARGUMENT | NOT_FOUND | ALREADY_EXISTS | PERMISSION_DENIED
  | FAILED_PRECONDITION | UNAVAILABLE | DEADLINE_EXCEEDED

datatype status = Status (code_of: code) (message_of: string)

type_synonym 'a result = "status + 'a"

fun is_ok :: "'a result \<Rightarrow> bool" where
  "is_ok (Inr _) = True"
| "is_ok (Inl _) = False"

section \<open>Text columns\<close>

type_synonym bytes = "nat list"
type_synonym time = nat

text \<open>
  Identifiers live in \<open>VARCHAR\<close> columns whose collation ignores case and trailing spaces. Two texts
  are one value to the engine when their comparison keys agree. Columns of hashes are binary and
  are compared as they are.
\<close>

definition lower_char :: "char \<Rightarrow> char" where
  "lower_char c = (let n = of_char c :: nat in
     if 65 \<le> n \<and> n \<le> 90 then char_of (n + 32) else c)"

definition trim_end :: "string \<Rightarrow> string" where
  "trim_end s = rev (dropWhile (\<lambda>c. c = CHR '' '') (rev s))"

definition text_key :: "string \<Rightarrow> string" where
  "text_key s = map lower_char (trim_end s)"

abbreviation sql_eq :: "string \<Rightarrow> string \<Rightarrow> bool" where
  "sql_eq a b \<equiv> text_key a = text_key b"

section \<open>Row operations\<close>

definition fetch_optional :: "'r list \<Rightarrow> 'r option" where
  "fetch_optional rs = (case rs of [] \<Rightarrow> None | r # _ \<Rightarrow> Some r)"

definition upd :: "('r \<Rightarrow> bool) \<Rightarrow> ('r \<Rightarrow> 'r) \<Rightarrow> 'r list \<Rightarrow> 'r list" where
  "upd P f rs = map (\<lambda>r. if P r then f r else r) rs"

definition cnt :: "('r \<Rightarrow> bool) \<Rightarrow> 'r list \<Rightarrow> nat" where
  "cnt P rs = length (filter P rs)"

definition del :: "('r \<Rightarrow> bool) \<Rightarrow> 'r list \<Rightarrow> 'r list" where
  "del P rs = filter (\<lambda>r. \<not> P r) rs"

text \<open>
  \<open>INSERT ... ON DUPLICATE KEY UPDATE\<close>: one row counted for an insert and for an update that
  changes nothing, two for an update that changes the row.
\<close>

definition upsert :: "('r \<Rightarrow> bool) \<Rightarrow> 'r \<Rightarrow> ('r \<Rightarrow> 'r) \<Rightarrow> 'r list \<Rightarrow> nat \<times> 'r list" where
  "upsert P new f rs =
     (if list_ex P rs
      then (if list_all (\<lambda>r. P r \<longrightarrow> f r = r) rs then 1 else 2, upd P f rs)
      else (1, rs @ [new]))"

text \<open>\<open>version + 1\<close> on an unsigned 64-bit column: past the last value the engine refuses.\<close>

definition incr64 :: "nat \<Rightarrow> nat option" where
  "incr64 n = (if n + 1 < 2 ^ 64 then Some (n + 1) else None)"

text \<open>\<open>as u32\<close> truncates; \<open>u32::try_from(n).unwrap_or(u32::MAX)\<close> saturates.\<close>

definition as_u32 :: "nat \<Rightarrow> nat" where
  "as_u32 n = n mod 2 ^ 32"

definition sat_u32 :: "nat \<Rightarrow> nat" where
  "sat_u32 n = (if n < 2 ^ 32 then n else 2 ^ 32 - 1)"

section \<open>Decimal text\<close>

definition digit :: "nat \<Rightarrow> char" where
  "digit n = char_of (48 + n)"

definition is_digit :: "char \<Rightarrow> bool" where
  "is_digit c \<longleftrightarrow> (48::nat) \<le> of_char c \<and> of_char c \<le> (57::nat)"

definition digit_value :: "char \<Rightarrow> nat" where
  "digit_value c = of_char c - 48"

text \<open>\<open>to_string\<close> of an unsigned and of a signed integer.\<close>

fun dec :: "nat \<Rightarrow> string" where
  "dec n = (if n < 10 then [digit n] else dec (n div 10) @ [digit (n mod 10)])"

declare dec.simps [simp del]

definition dec_int :: "int \<Rightarrow> string" where
  "dec_int i = (if i < 0 then CHR ''-'' # dec (nat (- i)) else dec (nat i))"

section \<open>Lemmas on rows\<close>

lemma fetch_optional_Nil [row_simps, simp]: "fetch_optional [] = None"
  by (simp add: fetch_optional_def)

lemma fetch_optional_Cons [row_simps, simp]: "fetch_optional (r # rs) = Some r"
  by (simp add: fetch_optional_def)

lemma fetch_optional_in: "fetch_optional rs = Some r \<Longrightarrow> r \<in> set rs"
  by (cases rs) auto

lemma fetch_optional_None [simp]: "fetch_optional rs = None \<longleftrightarrow> rs = []"
  by (cases rs) auto

lemma fetch_optional_filter:
  "fetch_optional (filter P rs) = Some r \<Longrightarrow> r \<in> set rs \<and> P r"
  by (auto dest: fetch_optional_in)

lemma fetch_optional_filter_None:
  "fetch_optional (filter P rs) = None \<longleftrightarrow> (\<forall>r \<in> set rs. \<not> P r)"
  by (simp add: filter_empty_conv)

lemma set_upd: "set (upd P f rs) = (\<lambda>r. if P r then f r else r) ` set rs"
  by (simp add: upd_def)

lemma length_upd [simp]: "length (upd P f rs) = length rs"
  by (simp add: upd_def)

lemma upd_Nil [simp]: "upd P f [] = []"
  by (simp add: upd_def)

lemma upd_Cons [simp]: "upd P f (r # rs) = (if P r then f r else r) # upd P f rs"
  by (simp add: upd_def)

lemma upd_append [simp]: "upd P f (rs @ ss) = upd P f rs @ upd P f ss"
  by (simp add: upd_def)

lemma upd_none: "(\<And>r. r \<in> set rs \<Longrightarrow> \<not> P r) \<Longrightarrow> upd P f rs = rs"
  by (induction rs) auto

lemma map_upd:
  assumes "\<And>r. r \<in> set rs \<Longrightarrow> P r \<Longrightarrow> g (f r) = g r"
  shows "map g (upd P f rs) = map g rs"
  using assms by (simp add: upd_def)

lemma image_upd:
  assumes "\<And>r. r \<in> set rs \<Longrightarrow> P r \<Longrightarrow> g (f r) = g r"
  shows "g ` set (upd P f rs) = g ` set rs"
proof -
  from assms have "set (map g (upd P f rs)) = set (map g rs)"
    by (simp add: map_upd)
  then show ?thesis by simp
qed

lemma cnt_0: "cnt P rs = 0 \<longleftrightarrow> (\<forall>r \<in> set rs. \<not> P r)"
  by (simp add: cnt_def filter_empty_conv)

lemma cnt_pos: "0 < cnt P rs \<longleftrightarrow> (\<exists>r \<in> set rs. P r)"
  using cnt_0 [of P rs] by auto

lemma set_del: "set (del P rs) = {r \<in> set rs. \<not> P r}"
  by (auto simp: del_def)

lemma distinct_map_del: "distinct (map g rs) \<Longrightarrow> distinct (map g (del P rs))"
  by (simp add: del_def distinct_map_filter)

lemma distinct_map_append1:
  "distinct (map g (rs @ [r])) \<longleftrightarrow> distinct (map g rs) \<and> g r \<notin> g ` set rs"
  by auto

lemma set_upsert:
  "set (snd (upsert P new f rs)) =
     (if \<exists>r \<in> set rs. P r then set (upd P f rs) else insert new (set rs))"
  by (simp add: upsert_def list_ex_iff)

lemma distinct_map_upsert:
  assumes "distinct (map g rs)" and "\<And>r. r \<in> set rs \<Longrightarrow> P r \<Longrightarrow> g (f r) = g r"
    and "\<And>r. r \<in> set rs \<Longrightarrow> g r = g new \<Longrightarrow> P r"
  shows "distinct (map g (snd (upsert P new f rs)))"
  using assms by (auto simp: upsert_def list_ex_iff map_upd)

lemma upsert_changes_something: "0 < fst (upsert P new f rs)"
  by (simp add: upsert_def)

lemma incr64_Some [simp]: "incr64 n = Some m \<longleftrightarrow> m = n + 1 \<and> n + 1 < 2 ^ 64"
  by (auto simp: incr64_def)

lemma sat_u32_bound: "sat_u32 n < 2 ^ 32"
  by (simp add: sat_u32_def)

lemma as_u32_small [simp]: "n < 2 ^ 32 \<Longrightarrow> as_u32 n = n"
  by (simp add: as_u32_def)

lemma sat_u32_small [simp]: "n < 2 ^ 32 \<Longrightarrow> sat_u32 n = n"
  by (simp add: sat_u32_def)

lemma sat_u32_0 [simp]: "sat_u32 n = 0 \<longleftrightarrow> n = 0"
  by (simp add: sat_u32_def)

lemma digit_props [simp]:
  assumes "n < 10"
  shows "is_digit (digit n)" and "digit_value (digit n) = n"
  using assms by (simp_all add: is_digit_def digit_def digit_value_def)

text \<open>A decimal rendering is digits, at least one, and reads back.\<close>

lemma dec_nonempty [simp]: "dec n \<noteq> []"
  by (subst dec.simps) simp

lemma dec_digits: "list_all is_digit (dec n)"
proof (induction n rule: dec.induct)
  case (1 n)
  then show ?case by (subst dec.simps) simp
qed

lemma dec_value: "foldl (\<lambda>a c. a * 10 + digit_value c) 0 (dec n) = n"
proof (induction n rule: dec.induct)
  case (1 n)
  then show ?case by (subst dec.simps) simp
qed

lemma filter_key_unique:
  assumes "distinct (map key rs)" and "r \<in> set rs"
  shows "filter (\<lambda>x. key x = key r) rs = [r]"
  using assms
proof (induction rs)
  case Nil
  then show ?case by simp
next
  case (Cons x rs)
  then show ?case by (cases "x = r") (auto simp: filter_empty_conv image_iff)
qed

section \<open>Rows found by a key\<close>

text \<open>
  An \<open>UPDATE\<close> that writes one column (\<open>touch\<close>) leaves the key of its row alone. What follows from
  that law for every table: the keys stay, a lookup finds the updated row, another key's row is
  the one it was, and a statement that names a unique key matches one row at most.
\<close>

locale keyed_rows =
  fixes key :: "'r \<Rightarrow> 'k" and touch :: "'v \<Rightarrow> 'r \<Rightarrow> 'r"
  assumes key_touch [simp]: "key (touch v r) = key r"
begin

lemma keys_upd: "map key (upd P (touch v) rs) = map key rs"
  by (simp add: map_upd)

lemma key_set_upd: "key ` set (upd P (touch v) rs) = key ` set rs"
  by (simp add: image_upd)

lemma lookup_unique:
  assumes "distinct (map key rs)" and "r \<in> set rs"
  shows "filter (\<lambda>x. key x = key r) rs = [r]"
  using assms by (rule filter_key_unique)

lemma same_key_same_row:
  assumes "distinct (map key rs)" and "r \<in> set rs" and "s \<in> set rs" and "key r = key s"
  shows "r = s"
  using assms by (auto simp: distinct_map inj_on_def)

lemma matched_at_most_one:
  assumes "distinct (map key rs)"
  shows "cnt (\<lambda>r. key r = k \<and> Q r) rs \<le> 1"
  using assms
proof (induction rs)
  case Nil
  then show ?case by (simp add: cnt_def)
next
  case (Cons x rs)
  show ?case
  proof (cases "key x = k")
    case True
    with Cons.prems have "filter (\<lambda>r. key r = k \<and> Q r) rs = []"
      by (auto simp: filter_empty_conv image_iff)
    with True show ?thesis by (simp add: cnt_def)
  next
    case False
    with Cons show ?thesis by (simp add: cnt_def)
  qed
qed

lemma lookup_touched:
  assumes "distinct (map key rs)" and "r \<in> set rs" and "P r"
  shows "filter (\<lambda>x. key x = key r) (upd P (touch v) rs) = [touch v r]"
proof -
  have "touch v r \<in> set (upd P (touch v) rs)"
    using assms(2,3) by (force simp: set_upd)
  moreover have "distinct (map key (upd P (touch v) rs))"
    using assms(1) by (simp add: keys_upd)
  ultimately have "filter (\<lambda>x. key x = key (touch v r)) (upd P (touch v) rs) = [touch v r]"
    by (rule lookup_unique [rotated])
  then show ?thesis by simp
qed

lemma lookup_untouched:
  assumes "\<And>r. r \<in> set rs \<Longrightarrow> P r \<Longrightarrow> key r \<noteq> k"
  shows "filter (\<lambda>x. key x = k) (upd P (touch v) rs) = filter (\<lambda>x. key x = k) rs"
  using assms by (induction rs) auto

end

section \<open>A column that is set once\<close>

text \<open>
  A tombstone column is written under \<open>... IS NULL\<close>. Two facts make such a write safe to repeat:
  what is set stays as it was, and a second run of the statement matches nothing.
\<close>

locale tombstone = keyed_rows key touch
  for key :: "'r \<Rightarrow> 'k" and touch :: "'v \<Rightarrow> 'r \<Rightarrow> 'r" +
  fixes mark :: "'r \<Rightarrow> 'v option"
  assumes mark_touch [simp]: "mark (touch v r) = Some v"
begin

lemma mark_stays:
  assumes "r' \<in> set (upd (\<lambda>r. P r \<and> mark r = None) (touch v) rs)"
    and "r \<in> set rs" and "distinct (map key rs)" and "key r' = key r" and "mark r = Some m"
  shows "mark r' = Some m"
proof -
  from assms(1) obtain r0 where r0: "r0 \<in> set rs"
      "r' = (if P r0 \<and> mark r0 = None then touch v r0 else r0)"
    by (auto simp: set_upd)
  with assms(4) have "key r0 = key r" by (auto split: if_splits)
  with r0(1) assms(2,3) have "r0 = r"
    using same_key_same_row by blast
  with r0(2) assms(5) show ?thesis by simp
qed

lemma marked_after:
  assumes "r \<in> set (upd (\<lambda>r. P r \<and> mark r = None) (touch v) rs)"
    and "\<And>r. r \<in> set rs \<Longrightarrow> P (touch v r) = P r"
    and "P r"
  shows "mark r \<noteq> None"
  using assms by (auto simp: set_upd)

lemma repeat_matches_nothing:
  assumes "\<And>r. r \<in> set rs \<Longrightarrow> P (touch v r) = P r"
  shows "cnt (\<lambda>r. P r \<and> mark r = None) (upd (\<lambda>r. P r \<and> mark r = None) (touch w) rs) = 0"
  by (auto simp: cnt_0 set_upd)

lemma repeat_changes_nothing:
  "upd (\<lambda>r. P r \<and> mark r = None) (touch w) (upd (\<lambda>r. P r \<and> mark r = None) (touch v) rs)
     = upd (\<lambda>r. P r \<and> mark r = None) (touch v) rs"
  by (induction rs) auto

end

section \<open>Text keys\<close>

lemma trim_end_idem [simp]: "trim_end (trim_end s) = trim_end s"
proof -
  have "dropWhile P (dropWhile P xs) = dropWhile P xs" for P and xs :: string
    by (induction xs) auto
  then show ?thesis by (simp add: trim_end_def)
qed

lemma text_key_Nil [simp]: "text_key [] = []"
  by (simp add: text_key_def trim_end_def)

end
