(* ===== verification/Store.thy ===== *)
theory Store
  imports Prelude "HOL-Library.Word"
begin

text \<open>
  The identity store: one row type per table of \<open>src/src/schema.rs\<close> and its two children with the
  columns the service reads or writes, the store as one record of tables, the constrained writes
  (primary keys, unique keys, foreign keys, checks) and the store's constraints as one predicate.
\<close>

section \<open>Rows\<close>

text \<open>A \<open>f64\<close> is stored and answered and never computed with: its 64 bits.\<close>

type_synonym f64 = "64 word"

record user_row =
  u_id :: string
  u_version :: nat
  u_created_by :: string
  u_updated_by :: string
  u_created_at :: time
  u_deleted_at :: "time option"
  u_blind_index :: bytes
  u_external_ct :: bytes
  u_display_ct :: bytes
  u_is_admin :: bool
  u_epoch :: nat

record password_row =
  p_user_id :: string
  p_hash :: string

record team_row =
  t_id :: string
  t_version :: nat
  t_name :: string
  t_created_by :: string
  t_updated_by :: string
  t_deleted_at :: "time option"

record member_row =
  m_team_id :: string
  m_user_id :: string
  m_added_by :: string

record credential_row =
  c_id :: string
  c_user_id :: string
  c_token_hash :: bytes
  c_label :: string
  c_created_at :: time
  c_expires_at :: "time option"
  c_revoked_at :: "time option"

record enrolment_row =
  e_id :: string
  e_user_id :: string
  e_secret_hash :: bytes
  e_created_at :: time
  e_expires_at :: time
  e_spent_at :: "time option"
  e_revoke_existing :: bool
  e_voided_at :: "time option"

record redemption_row =
  rd_key :: string
  rd_secret_hash :: bytes
  rd_enrolment_id :: string
  rd_user_id :: string
  rd_epoch :: nat

record rate_limit_row =
  rl_user_id :: string
  rl_module :: string
  rl_kind :: int
  rl_rate :: f64
  rl_burst :: nat

record org_setting_row =
  os_name :: string
  os_value :: int
  os_locked :: bool

record team_override_row =
  to_name :: string
  to_team_id :: string
  to_value :: int

record setting_write_row =
  sw_key :: string
  sw_scope :: int
  sw_team_id :: "string option"
  sw_name :: string
  sw_value :: "int option"
  sw_locked :: "bool option"
  sw_clear :: bool

record marker_row =
  k_version :: nat
  k_fingerprint :: bytes
  k_key :: string

record pending_row =
  pd_team_id :: string
  pd_user_id :: string

text \<open>
  \<open>iam_key_identity\<close> holds one row at most, by its constant primary key, so the table is an
  \<open>option\<close>. \<open>iam_team_sync_lock\<close> holds the row with id 1 or nothing.
\<close>

record db =
  iam_user :: "user_row list"
  iam_password :: "password_row list"
  iam_team :: "team_row list"
  iam_team_member :: "member_row list"
  iam_credential :: "credential_row list"
  iam_enrolment :: "enrolment_row list"
  iam_enrolment_redemption :: "redemption_row list"
  iam_rate_limit_override :: "rate_limit_row list"
  iam_org_setting :: "org_setting_row list"
  iam_team_setting_override :: "team_override_row list"
  iam_inherited_setting_write :: "setting_write_row list"
  iam_key_identity :: "marker_row option"
  iam_team_member_pending :: "pending_row list"
  iam_team_sync_lock :: bool

text \<open>The store after the last migration, and before any request: the seeded rows only.\<close>

definition initial_db :: db where
  "initial_db = \<lparr>iam_user = [], iam_password = [], iam_team = [], iam_team_member = [],
     iam_credential = [], iam_enrolment = [], iam_enrolment_redemption = [],
     iam_rate_limit_override = [],
     iam_org_setting = [\<lparr>os_name = ''owner_reads_own_record'', os_value = 2, os_locked = True\<rparr>],
     iam_team_setting_override = [], iam_inherited_setting_write = [],
     iam_key_identity = None, iam_team_member_pending = [], iam_team_sync_lock = True\<rparr>"

section \<open>Keys\<close>

definition user_keys :: "db \<Rightarrow> string set" where
  "user_keys d = (\<lambda>u. text_key (u_id u)) ` set (iam_user d)"

definition team_keys :: "db \<Rightarrow> string set" where
  "team_keys d = (\<lambda>t. text_key (t_id t)) ` set (iam_team d)"

definition has_user :: "db \<Rightarrow> string \<Rightarrow> bool" where
  "has_user d x \<longleftrightarrow> list_ex (\<lambda>u. sql_eq (u_id u) x) (iam_user d)"

definition has_team :: "db \<Rightarrow> string \<Rightarrow> bool" where
  "has_team d x \<longleftrightarrow> list_ex (\<lambda>t. sql_eq (t_id t) x) (iam_team d)"

definition has_enrolment :: "db \<Rightarrow> string \<Rightarrow> bool" where
  "has_enrolment d x \<longleftrightarrow> list_ex (\<lambda>t. sql_eq (e_id t) x) (iam_enrolment d)"

definition live_row :: "string \<Rightarrow> user_row \<Rightarrow> bool" where
  "live_row x u \<longleftrightarrow> sql_eq (u_id u) x \<and> u_deleted_at u = None"

text \<open>\<open>SELECT ... FROM iam_user WHERE id = ? AND deleted_at IS NULL\<close>\<close>

definition find_live_user :: "db \<Rightarrow> string \<Rightarrow> user_row option" where
  "find_live_user d x = fetch_optional (filter (live_row x) (iam_user d))"

definition find_live_team :: "db \<Rightarrow> string \<Rightarrow> team_row option" where
  "find_live_team d x =
     fetch_optional (filter (\<lambda>t. sql_eq (t_id t) x \<and> t_deleted_at t = None) (iam_team d))"

definition find_user :: "db \<Rightarrow> string \<Rightarrow> user_row option" where
  "find_user d x = fetch_optional (filter (\<lambda>u. sql_eq (u_id u) x) (iam_user d))"

text \<open>A credential is live while it is not revoked and its expiry, where it has one, is ahead.\<close>

definition cred_live :: "time \<Rightarrow> credential_row \<Rightarrow> bool" where
  "cred_live t c \<longleftrightarrow> c_revoked_at c = None \<and>
     (case c_expires_at c of None \<Rightarrow> True | Some x \<Rightarrow> t < x)"

section \<open>Statement errors and constrained writes\<close>

text \<open>
  What a failing statement says: a unique key was violated (the message names which), or anything
  else. A write that violates several keys reports the primary key first.
\<close>

datatype unique_key =
    PRIMARY | Uq_iam_user_blind_index | Uq_iam_team_name | Uq_iam_credential_token
  | Uq_iam_enrolment_secret

datatype sql_error = UniqueViolation unique_key | EngineError

definition ins_user :: "user_row \<Rightarrow> db \<Rightarrow> sql_error + db" where
  "ins_user u d =
     (if has_user d (u_id u) then Inl (UniqueViolation PRIMARY)
      else if list_ex (\<lambda>v. u_blind_index v = u_blind_index u) (iam_user d)
        then Inl (UniqueViolation Uq_iam_user_blind_index)
      else Inr (d\<lparr>iam_user := iam_user d @ [u]\<rparr>))"

definition ins_team :: "team_row \<Rightarrow> db \<Rightarrow> sql_error + db" where
  "ins_team t d =
     (if has_team d (t_id t) then Inl (UniqueViolation PRIMARY)
      else if list_ex (\<lambda>v. sql_eq (t_name v) (t_name t)) (iam_team d)
        then Inl (UniqueViolation Uq_iam_team_name)
      else Inr (d\<lparr>iam_team := iam_team d @ [t]\<rparr>))"

definition ins_member :: "member_row \<Rightarrow> db \<Rightarrow> sql_error + db" where
  "ins_member m d =
     (if list_ex (\<lambda>v. sql_eq (m_team_id v) (m_team_id m) \<and> sql_eq (m_user_id v) (m_user_id m))
           (iam_team_member d)
        then Inl (UniqueViolation PRIMARY)
      else if \<not> has_team d (m_team_id m) \<or> \<not> has_user d (m_user_id m) then Inl EngineError
      else Inr (d\<lparr>iam_team_member := iam_team_member d @ [m]\<rparr>))"

definition ins_credential :: "credential_row \<Rightarrow> db \<Rightarrow> sql_error + db" where
  "ins_credential c d =
     (if list_ex (\<lambda>v. sql_eq (c_id v) (c_id c)) (iam_credential d)
        then Inl (UniqueViolation PRIMARY)
      else if list_ex (\<lambda>v. c_token_hash v = c_token_hash c) (iam_credential d)
        then Inl (UniqueViolation Uq_iam_credential_token)
      else if \<not> has_user d (c_user_id c) then Inl EngineError
      else Inr (d\<lparr>iam_credential := iam_credential d @ [c]\<rparr>))"

definition ins_enrolment :: "enrolment_row \<Rightarrow> db \<Rightarrow> sql_error + db" where
  "ins_enrolment n d =
     (if has_enrolment d (e_id n) then Inl (UniqueViolation PRIMARY)
      else if list_ex (\<lambda>v. e_secret_hash v = e_secret_hash n) (iam_enrolment d)
        then Inl (UniqueViolation Uq_iam_enrolment_secret)
      else if \<not> has_user d (e_user_id n) then Inl EngineError
      else Inr (d\<lparr>iam_enrolment := iam_enrolment d @ [n]\<rparr>))"

definition ins_redemption :: "redemption_row \<Rightarrow> db \<Rightarrow> sql_error + db" where
  "ins_redemption r d =
     (if list_ex (\<lambda>v. sql_eq (rd_key v) (rd_key r)) (iam_enrolment_redemption d)
        then Inl (UniqueViolation PRIMARY)
      else if \<not> has_enrolment d (rd_enrolment_id r) then Inl EngineError
      else Inr (d\<lparr>iam_enrolment_redemption := iam_enrolment_redemption d @ [r]\<rparr>))"

definition ins_setting_write :: "setting_write_row \<Rightarrow> db \<Rightarrow> sql_error + db" where
  "ins_setting_write r d =
     (if list_ex (\<lambda>v. sql_eq (sw_key v) (sw_key r)) (iam_inherited_setting_write d)
        then Inl (UniqueViolation PRIMARY)
      else Inr (d\<lparr>iam_inherited_setting_write := iam_inherited_setting_write d @ [r]\<rparr>))"

definition ins_marker :: "marker_row \<Rightarrow> db \<Rightarrow> sql_error + db" where
  "ins_marker k d =
     (case iam_key_identity d of
        Some _ \<Rightarrow> Inl (UniqueViolation PRIMARY)
      | None \<Rightarrow> Inr (d\<lparr>iam_key_identity := Some k\<rparr>))"

definition ins_pending :: "pending_row \<Rightarrow> db \<Rightarrow> sql_error + db" where
  "ins_pending p d =
     (if list_ex (\<lambda>v. sql_eq (pd_team_id v) (pd_team_id p) \<and> sql_eq (pd_user_id v) (pd_user_id p))
           (iam_team_member_pending d)
        then Inl (UniqueViolation PRIMARY)
      else if \<not> has_team d (pd_team_id p) then Inl EngineError
      else Inr (d\<lparr>iam_team_member_pending := iam_team_member_pending d @ [p]\<rparr>))"

definition ups_password :: "string \<Rightarrow> string \<Rightarrow> db \<Rightarrow> sql_error + (nat \<times> db)" where
  "ups_password x h d =
     (if \<not> has_user d x then Inl EngineError
      else let (n, rs) = upsert (\<lambda>p. sql_eq (p_user_id p) x) \<lparr>p_user_id = x, p_hash = h\<rparr>
                           (\<lambda>p. p\<lparr>p_hash := h\<rparr>) (iam_password d)
           in Inr (n, d\<lparr>iam_password := rs\<rparr>))"

definition ups_rate_limit :: "rate_limit_row \<Rightarrow> db \<Rightarrow> sql_error + (nat \<times> db)" where
  "ups_rate_limit l d =
     (if \<not> has_user d (rl_user_id l) then Inl EngineError
      else let (n, rs) = upsert
                 (\<lambda>v. sql_eq (rl_user_id v) (rl_user_id l) \<and> sql_eq (rl_module v) (rl_module l)
                      \<and> rl_kind v = rl_kind l) l
                 (\<lambda>v. v\<lparr>rl_rate := rl_rate l, rl_burst := rl_burst l\<rparr>) (iam_rate_limit_override d)
           in Inr (n, d\<lparr>iam_rate_limit_override := rs\<rparr>))"

definition ups_org_setting :: "org_setting_row \<Rightarrow> db \<Rightarrow> sql_error + (nat \<times> db)" where
  "ups_org_setting s d =
     (if os_value s \<notin> {1, 2} then Inl EngineError
      else let (n, rs) = upsert (\<lambda>v. sql_eq (os_name v) (os_name s)) s
                 (\<lambda>v. v\<lparr>os_value := os_value s, os_locked := os_locked s\<rparr>) (iam_org_setting d)
           in Inr (n, d\<lparr>iam_org_setting := rs\<rparr>))"

definition ups_team_override :: "team_override_row \<Rightarrow> db \<Rightarrow> sql_error + (nat \<times> db)" where
  "ups_team_override s d =
     (if to_value s \<notin> {1, 2} \<or> \<not> has_team d (to_team_id s) then Inl EngineError
      else let (n, rs) = upsert
                 (\<lambda>v. sql_eq (to_name v) (to_name s) \<and> sql_eq (to_team_id v) (to_team_id s)) s
                 (\<lambda>v. v\<lparr>to_value := to_value s\<rparr>) (iam_team_setting_override d)
           in Inr (n, d\<lparr>iam_team_setting_override := rs\<rparr>))"

section \<open>The store's constraints\<close>

text \<open>
  Primary and unique keys, foreign keys and checks of the schema, and what the service itself keeps
  true between rows: an enrolment is never both spent and voided, a redemption is on record only
  for an enrolment that was spent with the recorded secret and belongs to the recorded person, whose
  epoch is not behind the recorded one, and pending members belong to \<open>administrators\<close>.
\<close>

definition users_ok :: "user_row list \<Rightarrow> bool" where
  "users_ok us \<longleftrightarrow> distinct (map (\<lambda>u. text_key (u_id u)) us) \<and>
     distinct (map u_blind_index us) \<and> (\<forall>u \<in> set us. u_epoch u < 2 ^ 64)"

definition credentials_ok :: "string set \<Rightarrow> credential_row list \<Rightarrow> bool" where
  "credentials_ok K cs \<longleftrightarrow> distinct (map (\<lambda>c. text_key (c_id c)) cs) \<and>
     distinct (map c_token_hash cs) \<and> (\<forall>c \<in> set cs. text_key (c_user_id c) \<in> K)"

definition enrolments_ok :: "string set \<Rightarrow> enrolment_row list \<Rightarrow> bool" where
  "enrolments_ok K es \<longleftrightarrow> distinct (map (\<lambda>e. text_key (e_id e)) es) \<and>
     distinct (map e_secret_hash es) \<and>
     (\<forall>e \<in> set es. text_key (e_user_id e) \<in> K \<and> (e_spent_at e = None \<or> e_voided_at e = None))"

definition spent_as :: "redemption_row \<Rightarrow> enrolment_row \<Rightarrow> bool" where
  "spent_as r e \<longleftrightarrow> e_id e = rd_enrolment_id r \<and> e_user_id e = rd_user_id r \<and>
     e_secret_hash e = rd_secret_hash r \<and> e_spent_at e \<noteq> None"

definition epoch_reached :: "user_row list \<Rightarrow> redemption_row \<Rightarrow> bool" where
  "epoch_reached us r \<longleftrightarrow> (\<exists>u \<in> set us. sql_eq (u_id u) (rd_user_id r) \<and> rd_epoch r \<le> u_epoch u)"

definition redemptions_ok :: "user_row list \<Rightarrow> enrolment_row list \<Rightarrow> redemption_row list \<Rightarrow> bool" where
  "redemptions_ok us es rs \<longleftrightarrow> distinct (map (\<lambda>r. text_key (rd_key r)) rs) \<and>
     (\<forall>r \<in> set rs. (\<exists>e \<in> set es. spent_as r e) \<and> epoch_reached us r)"

definition teams_ok :: "team_row list \<Rightarrow> bool" where
  "teams_ok ts \<longleftrightarrow> distinct (map (\<lambda>t. text_key (t_id t)) ts) \<and>
     distinct (map (\<lambda>t. text_key (t_name t)) ts)"

definition members_ok :: "string set \<Rightarrow> string set \<Rightarrow> member_row list \<Rightarrow> bool" where
  "members_ok T K ms \<longleftrightarrow>
     distinct (map (\<lambda>m. (text_key (m_team_id m), text_key (m_user_id m))) ms) \<and>
     (\<forall>m \<in> set ms. text_key (m_team_id m) \<in> T \<and> text_key (m_user_id m) \<in> K)"

definition passwords_ok :: "string set \<Rightarrow> password_row list \<Rightarrow> bool" where
  "passwords_ok K ps \<longleftrightarrow> distinct (map (\<lambda>p. text_key (p_user_id p)) ps) \<and>
     (\<forall>p \<in> set ps. text_key (p_user_id p) \<in> K \<and> length (p_hash p) \<le> 255)"

definition rate_limits_ok :: "string set \<Rightarrow> rate_limit_row list \<Rightarrow> bool" where
  "rate_limits_ok K ls \<longleftrightarrow>
     distinct (map (\<lambda>l. (text_key (rl_user_id l), text_key (rl_module l), rl_kind l)) ls) \<and>
     (\<forall>l \<in> set ls. text_key (rl_user_id l) \<in> K \<and> rl_kind l \<in> {1, 2, 3})"

definition settings_ok :: "string set \<Rightarrow> org_setting_row list \<Rightarrow> team_override_row list \<Rightarrow> bool" where
  "settings_ok T os ts \<longleftrightarrow> distinct (map (\<lambda>s. text_key (os_name s)) os) \<and>
     (\<forall>s \<in> set os. os_value s \<in> {1, 2}) \<and>
     distinct (map (\<lambda>s. (text_key (to_name s), text_key (to_team_id s))) ts) \<and>
     (\<forall>s \<in> set ts. to_value s \<in> {1, 2} \<and> text_key (to_team_id s) \<in> T)"

definition setting_writes_ok :: "setting_write_row list \<Rightarrow> bool" where
  "setting_writes_ok ws \<longleftrightarrow> distinct (map (\<lambda>w. text_key (sw_key w)) ws) \<and>
     (\<forall>w \<in> set ws. sw_key w \<noteq> [])"

definition marker_ok :: "marker_row option \<Rightarrow> bool" where
  "marker_ok k \<longleftrightarrow> (case k of None \<Rightarrow> True
     | Some m \<Rightarrow> k_fingerprint m \<noteq> [] \<and> length (k_fingerprint m) \<le> 255 \<and> 0 < k_version m)"

definition pending_ok :: "string set \<Rightarrow> pending_row list \<Rightarrow> bool" where
  "pending_ok T ps \<longleftrightarrow>
     distinct (map (\<lambda>p. (text_key (pd_team_id p), text_key (pd_user_id p))) ps) \<and>
     (\<forall>p \<in> set ps. text_key (pd_team_id p) \<in> T \<and> pd_team_id p = ''yadgar:team:administrators'')"

definition store_ok :: "db \<Rightarrow> bool" where
  "store_ok d \<longleftrightarrow> users_ok (iam_user d) \<and>
     passwords_ok (user_keys d) (iam_password d) \<and>
     teams_ok (iam_team d) \<and>
     members_ok (team_keys d) (user_keys d) (iam_team_member d) \<and>
     credentials_ok (user_keys d) (iam_credential d) \<and>
     enrolments_ok (user_keys d) (iam_enrolment d) \<and>
     redemptions_ok (iam_user d) (iam_enrolment d) (iam_enrolment_redemption d) \<and>
     rate_limits_ok (user_keys d) (iam_rate_limit_override d) \<and>
     settings_ok (team_keys d) (iam_org_setting d) (iam_team_setting_override d) \<and>
     setting_writes_ok (iam_inherited_setting_write d) \<and>
     marker_ok (iam_key_identity d) \<and>
     pending_ok (team_keys d) (iam_team_member_pending d)"

end
