(* ===== verification/Engine.thy ===== *)
theory Engine
  imports Store
begin

text \<open>
  How a request reaches the store (\<open>src/src/service/conn.rs\<close>): acquiring a connection under the
  caller's deadline, running a statement on it, opening and committing a transaction, and what the
  request leaves in the log and on the counters. The engine, the pool, the clock and the other
  sessions are the environment \<open>env\<close>; every operation below is a function of it.

  A statement sees what other sessions committed before it (\<open>others\<close>, which is told the locks this
  transaction holds), it can be refused by the engine, and its reply can be lost after it took
  effect. A transaction works on a copy; commit publishes the copy and dropping it publishes
  nothing.
\<close>

section \<open>Environment and world\<close>

datatype row_ref =
    UserRow string | TeamRow string | TeamSyncRow
  | RedemptionRow string | SettingWriteRow string | MarkerRow

datatype lock = Exclusive row_ref | Shared row_ref

datatype fault = NoFault | Refused | Lost

record env =
  clock :: "nat \<Rightarrow> time"
  fault_at :: "nat \<Rightarrow> fault"
  others :: "nat \<Rightarrow> lock list \<Rightarrow> db \<Rightarrow> db"
  now_v7 :: string
  from_unixtime :: "int \<Rightarrow> time option"
  capped :: "string \<Rightarrow> string"
  acquire_timeout :: nat
  deadline_bound :: "nat \<Rightarrow> nat"
  pool_wait :: nat
  pool_ok :: bool

datatype isolation = Default | ReadCommitted

record txn =
  iso :: isolation
  work :: db
  snap :: "db option"
  held :: "lock list"

text \<open>What a call leaves behind beside its answer: the actor line, the counters and the call record.\<close>

datatype kind = Read | Write

datatype event =
    Started string kind string string
  | Actor string string string string
  | Counter string string
  | Finished nat
  | Failed code

record world =
  committed :: db
  tx :: "txn option"
  steps :: nat
  events :: "event list"

type_synonym 'a act = "env \<Rightarrow> world \<Rightarrow> 'a result \<times> world"
type_synonym 'a stm = "time \<Rightarrow> db \<Rightarrow> sql_error + ('a \<times> db)"

definition cur :: "world \<Rightarrow> db" where
  "cur w = (case tx w of None \<Rightarrow> committed w | Some t \<Rightarrow> work t)"

definition locks_of :: "world \<Rightarrow> lock list" where
  "locks_of w = (case tx w of None \<Rightarrow> [] | Some t \<Rightarrow> held t)"

section \<open>Sequencing\<close>

definition ok :: "'a \<Rightarrow> 'a act" where
  "ok x e w = (Inr x, w)"

definition fail :: "status \<Rightarrow> 'a act" where
  "fail s e w = (Inl s, w)"

definition and_then :: "'a act \<Rightarrow> ('a \<Rightarrow> 'b act) \<Rightarrow> 'b act" where
  "and_then m f e w = (case m e w of (Inl s, w') \<Rightarrow> (Inl s, w') | (Inr x, w') \<Rightarrow> f x e w')"

definition emit :: "event \<Rightarrow> unit act" where
  "emit v e w = (Inr (), w\<lparr>events := events w @ [v]\<rparr>)"

text \<open>A step that reads the environment: an identifier to mint, the cap of a logged value.\<close>

definition ask :: "(env \<Rightarrow> 'a act) \<Rightarrow> 'a act" where
  "ask f e w = f e e w"

text \<open>\<open>call.fail(...)\<close> and the early return with the status.\<close>

definition refuse_call :: "status \<Rightarrow> code \<Rightarrow> 'a act" where
  "refuse_call s l = and_then (emit (Failed l)) (\<lambda>_. fail s)"

text \<open>Every refusal of an operation failed under its own code, whatever step it came from.\<close>

definition failing_call :: "'a act \<Rightarrow> 'a act" where
  "failing_call m e w = (case m e w of
       (Inl s, w') \<Rightarrow> (Inl s, w'\<lparr>events := events w' @ [Failed (code_of s)]\<rparr>)
     | (Inr x, w') \<Rightarrow> (Inr x, w'))"

section \<open>Statements\<close>

definition db_error :: status where
  "db_error = Status UNAVAILABLE ''storage unavailable''"

text \<open>Between two statements the other sessions move: the store and the working copy see them.\<close>

definition settle :: "env \<Rightarrow> world \<Rightarrow> world" where
  "settle e w =
     w\<lparr>committed := others e (steps w) (locks_of w) (committed w),
       tx := map_option (\<lambda>t. t\<lparr>work := others e (steps w) (held t) (work t)\<rparr>) (tx w),
       steps := Suc (steps w)\<rparr>"

definition put_cur :: "db \<Rightarrow> world \<Rightarrow> world" where
  "put_cur d w = (case tx w of
       None \<Rightarrow> w\<lparr>committed := d\<rparr>
     | Some t \<Rightarrow> w\<lparr>tx := Some (t\<lparr>work := d\<rparr>)\<rparr>)"

definition exec :: "'a stm \<Rightarrow> env \<Rightarrow> world \<Rightarrow> (sql_error + 'a) \<times> world" where
  "exec s e w =
     (let w1 = settle e w in
      case fault_at e (steps w) of
        Refused \<Rightarrow> (Inl EngineError, w1)
      | f \<Rightarrow> (case s (clock e (steps w)) (cur w1) of
           Inl err \<Rightarrow> (Inl err, w1)
         | Inr (x, d) \<Rightarrow> (if f = Lost then Inl EngineError else Inr x, put_cur d w1)))"

text \<open>A statement whose error the caller maps itself, and one whose error goes through \<open>db\<close>.\<close>

definition stmt_map :: "(sql_error \<Rightarrow> status) \<Rightarrow> 'a stm \<Rightarrow> 'a act" where
  "stmt_map h s e w = (case exec s e w of (Inl err, w') \<Rightarrow> (Inl (h err), w') | (Inr x, w') \<Rightarrow> (Inr x, w'))"

definition stmt_try :: "'a stm \<Rightarrow> (sql_error + 'a) act" where
  "stmt_try s e w = (case exec s e w of (r, w') \<Rightarrow> (Inr r, w'))"

definition stmt :: "'a stm \<Rightarrow> 'a act" where
  "stmt = stmt_map (\<lambda>_. db_error)"

text \<open>
  A read of the latest committed rows (and the transaction's own): a plain \<open>SELECT\<close> outside a
  transaction or at READ COMMITTED, and every locking \<open>SELECT\<close>.
\<close>

definition select :: "(time \<Rightarrow> db \<Rightarrow> 'a) \<Rightarrow> 'a act" where
  "select q = stmt (\<lambda>t d. Inr (q t d, d))"

definition hold :: "lock list \<Rightarrow> world \<Rightarrow> world" where
  "hold L w = w\<lparr>tx := map_option (\<lambda>t. t\<lparr>held := held t @ L\<rparr>) (tx w)\<rparr>"

text \<open>A locking read: the rows it names stay locked until the transaction ends.\<close>

definition select_lock :: "lock list \<Rightarrow> (time \<Rightarrow> db \<Rightarrow> 'a) \<Rightarrow> 'a act" where
  "select_lock L q e w = (case select q e w of
       (Inl s, w') \<Rightarrow> (Inl s, w') | (Inr x, w') \<Rightarrow> (Inr x, hold L w'))"

definition stmt_lock :: "lock list \<Rightarrow> 'a stm \<Rightarrow> 'a act" where
  "stmt_lock L s e w = (case stmt s e w of
       (Inl c, w') \<Rightarrow> (Inl c, w') | (Inr x, w') \<Rightarrow> (Inr x, hold L w'))"

text \<open>
  A plain read in a transaction at the session's default, REPEATABLE READ: the first one fixes the
  snapshot, the later ones read it.
\<close>

definition select_snap :: "(time \<Rightarrow> db \<Rightarrow> 'a) \<Rightarrow> 'a act" where
  "select_snap q e w =
     (let w1 = settle e w; n = steps w in
      case tx w1 of
        None \<Rightarrow> (if fault_at e n = NoFault then (Inr (q (clock e n) (committed w1)), w1)
                 else (Inl db_error, w1))
      | Some t \<Rightarrow>
          (if fault_at e n = NoFault
           then let s = (case snap t of None \<Rightarrow> work t | Some s \<Rightarrow> s)
                in (Inr (q (clock e n) s), w1\<lparr>tx := Some (t\<lparr>snap := Some s\<rparr>)\<rparr>)
           else (Inl db_error, w1)))"

text \<open>Whether a ledger read locks the row it finds (\<open>Lock::No\<close>, \<open>Lock::Yes\<close>), and \<open>fetch_one\<close>, where a
missing row is an error of the store.\<close>

datatype locking = NoLock | YesLock

definition locked_if :: "locking \<Rightarrow> lock list \<Rightarrow> lock list" where
  "locked_if l L = (case l of NoLock \<Rightarrow> [] | YesLock \<Rightarrow> L)"

definition fetch_one :: "(db \<Rightarrow> 'a option) \<Rightarrow> 'a act" where
  "fetch_one q = stmt (\<lambda>t d. case q d of None \<Rightarrow> Inl EngineError | Some x \<Rightarrow> Inr (x, d))"

section \<open>Connections and transactions\<close>

definition out_of_time :: status where
  "out_of_time = Status DEADLINE_EXCEEDED ''the caller's deadline left no time to reach the store''"

definition pool_acquire :: "env \<Rightarrow> (sql_error + unit)" where
  "pool_acquire e = (if pool_ok e then Inr () else Inl EngineError)"

definition acquire :: "unit act" where
  "acquire e w =
     (let ceiling = acquire_timeout e; b = deadline_bound e ceiling in
      if b = 0 then (Inl out_of_time, w)
      else if b < ceiling \<and> b < pool_wait e then (Inl out_of_time, w)
      else (case pool_acquire e of Inl _ \<Rightarrow> (Inl db_error, w) | Inr _ \<Rightarrow> (Inr (), w)))"

text \<open>
  \<open>SET TRANSACTION ISOLATION LEVEL READ COMMITTED\<close> where asked, then \<open>BEGIN\<close>: two round trips that
  can each fail.
\<close>

definition set_isolation :: "isolation \<Rightarrow> unit act" where
  "set_isolation i = (case i of Default \<Rightarrow> ok () | ReadCommitted \<Rightarrow> stmt (\<lambda>_ d. Inr ((), d)))"

definition open_tx :: "isolation \<Rightarrow> unit act" where
  "open_tx i e w = (Inr (), w\<lparr>tx := Some \<lparr>iso = i, work = committed w, snap = None, held = []\<rparr>\<rparr>)"

definition begin_tx :: "isolation \<Rightarrow> unit act" where
  "begin_tx i = and_then (set_isolation i) (\<lambda>_.
     and_then (stmt (\<lambda>_ d. Inr ((), d))) (\<lambda>_. open_tx i))"

text \<open>\<open>COMMIT\<close>: refused, the copy is dropped; lost, it is published and the caller is told otherwise.\<close>

definition commit :: "unit act" where
  "commit e w =
     (let w1 = settle e w in
      case fault_at e (steps w) of
        Refused \<Rightarrow> (Inl db_error, w1\<lparr>tx := None\<rparr>)
      | f \<Rightarrow> (if f = Lost then Inl db_error else Inr (), w1\<lparr>committed := cur w1, tx := None\<rparr>))"

text \<open>A transaction dropped on purpose, and what every handler leaves at its end.\<close>

definition drop_tx :: "unit act" where
  "drop_tx e w = (Inr (), w\<lparr>tx := None\<rparr>)"

definition run :: "'a act \<Rightarrow> env \<Rightarrow> db \<Rightarrow> 'a result \<times> db \<times> event list" where
  "run m e d = (case m e \<lparr>committed = d, tx = None, steps = 0, events = []\<rparr> of
     (r, w) \<Rightarrow> (r, committed w, events w))"

section \<open>Calm environments\<close>

text \<open>Nothing fails and no other session moves: the environment of a call on its own.\<close>

definition calm :: "env \<Rightarrow> bool" where
  "calm e \<longleftrightarrow> (\<forall>n. fault_at e n = NoFault) \<and> (\<forall>n L d. others e n L d = d) \<and>
     0 < deadline_bound e (acquire_timeout e) \<and> pool_wait e \<le> deadline_bound e (acquire_timeout e) \<and>
     pool_ok e"

definition calm_env :: env where
  "calm_env = \<lparr>clock = (\<lambda>n. 1000 + n), fault_at = (\<lambda>_. NoFault), others = (\<lambda>_ _ d. d),
     now_v7 = ''0192f3c4-1a2b-7c3d-8e4f-0123456789ab'',
     from_unixtime = (\<lambda>s. if 0 \<le> s then Some (nat s) else None), capped = (\<lambda>s. take 256 s),
     acquire_timeout = 5000, deadline_bound = (\<lambda>n. n), pool_wait = 1, pool_ok = True\<rparr>"

lemma calm_calm_env: "calm calm_env"
  by (simp add: calm_def calm_env_def)

lemma calm_settle:
  "calm e \<Longrightarrow> settle e w = w\<lparr>steps := Suc (steps w)\<rparr>"
  by (cases "tx w") (simp_all add: calm_def settle_def)

lemma cur_put_cur [simp]: "cur (put_cur d w) = d"
  by (simp add: cur_def put_cur_def split: option.splits)

lemma cur_steps [simp]: "cur (w\<lparr>steps := n\<rparr>) = cur w"
  by (simp add: cur_def split: option.splits)

lemma cur_events [simp]: "cur (w\<lparr>events := n\<rparr>) = cur w"
  by (simp add: cur_def split: option.splits)

lemma calm_exec:
  assumes "calm e"
  shows "exec s e w = (case s (clock e (steps w)) (cur w) of
           Inl err \<Rightarrow> (Inl err, w\<lparr>steps := Suc (steps w)\<rparr>)
         | Inr (x, d) \<Rightarrow> (Inr x, put_cur d (w\<lparr>steps := Suc (steps w)\<rparr>)))"
proof -
  from assms have "fault_at e (steps w) = NoFault" by (simp add: calm_def)
  with assms show ?thesis
    by (simp add: exec_def calm_settle Let_def split: sum.splits prod.splits)
qed

lemma calm_stmt [calm_simps]:
  assumes "calm e"
  shows "stmt s e w = (case s (clock e (steps w)) (cur w) of
           Inl err \<Rightarrow> (Inl db_error, w\<lparr>steps := Suc (steps w)\<rparr>)
         | Inr (x, d) \<Rightarrow> (Inr x, put_cur d (w\<lparr>steps := Suc (steps w)\<rparr>)))"
  by (simp add: stmt_def stmt_map_def calm_exec [OF assms] split: sum.splits prod.splits)

lemma put_cur_same [simp]: "put_cur (cur w) w = w"
  by (cases w) (simp add: put_cur_def cur_def split: option.splits)

lemma calm_select [calm_simps]:
  assumes "calm e"
  shows "select q e w = (Inr (q (clock e (steps w)) (cur w)), w\<lparr>steps := Suc (steps w)\<rparr>)"
proof -
  have "put_cur (cur w) (w\<lparr>steps := Suc (steps w)\<rparr>) = w\<lparr>steps := Suc (steps w)\<rparr>"
    using put_cur_same [of "w\<lparr>steps := Suc (steps w)\<rparr>"] by simp
  then show ?thesis by (simp add: select_def calm_stmt [OF assms])
qed

lemma calm_acquire [simp, calm_simps]: "calm e \<Longrightarrow> acquire e w = (Inr (), w)"
  by (simp add: acquire_def calm_def pool_acquire_def Let_def)

lemma cur_tx [simp]: "cur (w\<lparr>tx := Some t\<rparr>) = work t" "cur (w\<lparr>tx := None\<rparr>) = committed w"
  by (simp_all add: cur_def)

lemma calm_stmt_map [calm_simps]:
  assumes "calm e"
  shows "stmt_map h s e w = (case s (clock e (steps w)) (cur w) of
           Inl err \<Rightarrow> (Inl (h err), w\<lparr>steps := Suc (steps w)\<rparr>)
         | Inr (x, d) \<Rightarrow> (Inr x, put_cur d (w\<lparr>steps := Suc (steps w)\<rparr>)))"
  by (simp add: stmt_map_def calm_exec [OF assms] split: sum.splits prod.splits)

lemma calm_stmt_try [calm_simps]:
  assumes "calm e"
  shows "stmt_try s e w = (case s (clock e (steps w)) (cur w) of
           Inl err \<Rightarrow> (Inr (Inl err), w\<lparr>steps := Suc (steps w)\<rparr>)
         | Inr (x, d) \<Rightarrow> (Inr (Inr x), put_cur d (w\<lparr>steps := Suc (steps w)\<rparr>)))"
  by (simp add: stmt_try_def calm_exec [OF assms] split: sum.splits prod.splits)

lemma calm_select_lock [calm_simps]:
  assumes "calm e"
  shows "select_lock L q e w = (Inr (q (clock e (steps w)) (cur w)), hold L (w\<lparr>steps := Suc (steps w)\<rparr>))"
  by (simp add: select_lock_def calm_select [OF assms])

lemma calm_stmt_lock [calm_simps]:
  assumes "calm e"
  shows "stmt_lock L s e w = (case s (clock e (steps w)) (cur w) of
           Inl err \<Rightarrow> (Inl db_error, w\<lparr>steps := Suc (steps w)\<rparr>)
         | Inr (x, d) \<Rightarrow> (Inr x, hold L (put_cur d (w\<lparr>steps := Suc (steps w)\<rparr>))))"
  by (simp add: stmt_lock_def calm_stmt [OF assms] split: sum.splits prod.splits)

lemma calm_fetch_one [calm_simps]:
  assumes "calm e"
  shows "fetch_one q e w = (case q (cur w) of
           None \<Rightarrow> (Inl db_error, w\<lparr>steps := Suc (steps w)\<rparr>)
         | Some x \<Rightarrow> (Inr x, w\<lparr>steps := Suc (steps w)\<rparr>))"
proof -
  have "put_cur (cur w) (w\<lparr>steps := Suc (steps w)\<rparr>) = w\<lparr>steps := Suc (steps w)\<rparr>"
    using put_cur_same [of "w\<lparr>steps := Suc (steps w)\<rparr>"] by simp
  then show ?thesis by (simp add: fetch_one_def calm_stmt [OF assms] split: option.splits)
qed

lemma calm_begin_tx [calm_simps]:
  assumes "calm e"
  shows "begin_tx i e w = (Inr (), w\<lparr>steps := steps w + (case i of Default \<Rightarrow> 1 | ReadCommitted \<Rightarrow> 2),
     tx := Some \<lparr>iso = i, work = committed w, snap = None, held = []\<rparr>\<rparr>)"
proof -
  have same: "stmt (\<lambda>_ d. Inr ((), d)) e w = (Inr (), w\<lparr>steps := Suc (steps w)\<rparr>)" for w
    using put_cur_same [of "w\<lparr>steps := Suc (steps w)\<rparr>"] by (simp add: calm_stmt [OF assms])
  then show ?thesis
    by (cases i) (simp_all add: begin_tx_def set_isolation_def ok_def and_then_def open_tx_def)
qed

lemma calm_commit [calm_simps]:
  "calm e \<Longrightarrow> commit e w = (Inr (), w\<lparr>steps := Suc (steps w), committed := cur w, tx := None\<rparr>)"
  by (simp add: commit_def calm_settle calm_def Let_def)

lemma calm_select_snap [calm_simps]:
  assumes "calm e"
  shows "select_snap q e w = (case tx w of
       None \<Rightarrow> (Inr (q (clock e (steps w)) (committed w)), w\<lparr>steps := Suc (steps w)\<rparr>)
     | Some t \<Rightarrow> let s = (case snap t of None \<Rightarrow> work t | Some s \<Rightarrow> s)
         in (Inr (q (clock e (steps w)) s), w\<lparr>steps := Suc (steps w), tx := Some (t\<lparr>snap := Some s\<rparr>)\<rparr>))"
proof -
  from assms have "fault_at e (steps w) = NoFault" by (simp add: calm_def)
  then show ?thesis
    by (cases "tx w") (simp_all add: select_snap_def calm_settle [OF assms] Let_def)
qed

lemma put_cur_tx [simp]: "tx w = Some t \<Longrightarrow> put_cur d w = w\<lparr>tx := Some (t\<lparr>work := d\<rparr>)\<rparr>"
  by (simp add: put_cur_def)

lemma put_cur_no_tx [simp]: "tx w = None \<Longrightarrow> put_cur d w = w\<lparr>committed := d\<rparr>"
  by (simp add: put_cur_def)

lemma hold_tx [simp]: "tx w = Some t \<Longrightarrow> hold L w = w\<lparr>tx := Some (t\<lparr>held := held t @ L\<rparr>)\<rparr>"
  by (simp add: hold_def)

lemmas calm_run = calm_simps run_def and_then_def ok_def fail_def emit_def ask_def refuse_call_def
  failing_call_def drop_tx_def cur_def

lemma run_answers:
  assumes "is_ok (fst (run m e d))"
  obtains x d' ev where "run m e d = (Inr x, d', ev)"
  using assms by (metis is_ok.elims(2) prod.exhaust prod.sel(1))

end
