(* ===== verification/Guarantee.thy ===== *)
theory Guarantee
  imports Engine
begin

text \<open>
  What every operation of the service guarantees of the store, whatever fails and whatever other
  sessions do between its statements, as long as they guarantee the same (rely and guarantee).
  The composition rules are proved once, for any reflexive and transitive relation between two
  states of the store that keeps an invariant (locale \<open>guarantee\<close>); \<open>History\<close> gives the relation.
\<close>

definition drift :: "env \<Rightarrow> world \<Rightarrow> db \<Rightarrow> db" where
  "drift e w d = others e (steps w) (locks_of w) d"

lemma settle_sel [simp]:
  "committed (settle e w) = drift e w (committed w)"
  "steps (settle e w) = Suc (steps w)"
  "events (settle e w) = events w"
  by (simp_all add: settle_def drift_def)

lemma settle_tx:
  "tx (settle e w) = (case tx w of None \<Rightarrow> None | Some t \<Rightarrow> Some (t\<lparr>work := drift e w (work t)\<rparr>))"
  by (simp add: settle_def drift_def locks_of_def split: option.splits)

lemma cur_settle: "cur (settle e w) = drift e w (cur w)"
  by (simp add: cur_def settle_tx split: option.splits)

lemma cur_hold [simp]: "cur (hold L w) = cur w"
  by (simp add: cur_def hold_def split: option.splits)

text \<open>
  Where a transaction may be open: \<open>shut m\<close> opens none, and \<open>closes m\<close> leaves none open when it
  succeeds.
\<close>

definition shut :: "'a act \<Rightarrow> bool" where
  "shut m \<longleftrightarrow> (\<forall>e w x w'. tx w = None \<longrightarrow> m e w = (Inr x, w') \<longrightarrow> tx w' = None)"

definition closes :: "'a act \<Rightarrow> bool" where
  "closes m \<longleftrightarrow> (\<forall>e w x w'. m e w = (Inr x, w') \<longrightarrow> tx w' = None)"

lemma and_then_assoc: "and_then (and_then m f) g = and_then m (\<lambda>x. and_then (f x) g)"
  by (auto simp: and_then_def fun_eq_iff split: sum.splits prod.splits)

lemma and_then_Inr:
  "and_then m f e w = (Inr y, v) \<longleftrightarrow> (\<exists>x u. m e w = (Inr x, u) \<and> f x e u = (Inr y, v))"
  by (auto simp: and_then_def split: sum.splits prod.splits)

lemma shut_ok [keeps_intros]: "shut (ok x)"
  by (simp add: shut_def ok_def)

lemma shut_emit [keeps_intros]: "shut (emit v)"
  by (auto simp: shut_def emit_def)

lemma shut_fail [keeps_intros]: "shut (fail s)"
  by (simp add: shut_def fail_def)

lemma shut_acquire [keeps_intros]: "shut acquire"
  by (auto simp: shut_def acquire_def Let_def split: if_splits sum.splits)

lemma shut_stmt [keeps_intros]: "shut (stmt s)"
  by (auto simp: shut_def stmt_def stmt_map_def exec_def Let_def settle_tx
      split: fault.splits sum.splits prod.splits if_splits)

lemma shut_set_isolation [keeps_intros]: "shut (set_isolation i)"
  by (cases i) (auto simp: set_isolation_def intro: shut_ok shut_stmt)

lemma closes_commit [keeps_intros]: "closes commit"
  by (auto simp: closes_def commit_def Let_def split: fault.splits)

lemma closes_shut: "closes m \<Longrightarrow> shut m"
  by (auto simp: closes_def shut_def)

lemma shut_ask [keeps_intros]: "(\<And>e. shut (f e)) \<Longrightarrow> shut (ask f)"
  by (simp add: shut_def ask_def)

lemma shut_select [keeps_intros]: "shut (select q)"
  unfolding select_def by (rule shut_stmt)

lemma closes_fail [keeps_intros]: "closes (fail s)"
  by (simp add: closes_def fail_def)

lemma closes_refuse [keeps_intros]: "closes (refuse_call s l)"
  by (simp add: closes_def refuse_call_def and_then_def emit_def fail_def)

lemma closes_ask [keeps_intros]: "(\<And>e. closes (f e)) \<Longrightarrow> closes (ask f)"
  by (simp add: closes_def ask_def)

lemma closes_then: "(\<And>x. closes (f x)) \<Longrightarrow> closes (and_then m f)"
  unfolding closes_def and_then_Inr by blast

lemma closed_then: "closes m \<Longrightarrow> (\<And>x. shut (f x)) \<Longrightarrow> closes (and_then m f)"
  unfolding closes_def shut_def and_then_Inr by blast

lemma shut_then: "shut m \<Longrightarrow> (\<And>x. shut (f x)) \<Longrightarrow> shut (and_then m f)"
  unfolding shut_def and_then_Inr by blast

text \<open>What a step that answered did: the statement ran on the store as the others left it.\<close>

lemma stmt_map_Inr:
  assumes "stmt_map h s e w = (Inr x, w')"
  shows "\<exists>d. s (clock e (steps w)) (cur (settle e w)) = Inr (x, d) \<and> w' = put_cur d (settle e w)"
  using assms by (auto simp: stmt_map_def exec_def Let_def split: fault.splits sum.splits prod.splits if_splits)

lemma stmt_Inr:
  assumes "stmt s e w = (Inr x, w')"
  shows "\<exists>d. s (clock e (steps w)) (cur (settle e w)) = Inr (x, d) \<and> w' = put_cur d (settle e w)"
  using assms unfolding stmt_def by (rule stmt_map_Inr)

lemma select_Inr:
  assumes "select q e w = (Inr x, w')"
  shows "x = q (clock e (steps w)) (cur (settle e w)) \<and> w' = settle e w"
  using stmt_Inr [OF assms [unfolded select_def]] by auto

lemma select_lock_Inr:
  assumes "select_lock L q e w = (Inr x, w')"
  shows "x = q (clock e (steps w)) (cur (settle e w)) \<and> w' = hold L (settle e w)"
  using assms select_Inr by (fastforce simp: select_lock_def split: sum.splits prod.splits)

lemma stmt_lock_Inr:
  assumes "stmt_lock L s e w = (Inr x, w')"
  shows "\<exists>d. s (clock e (steps w)) (cur (settle e w)) = Inr (x, d) \<and> w' = hold L (put_cur d (settle e w))"
  using assms stmt_Inr by (fastforce simp: stmt_lock_def split: sum.splits prod.splits)

lemma fetch_one_Inr:
  assumes "fetch_one q e w = (Inr x, w')"
  shows "q (cur (settle e w)) = Some x \<and> w' = settle e w"
  using stmt_Inr [OF assms [unfolded fetch_one_def]] by (auto split: option.splits)

lemma commit_Inr:
  assumes "commit e w = (Inr x, w')"
  shows "committed w' = cur (settle e w) \<and> tx w' = None"
  using assms by (auto simp: commit_def Let_def split: fault.splits)

lemmas step_Inr = stmt_Inr stmt_map_Inr select_Inr select_lock_Inr stmt_lock_Inr fetch_one_Inr

text \<open>The plain reads of one REPEATABLE READ transaction read one state.\<close>

definition snap_is :: "db \<Rightarrow> world \<Rightarrow> bool" where
  "snap_is s w \<longleftrightarrow> (\<exists>t. tx w = Some t \<and> snap t = Some s)"

lemma select_snap_again:
  "snap_is s w \<Longrightarrow> select_snap q e w = (Inr x, w') \<Longrightarrow> (\<exists>t. x = q t s) \<and> snap_is s w'"
  by (auto simp: snap_is_def select_snap_def settle_tx Let_def split: if_splits)

lemma select_snap_first:
  assumes "tx w = Some t" and "snap t = None" and "select_snap q e w = (Inr x, w')"
  shows "(\<exists>t'. x = q t' (cur (settle e w))) \<and> snap_is (cur (settle e w)) w'"
  using assms by (auto simp: snap_is_def select_snap_def settle_tx cur_def Let_def split: if_splits)

lemma begin_tx_open: "begin_tx i e w = (Inr x, w') \<Longrightarrow> \<exists>t. tx w' = Some t \<and> snap t = None"
  by (auto simp: begin_tx_def and_then_Inr open_tx_def)

locale guarantee =
  fixes R :: "db \<Rightarrow> db \<Rightarrow> bool" and I :: "db \<Rightarrow> bool"
  assumes R_refl: "R d d"
    and R_trans: "R a b \<Longrightarrow> R b c \<Longrightarrow> R a c"
    and R_inv: "R a b \<Longrightarrow> I a \<Longrightarrow> I b"
begin

text \<open>The other sessions guarantee \<open>R\<close> too.\<close>

definition relies :: "env \<Rightarrow> bool" where
  "relies e \<longleftrightarrow> (\<forall>n L d. R d (others e n L d))"

text \<open>Every copy of the store a call holds is one the store could have moved to.\<close>

definition within :: "db \<Rightarrow> world \<Rightarrow> bool" where
  "within c w \<longleftrightarrow> I c \<and> R c (committed w) \<and>
     (case tx w of None \<Rightarrow> True | Some t \<Rightarrow> R c (work t))"

definition stable :: "(db \<Rightarrow> bool) \<Rightarrow> bool" where
  "stable P \<longleftrightarrow> (\<forall>a b. I a \<longrightarrow> P a \<longrightarrow> R a b \<longrightarrow> P b)"

definition keeps :: "(db \<Rightarrow> bool) \<Rightarrow> 'a act \<Rightarrow> ('a \<Rightarrow> db \<Rightarrow> bool) \<Rightarrow> bool" where
  "keeps P m Q \<longleftrightarrow> (\<forall>e w c. relies e \<longrightarrow> within c w \<longrightarrow> P (cur w) \<longrightarrow>
     within c (snd (m e w)) \<and> (\<forall>x. fst (m e w) = Inr x \<longrightarrow> Q x (cur (snd (m e w)))))"

lemma within_cur: "within c w \<Longrightarrow> R c (cur w)"
  by (auto simp: within_def cur_def split: option.splits)

lemma within_inv: "within c w \<Longrightarrow> I (cur w)"
  using within_cur R_inv by (auto simp: within_def)

lemma relies_drift: "relies e \<Longrightarrow> R d (drift e w d)"
  by (simp add: relies_def drift_def)

lemma within_settle: "relies e \<Longrightarrow> within c w \<Longrightarrow> within c (settle e w)"
  using relies_drift R_trans by (auto simp: within_def settle_tx split: option.splits)

lemma within_put_cur: "within c w \<Longrightarrow> R c d \<Longrightarrow> within c (put_cur d w)"
  by (auto simp: within_def put_cur_def split: option.splits)

lemma within_hold [simp]: "within c (hold L w) = within c w"
  by (auto simp: within_def hold_def split: option.splits)

lemma within_no_tx: "within c w \<Longrightarrow> within c (w\<lparr>tx := None\<rparr>)"
  by (simp add: within_def)

lemma stable_settle:
  "stable P \<Longrightarrow> relies e \<Longrightarrow> within c w \<Longrightarrow> P (cur w) \<Longrightarrow> P (cur (settle e w))"
  unfolding cur_settle stable_def using relies_drift within_inv by blast

lemma stable_True [keeps_intros]: "stable (\<lambda>_. True)"
  by (simp add: stable_def)

lemma stable_conj [keeps_intros]: "stable P \<Longrightarrow> stable Q \<Longrightarrow> stable (\<lambda>d. P d \<and> Q d)"
  by (auto simp: stable_def)

lemma stable_pure [keeps_intros]: "stable (\<lambda>_. b)"
  by (simp add: stable_def)

lemma keeps_ok: "(\<And>d. I d \<Longrightarrow> P d \<Longrightarrow> Q x d) \<Longrightarrow> keeps P (ok x) Q"
  using within_inv by (auto simp: keeps_def ok_def)

lemma keeps_ask [keeps_intros]: "(\<And>e. keeps P (f e) Q) \<Longrightarrow> keeps P (ask f) Q"
  by (simp add: keeps_def ask_def)

lemma keeps_fail [keeps_intros]: "keeps P (fail s) Q"
  by (simp add: keeps_def fail_def)

lemma keeps_and_then:
  assumes "keeps P m Q" and "\<And>x. keeps (Q x) (f x) S"
  shows "keeps P (and_then m f) S"
  unfolding keeps_def
proof (intro allI impI)
  fix e w c
  assume *: "relies e" "within c w" "P (cur w)"
  obtain r w1 where m: "m e w = (r, w1)" by fastforce
  from assms(1) * have w1: "within c w1" and q: "\<And>x. r = Inr x \<Longrightarrow> Q x (cur w1)"
    unfolding keeps_def by (metis m snd_conv, metis m fst_conv snd_conv)
  show "within c (snd (and_then m f e w)) \<and>
    (\<forall>x. fst (and_then m f e w) = Inr x \<longrightarrow> S x (cur (snd (and_then m f e w))))"
  proof (cases r)
    case (Inl s)
    then show ?thesis using m w1 by (simp add: and_then_def)
  next
    case (Inr x)
    with assms(2) [of x] *(1) w1 q show ?thesis
      using m by (simp add: and_then_def keeps_def)
  qed
qed

lemma keeps_emit [keeps_intros]: "keeps P (emit v) (\<lambda>_. P)"
  by (simp add: keeps_def emit_def within_def)

lemma keeps_refuse [keeps_intros]: "keeps P (refuse_call s l) Q"
  unfolding refuse_call_def
  by (rule keeps_and_then [where Q = "\<lambda>_. P"]) (rule keeps_intros)+

lemma keeps_acquire [keeps_intros]: "keeps P acquire (\<lambda>_. P)"
  by (auto simp: keeps_def acquire_def Let_def split: if_splits sum.splits)

lemma keeps_drop_tx: "keeps P drop_tx (\<lambda>_ _. True)"
  by (auto simp: keeps_def drop_tx_def intro: within_no_tx)

lemma keeps_weaken:
  assumes "keeps P m Q" and "\<And>d. I d \<Longrightarrow> P' d \<Longrightarrow> P d" and "\<And>x d. I d \<Longrightarrow> Q x d \<Longrightarrow> Q' x d"
  shows "keeps P' m Q'"
  unfolding keeps_def
proof (intro allI impI)
  fix e w c
  assume *: "relies e" "within c w" "P' (cur w)"
  then have "P (cur w)" using assms(2) within_inv by blast
  with * assms(1) have m: "within c (snd (m e w))"
      "\<And>x. fst (m e w) = Inr x \<Longrightarrow> Q x (cur (snd (m e w)))"
    unfolding keeps_def by blast+
  then show "within c (snd (m e w)) \<and> (\<forall>x. fst (m e w) = Inr x \<longrightarrow> Q' x (cur (snd (m e w))))"
    using assms(3) within_inv by blast
qed

text \<open>One statement: what it promises of the state it starts from holds after the others moved.\<close>

lemma exec_within:
  assumes "relies e" "within c w" "stable P" "P (cur w)"
    and s: "\<And>t d x d'. I d \<Longrightarrow> P d \<Longrightarrow> s t d = Inr (x, d') \<Longrightarrow> R d d' \<and> Q x d'"
  shows "within c (snd (exec s e w)) \<and> (\<forall>x. fst (exec s e w) = Inr x \<longrightarrow> Q x (cur (snd (exec s e w))))"
proof -
  let ?w = "settle e w"
  have w: "within c ?w" using assms(1,2) by (rule within_settle)
  have p: "P (cur ?w)" using assms(1-4) stable_settle by blast
  have i: "I (cur ?w)" using w by (rule within_inv)
  have step: "within c (put_cur d' ?w)" "Q x d'"
    if "s (clock e (steps w)) (cur ?w) = Inr (x, d')" for x d'
    using s [OF i p that] within_put_cur [OF w] R_trans [OF within_cur [OF w]] by auto
  then show ?thesis
    using w by (auto simp: exec_def Let_def split: fault.splits sum.splits)
qed

lemma keeps_stmt_map:
  assumes "stable P"
    and "\<And>t d x d'. I d \<Longrightarrow> P d \<Longrightarrow> s t d = Inr (x, d') \<Longrightarrow> R d d' \<and> Q x d'"
  shows "keeps P (stmt_map h s) Q"
  unfolding keeps_def
proof (intro allI impI)
  fix e w c
  assume *: "relies e" "within c w" "P (cur w)"
  obtain r w1 where x: "exec s e w = (r, w1)" by fastforce
  show "within c (snd (stmt_map h s e w)) \<and>
    (\<forall>x. fst (stmt_map h s e w) = Inr x \<longrightarrow> Q x (cur (snd (stmt_map h s e w))))"
    using exec_within [where s = s and Q = Q, OF *(1,2) assms(1) *(3)] assms(2) x
    by (simp add: stmt_map_def split: sum.splits)
qed

lemma keeps_stmt_try:
  assumes "stable P"
    and "\<And>t d x d'. I d \<Longrightarrow> P d \<Longrightarrow> s t d = Inr (x, d') \<Longrightarrow> R d d'"
  shows "keeps P (stmt_try s) (\<lambda>_ _. True)"
  unfolding keeps_def
proof (intro allI impI)
  fix e w c
  assume *: "relies e" "within c w" "P (cur w)"
  obtain r w1 where x: "exec s e w = (r, w1)" by fastforce
  show "within c (snd (stmt_try s e w)) \<and>
    (\<forall>x. fst (stmt_try s e w) = Inr x \<longrightarrow> True)"
    using exec_within [OF *(1,2) assms(1) *(3), of s "\<lambda>_ _. True"] assms(2) x
    by (simp add: stmt_try_def)
qed

lemma keeps_stmt:
  assumes "stable P"
    and "\<And>t d x d'. I d \<Longrightarrow> P d \<Longrightarrow> s t d = Inr (x, d') \<Longrightarrow> R d d' \<and> Q x d'"
  shows "keeps P (stmt s) Q"
  unfolding stmt_def using assms by (rule keeps_stmt_map)

lemma keeps_hold:
  assumes "keeps P (m :: 'a act) Q"
  shows "keeps P (\<lambda>e w. case m e w of (Inl s, w') \<Rightarrow> (Inl s, w') | (Inr x, w') \<Rightarrow> (Inr x, hold L w')) Q"
  unfolding keeps_def
proof (intro allI impI)
  fix e w c
  assume *: "relies e" "within c w" "P (cur w)"
  obtain r w1 where x: "m e w = (r, w1)" by fastforce
  show "within c (snd (case m e w of (Inl s, w') \<Rightarrow> (Inl s, w') | (Inr x, w') \<Rightarrow> (Inr x, hold L w'))) \<and>
    (\<forall>x. fst (case m e w of (Inl s, w') \<Rightarrow> (Inl s, w') | (Inr x, w') \<Rightarrow> (Inr x, hold L w')) = Inr x \<longrightarrow>
       Q x (cur (snd (case m e w of (Inl s, w') \<Rightarrow> (Inl s, w') | (Inr x, w') \<Rightarrow> (Inr x, hold L w')))))"
    using assms [unfolded keeps_def, rule_format, OF *] x by (cases r) simp_all
qed

lemma keeps_select:
  assumes "stable P" and "\<And>t d. I d \<Longrightarrow> P d \<Longrightarrow> Q (q t d) d"
  shows "keeps P (select q) Q"
  unfolding select_def by (rule keeps_stmt [OF assms(1)]) (use assms(2) R_refl in auto)

lemma keeps_fetch_one:
  assumes "stable P" and "\<And>d x. I d \<Longrightarrow> P d \<Longrightarrow> q d = Some x \<Longrightarrow> Q x d"
  shows "keeps P (fetch_one q) Q"
  unfolding fetch_one_def
  by (rule keeps_stmt [OF assms(1)]) (use assms(2) R_refl in \<open>auto split: option.splits\<close>)

lemma keeps_failing_call [keeps_intros]: "keeps P m Q \<Longrightarrow> keeps P (failing_call m) Q"
  unfolding keeps_def failing_call_def
  by (auto simp: within_def split: sum.splits prod.splits) (metis fst_conv snd_conv)+

lemma keeps_select_lock:
  assumes "stable P" and "\<And>t d. I d \<Longrightarrow> P d \<Longrightarrow> Q (q t d) d"
  shows "keeps P (select_lock L q) Q"
proof -
  have "keeps P (select q) Q" using assms by (rule keeps_select)
  from keeps_hold [OF this] show ?thesis by (simp add: select_lock_def [abs_def])
qed

lemma keeps_stmt_lock:
  assumes "stable P"
    and "\<And>t d x d'. I d \<Longrightarrow> P d \<Longrightarrow> s t d = Inr (x, d') \<Longrightarrow> R d d' \<and> Q x d'"
  shows "keeps P (stmt_lock L s) Q"
proof -
  have "keeps P (stmt s) Q" using assms by (rule keeps_stmt)
  from keeps_hold [OF this] show ?thesis by (simp add: stmt_lock_def [abs_def])
qed

lemma keeps_select_snap [keeps_intros]: "stable P \<Longrightarrow> keeps P (select_snap q) (\<lambda>_. P)"
  unfolding keeps_def
proof (intro allI impI)
  fix e w c
  assume *: "stable P" "relies e" "within c w" "P (cur w)"
  have w: "within c (settle e w)" and p: "P (cur (settle e w))"
    using * within_settle stable_settle by blast+
  then show "within c (snd (select_snap q e w)) \<and>
    (\<forall>x. fst (select_snap q e w) = Inr x \<longrightarrow> P (cur (snd (select_snap q e w))))"
    by (auto simp: select_snap_def Let_def within_def cur_def split: option.splits)
qed

lemma keeps_set_isolation: "stable P \<Longrightarrow> keeps P (set_isolation i) (\<lambda>_. P)"
  by (cases i) (auto simp: set_isolation_def R_refl intro!: keeps_ok keeps_stmt)

lemma keeps_begin_tx [keeps_intros]: "keeps (\<lambda>_. True) (begin_tx i) (\<lambda>_ _. True)"
  unfolding begin_tx_def
proof (rule keeps_and_then [OF keeps_set_isolation [OF stable_True]], rule keeps_and_then)
  show "keeps (\<lambda>_. True) (stmt (\<lambda>_ d. Inr ((), d))) (\<lambda>_ _. True)"
    by (rule keeps_stmt [OF stable_True]) (simp add: R_refl)
  show "keeps (\<lambda>_. True) (open_tx i) (\<lambda>_ _. True)"
    by (simp add: keeps_def within_def open_tx_def)
qed

lemma keeps_commit [keeps_intros]: "keeps P commit (\<lambda>_ _. True)"
  unfolding keeps_def
proof (intro allI impI)
  fix e w c
  assume *: "relies e" "within c w" "P (cur w)"
  then have "within c (settle e w)" by (simp add: within_settle)
  moreover from this have "R c (cur (settle e w))" by (rule within_cur)
  ultimately show "within c (snd (commit e w)) \<and> (\<forall>x. fst (commit e w) = Inr x \<longrightarrow> True)"
    by (auto simp: commit_def Let_def within_def split: fault.splits)
qed

text \<open>What a whole request guarantees.\<close>

lemma keeps_run:
  assumes "keeps (\<lambda>_. True) m Q" and "relies e" and "I d" and "run m e d = (r, d', ev)"
  shows "R d d' \<and> I d'"
proof -
  let ?w = "\<lparr>committed = d, tx = None, steps = 0, events = []\<rparr>"
  have "within d ?w" using assms(3) by (simp add: within_def R_refl)
  with assms(1,2) have "within d (snd (m e ?w))" by (simp add: keeps_def)
  moreover have "d' = committed (snd (m e ?w))"
    using assms(4) by (auto simp: run_def split: prod.splits)
  ultimately show ?thesis using assms(3) R_inv by (auto simp: within_def)
qed

text \<open>
  Facts carried through a whole request, from the state it starts in to the state it commits:
  \<open>starts\<close> is \<open>keeps\<close> for a step that no transaction is open before.
\<close>

definition starts :: "(db \<Rightarrow> bool) \<Rightarrow> 'a act \<Rightarrow> ('a \<Rightarrow> db \<Rightarrow> bool) \<Rightarrow> bool" where
  "starts P m Q \<longleftrightarrow> (\<forall>e w c. relies e \<longrightarrow> within c w \<longrightarrow> tx w = None \<longrightarrow> P (cur w) \<longrightarrow>
     within c (snd (m e w)) \<and> (\<forall>x. fst (m e w) = Inr x \<longrightarrow> Q x (cur (snd (m e w)))))"

lemma starts_keeps: "keeps P m Q \<Longrightarrow> starts P m Q"
  by (simp add: keeps_def starts_def)

lemma starts_ask: "(\<And>e. starts P (f e) Q) \<Longrightarrow> starts P (ask f) Q"
  by (simp add: starts_def ask_def)

lemma starts_and_then:
  assumes "keeps P m Q" and "shut m" and "\<And>x. starts (Q x) (f x) S"
  shows "starts P (and_then m f) S"
  unfolding starts_def
proof (intro allI impI)
  fix e w c
  assume *: "relies e" "within c w" "tx w = None" "P (cur w)"
  obtain r w1 where m: "m e w = (r, w1)" by fastforce
  from assms(1) * have w1: "within c w1" and q: "\<And>x. r = Inr x \<Longrightarrow> Q x (cur w1)"
    unfolding keeps_def by (metis m snd_conv, metis m fst_conv snd_conv)
  show "within c (snd (and_then m f e w)) \<and>
    (\<forall>x. fst (and_then m f e w) = Inr x \<longrightarrow> S x (cur (snd (and_then m f e w))))"
  proof (cases r)
    case (Inl s)
    then show ?thesis using m w1 by (simp add: and_then_def)
  next
    case (Inr x)
    with m *(3) assms(2) have "tx w1 = None" by (auto simp: shut_def)
    with Inr assms(3) [of x] *(1) w1 q show ?thesis
      using m by (simp add: and_then_def starts_def)
  qed
qed

text \<open>\<open>BEGIN\<close> copies the committed store, so what holds of the store holds of the copy.\<close>

lemma starts_begin:
  assumes P: "stable P" and body: "starts P (and_then (open_tx i) f) S"
  shows "starts P (and_then (begin_tx i) f) S"
proof -
  have "starts P (and_then (stmt (\<lambda>_ d. Inr ((), d))) (\<lambda>_. and_then (open_tx i) f)) S"
    by (rule starts_and_then [OF keeps_stmt [OF P] shut_stmt body]) (simp add: R_refl)
  then have "starts P (and_then (set_isolation i) (\<lambda>_.
      and_then (stmt (\<lambda>_ d. Inr ((), d))) (\<lambda>_. and_then (open_tx i) f))) S"
    by (rule starts_and_then [OF keeps_set_isolation [OF P] shut_set_isolation])
  then show ?thesis by (simp add: begin_tx_def and_then_assoc)
qed

lemma starts_begin_tx:
  assumes P: "stable P" and f: "\<And>x. keeps P (f x) S"
  shows "starts P (and_then (begin_tx i) f) S"
proof (rule starts_begin [OF P], unfold starts_def, intro allI impI)
  fix e w c
  assume *: "relies e" "within c w" "tx w = None" "P (cur w)"
  let ?w = "w\<lparr>tx := Some \<lparr>iso = i, work = committed w, snap = None, held = []\<rparr>\<rparr>"
  have "within c ?w" "P (cur ?w)" using * by (simp_all add: within_def cur_def)
  with *(1) f [of "()"] show "within c (snd (and_then (open_tx i) f e w)) \<and>
     (\<forall>x. fst (and_then (open_tx i) f e w) = Inr x \<longrightarrow> S x (cur (snd (and_then (open_tx i) f e w))))"
    by (simp add: and_then_def open_tx_def keeps_def)
qed

text \<open>The first plain read of a REPEATABLE READ transaction sees a state the facts hold of.\<close>

lemma starts_first_read:
  assumes P: "stable P"
    and f: "\<And>x. keeps (\<lambda>d. P d \<and> (\<exists>t s. I s \<and> P s \<and> x = q t s)) (f x) S"
  shows "starts P (and_then (begin_tx i) (\<lambda>_. and_then (select_snap q) f)) S"
proof (rule starts_begin [OF P], unfold starts_def, intro allI impI)
  let ?m = "and_then (open_tx i) (\<lambda>_. and_then (select_snap q) f)"
  fix e w c
  assume *: "relies e" "within c w" "tx w = None" "P (cur w)"
  let ?w = "w\<lparr>tx := Some \<lparr>iso = i, work = committed w, snap = None, held = []\<rparr>\<rparr>"
  let ?s = "cur (settle e ?w)"
  have w: "within c ?w" "P (cur ?w)" using * by (simp_all add: within_def cur_def)
  have s: "within c (settle e ?w)" "P ?s"
    using *(1) w within_settle stable_settle [OF P] by blast+
  have i: "I ?s" using s(1) by (rule within_inv)
  show "within c (snd (?m e w)) \<and> (\<forall>x. fst (?m e w) = Inr x \<longrightarrow> S x (cur (snd (?m e w))))"
  proof (cases "fault_at e (steps w) = NoFault")
    case True
    obtain w2 where r: "select_snap q e ?w = (Inr (q (clock e (steps w)) ?s), w2)"
        "within c w2" "cur w2 = ?s"
      using True s(1) by (auto simp: select_snap_def settle_tx cur_def Let_def within_def)
    from f [of "q (clock e (steps w)) ?s"] *(1) r s(2) i show ?thesis
      by (fastforce simp: and_then_def open_tx_def keeps_def)
  next
    case False
    then show ?thesis using s(1) by (simp add: and_then_def open_tx_def select_snap_def settle_tx Let_def)
  qed
qed

lemma keeps_commit_stable: "stable P \<Longrightarrow> keeps P commit (\<lambda>_. P)"
  unfolding keeps_def
proof (intro allI impI)
  fix e w c
  assume *: "stable P" "relies e" "within c w" "P (cur w)"
  then have "within c (settle e w)" and p: "P (cur (settle e w))"
    using within_settle stable_settle by blast+
  moreover from this(1) have "R c (cur (settle e w))" by (rule within_cur)
  moreover have "cur (x\<lparr>committed := d, tx := None\<rparr>) = d" for x d by (simp add: cur_def)
  ultimately show "within c (snd (commit e w)) \<and>
    (\<forall>x. fst (commit e w) = Inr x \<longrightarrow> P (cur (snd (commit e w))))"
    by (auto simp: commit_def Let_def within_def split: fault.splits)
qed

lemma starts_run:
  assumes "starts P m Q" and "shut m" and "relies e" and "I d" and "P d"
    and "run m e d = (Inr x, d', ev)"
  shows "Q x d'"
proof -
  let ?w = "\<lparr>committed = d, tx = None, steps = 0, events = []\<rparr>"
  obtain w where w: "m e ?w = (Inr x, w)" "d' = committed w"
    using assms(6) by (auto simp: run_def split: prod.splits)
  have "within d ?w" "P (cur ?w)" using assms(4,5) by (simp_all add: within_def R_refl cur_def)
  with assms(1,3) w have "Q x (cur w)" unfolding starts_def by (metis fst_conv snd_conv world.select_convs(2))
  moreover have "tx w = None" using assms(2) w(1) unfolding shut_def by (metis world.select_convs(2))
  ultimately show ?thesis using w by (simp add: cur_def)
qed

lemma starts_answer:
  assumes "starts P m (\<lambda>x _. Q x)" and "relies e" and "I d" and "P d" and "run m e d = (Inr x, d', ev)"
  shows "Q x"
proof -
  let ?w = "\<lparr>committed = d, tx = None, steps = 0, events = []\<rparr>"
  have "within d ?w" "P (cur ?w)" using assms(3,4) by (simp_all add: within_def R_refl cur_def)
  moreover have "fst (m e ?w) = Inr x" using assms(5) by (auto simp: run_def split: prod.splits)
  ultimately show ?thesis using assms(1,2) unfolding starts_def by (metis world.select_convs(2))
qed

end

end
