(* ===== verification/History.thy ===== *)
theory History
  imports Guarantee
begin

text \<open>
  What the store never forgets. \<open>evolves\<close> relates two states of the store: a person, a credential
  and an enrolment once stored stay stored with the facts they were stored with, a tombstone once
  set keeps its time, a credential epoch never goes back, and the two ledgers and the key-identity
  marker are append-only. \<open>step_ok\<close> adds that the store's constraints are kept. It is the guarantee
  of every operation, and the lemmas below discharge it for every constrained write.
\<close>

section \<open>The relation\<close>

definition rows_evolve :: "('r \<Rightarrow> 'r \<Rightarrow> bool) \<Rightarrow> 'r list \<Rightarrow> 'r list \<Rightarrow> bool" where
  "rows_evolve q rs rs' \<longleftrightarrow> (\<forall>r \<in> set rs. \<exists>r' \<in> set rs'. q r r')"

definition user_evolves :: "user_row \<Rightarrow> user_row \<Rightarrow> bool" where
  "user_evolves u v \<longleftrightarrow> u_id v = u_id u \<and> u_blind_index v = u_blind_index u \<and>
     u_external_ct v = u_external_ct u \<and> u_display_ct v = u_display_ct u \<and>
     u_created_at v = u_created_at u \<and> u_created_by v = u_created_by u \<and>
     u_epoch u \<le> u_epoch v \<and> (u_deleted_at u \<noteq> None \<longrightarrow> u_deleted_at v = u_deleted_at u)"

definition credential_evolves :: "credential_row \<Rightarrow> credential_row \<Rightarrow> bool" where
  "credential_evolves a b \<longleftrightarrow> c_id b = c_id a \<and> c_user_id b = c_user_id a \<and>
     c_token_hash b = c_token_hash a \<and> c_label b = c_label a \<and> c_created_at b = c_created_at a \<and>
     c_expires_at b = c_expires_at a \<and>
     (c_revoked_at a \<noteq> None \<longrightarrow> c_revoked_at b = c_revoked_at a)"

definition enrolment_evolves :: "enrolment_row \<Rightarrow> enrolment_row \<Rightarrow> bool" where
  "enrolment_evolves a b \<longleftrightarrow> e_id b = e_id a \<and> e_user_id b = e_user_id a \<and>
     e_secret_hash b = e_secret_hash a \<and> e_created_at b = e_created_at a \<and>
     e_expires_at b = e_expires_at a \<and> e_revoke_existing b = e_revoke_existing a \<and>
     (e_spent_at a \<noteq> None \<longrightarrow> e_spent_at b = e_spent_at a) \<and>
     (e_voided_at a \<noteq> None \<longrightarrow> e_voided_at b = e_voided_at a)"

definition evolves :: "db \<Rightarrow> db \<Rightarrow> bool" where
  "evolves d d' \<longleftrightarrow> rows_evolve user_evolves (iam_user d) (iam_user d') \<and>
     rows_evolve credential_evolves (iam_credential d) (iam_credential d') \<and>
     rows_evolve enrolment_evolves (iam_enrolment d) (iam_enrolment d') \<and>
     set (iam_enrolment_redemption d) \<subseteq> set (iam_enrolment_redemption d') \<and>
     set (iam_inherited_setting_write d) \<subseteq> set (iam_inherited_setting_write d') \<and>
     (\<forall>m. iam_key_identity d = Some m \<longrightarrow> iam_key_identity d' = Some m) \<and>
     team_keys d \<subseteq> team_keys d'"

definition step_ok :: "db \<Rightarrow> db \<Rightarrow> bool" where
  "step_ok d d' \<longleftrightarrow> evolves d d' \<and> (store_ok d \<longrightarrow> store_ok d')"

lemmas evolves_row_defs = user_evolves_def credential_evolves_def enrolment_evolves_def
lemmas table_ok_defs = users_ok_def credentials_ok_def enrolments_ok_def redemptions_ok_def
  teams_ok_def members_ok_def passwords_ok_def rate_limits_ok_def settings_ok_def
  setting_writes_ok_def marker_ok_def pending_ok_def

lemma rows_evolve_refl: "(\<And>r. q r r) \<Longrightarrow> rows_evolve q rs rs"
  by (auto simp: rows_evolve_def)

lemma rows_evolve_trans:
  assumes "\<And>a b c. q a b \<Longrightarrow> q b c \<Longrightarrow> q a c" "rows_evolve q xs ys" "rows_evolve q ys zs"
  shows "rows_evolve q xs zs"
  using assms unfolding rows_evolve_def by meson

lemma rows_evolve_upd:
  assumes "\<And>r. q r r" "\<And>r. r \<in> set rs \<Longrightarrow> P r \<Longrightarrow> q r (f r)"
  shows "rows_evolve q rs (upd P f rs)"
  unfolding rows_evolve_def set_upd bex_simps
proof
  fix r assume "r \<in> set rs"
  with assms show "\<exists>r' \<in> set rs. q r (if P r' then f r' else r')"
    by (intro bexI [of _ r]) auto
qed

lemma rows_evolve_append:
  assumes "\<And>r. q r r" shows "rows_evolve q rs (rs @ ss)"
  using assms by (auto simp: rows_evolve_def)

lemma row_evolves_refl [simp]:
  "user_evolves u u" "credential_evolves c c" "enrolment_evolves n n"
  by (simp_all add: evolves_row_defs)

lemma user_evolves_trans: "user_evolves a b \<Longrightarrow> user_evolves b c \<Longrightarrow> user_evolves a c"
  by (auto simp: user_evolves_def)

lemma credential_evolves_trans:
  "credential_evolves a b \<Longrightarrow> credential_evolves b c \<Longrightarrow> credential_evolves a c"
  by (auto simp: credential_evolves_def)

lemma enrolment_evolves_trans:
  "enrolment_evolves a b \<Longrightarrow> enrolment_evolves b c \<Longrightarrow> enrolment_evolves a c"
  by (auto simp: enrolment_evolves_def)

lemma evolves_refl [simp]: "evolves d d"
  by (auto simp: evolves_def intro: rows_evolve_refl)

lemma evolves_trans:
  assumes "evolves a b" and "evolves b c" shows "evolves a c"
proof -
  have "rows_evolve user_evolves (iam_user a) (iam_user c)"
    by (rule rows_evolve_trans [where ys = "iam_user b", OF user_evolves_trans])
       (use assms in \<open>simp_all add: evolves_def\<close>)
  moreover have "rows_evolve credential_evolves (iam_credential a) (iam_credential c)"
    by (rule rows_evolve_trans [where ys = "iam_credential b", OF credential_evolves_trans])
       (use assms in \<open>simp_all add: evolves_def\<close>)
  moreover have "rows_evolve enrolment_evolves (iam_enrolment a) (iam_enrolment c)"
    by (rule rows_evolve_trans [where ys = "iam_enrolment b", OF enrolment_evolves_trans])
       (use assms in \<open>simp_all add: evolves_def\<close>)
  ultimately show ?thesis using assms by (auto simp: evolves_def)
qed

interpretation hist: guarantee step_ok store_ok
  by unfold_locales (auto simp: step_ok_def intro: evolves_trans)

section \<open>One table at a time\<close>

lemma user_keys_sel [simp]:
  "user_keys (d\<lparr>iam_password := a\<rparr>) = user_keys d"
  "user_keys (d\<lparr>iam_team := b\<rparr>) = user_keys d"
  "user_keys (d\<lparr>iam_team_member := c\<rparr>) = user_keys d"
  "user_keys (d\<lparr>iam_credential := f\<rparr>) = user_keys d"
  "user_keys (d\<lparr>iam_enrolment := g\<rparr>) = user_keys d"
  "user_keys (d\<lparr>iam_enrolment_redemption := h\<rparr>) = user_keys d"
  "user_keys (d\<lparr>iam_rate_limit_override := i\<rparr>) = user_keys d"
  "user_keys (d\<lparr>iam_org_setting := j\<rparr>) = user_keys d"
  "user_keys (d\<lparr>iam_team_setting_override := k\<rparr>) = user_keys d"
  "user_keys (d\<lparr>iam_inherited_setting_write := l\<rparr>) = user_keys d"
  "user_keys (d\<lparr>iam_key_identity := m\<rparr>) = user_keys d"
  "user_keys (d\<lparr>iam_team_member_pending := n\<rparr>) = user_keys d"
  by (simp_all add: user_keys_def)

lemma team_keys_sel [simp]:
  "team_keys (d\<lparr>iam_user := a\<rparr>) = team_keys d"
  "team_keys (d\<lparr>iam_password := a2\<rparr>) = team_keys d"
  "team_keys (d\<lparr>iam_team_member := c\<rparr>) = team_keys d"
  "team_keys (d\<lparr>iam_credential := f\<rparr>) = team_keys d"
  "team_keys (d\<lparr>iam_enrolment := g\<rparr>) = team_keys d"
  "team_keys (d\<lparr>iam_enrolment_redemption := h\<rparr>) = team_keys d"
  "team_keys (d\<lparr>iam_rate_limit_override := i\<rparr>) = team_keys d"
  "team_keys (d\<lparr>iam_org_setting := j\<rparr>) = team_keys d"
  "team_keys (d\<lparr>iam_team_setting_override := k\<rparr>) = team_keys d"
  "team_keys (d\<lparr>iam_inherited_setting_write := l\<rparr>) = team_keys d"
  "team_keys (d\<lparr>iam_key_identity := m\<rparr>) = team_keys d"
  "team_keys (d\<lparr>iam_team_member_pending := n\<rparr>) = team_keys d"
  by (simp_all add: team_keys_def)

lemma has_user_iff: "has_user d x \<longleftrightarrow> text_key x \<in> user_keys d"
  by (force simp: has_user_def user_keys_def list_ex_iff)

lemma has_team_iff: "has_team d x \<longleftrightarrow> text_key x \<in> team_keys d"
  by (force simp: has_team_def team_keys_def list_ex_iff)

lemma epoch_reached_evolves:
  assumes "epoch_reached us r" and "rows_evolve user_evolves us us'"
  shows "epoch_reached us' r"
proof -
  from assms(1) obtain u where u: "u \<in> set us" "sql_eq (u_id u) (rd_user_id r)" "rd_epoch r \<le> u_epoch u"
    by (auto simp: epoch_reached_def)
  with assms(2) obtain v where "v \<in> set us'" "user_evolves u v"
    unfolding rows_evolve_def by blast
  with u show ?thesis by (auto simp: epoch_reached_def user_evolves_def intro!: bexI [of _ v])
qed

lemma step_users:
  assumes "rows_evolve user_evolves (iam_user d) us" and "store_ok d \<Longrightarrow> users_ok us"
  shows "step_ok d (d\<lparr>iam_user := us\<rparr>)"
proof -
  let ?d = "d\<lparr>iam_user := us\<rparr>"
  have keys: "user_keys d \<subseteq> user_keys ?d"
  proof
    fix x assume "x \<in> user_keys d"
    then obtain u where u: "u \<in> set (iam_user d)" "x = text_key (u_id u)"
      by (auto simp: user_keys_def)
    with assms(1) obtain v where "v \<in> set us" "user_evolves u v"
      unfolding rows_evolve_def by blast
    then have "x = text_key (u_id v)" using u by (simp add: user_evolves_def)
    with \<open>v \<in> set us\<close> show "x \<in> user_keys ?d" by (simp add: user_keys_def)
  qed
  have "store_ok ?d" if w: "store_ok d"
  proof -
    have "passwords_ok (user_keys ?d) (iam_password d)"
        "members_ok (team_keys d) (user_keys ?d) (iam_team_member d)"
        "credentials_ok (user_keys ?d) (iam_credential d)"
        "enrolments_ok (user_keys ?d) (iam_enrolment d)"
        "rate_limits_ok (user_keys ?d) (iam_rate_limit_override d)"
      using w keys by (auto simp: store_ok_def table_ok_defs)
    moreover have "redemptions_ok us (iam_enrolment d) (iam_enrolment_redemption d)"
      using w epoch_reached_evolves [OF _ assms(1)] by (auto simp: store_ok_def redemptions_ok_def)
    ultimately show ?thesis using w assms(2) by (simp add: store_ok_def)
  qed
  moreover have "evolves d ?d"
    using assms(1) by (simp add: evolves_def rows_evolve_refl)
  ultimately show ?thesis by (simp add: step_ok_def)
qed

lemma step_credentials:
  assumes "rows_evolve credential_evolves (iam_credential d) cs"
    and "store_ok d \<Longrightarrow> credentials_ok (user_keys d) cs"
  shows "step_ok d (d\<lparr>iam_credential := cs\<rparr>)"
  using assms by (simp add: step_ok_def evolves_def rows_evolve_refl store_ok_def)

lemma spent_as_evolves: "spent_as r a \<Longrightarrow> enrolment_evolves a b \<Longrightarrow> spent_as r b"
  by (auto simp: spent_as_def enrolment_evolves_def)

lemma step_enrolments:
  assumes "rows_evolve enrolment_evolves (iam_enrolment d) es"
    and "store_ok d \<Longrightarrow> enrolments_ok (user_keys d) es"
  shows "step_ok d (d\<lparr>iam_enrolment := es\<rparr>)"
proof -
  have "redemptions_ok (iam_user d) es (iam_enrolment_redemption d)" if "store_ok d"
    using that assms(1) spent_as_evolves
    unfolding store_ok_def redemptions_ok_def rows_evolve_def by meson
  with assms show ?thesis by (simp add: step_ok_def evolves_def rows_evolve_refl store_ok_def)
qed

lemma step_teams:
  assumes "team_keys d \<subseteq> (\<lambda>t. text_key (t_id t)) ` set ts" and "store_ok d \<Longrightarrow> teams_ok ts"
  shows "step_ok d (d\<lparr>iam_team := ts\<rparr>)"
proof -
  let ?d = "d\<lparr>iam_team := ts\<rparr>"
  have keys: "team_keys d \<subseteq> team_keys ?d" using assms(1) by (simp add: team_keys_def)
  have "store_ok ?d" if w: "store_ok d"
  proof -
    have "members_ok (team_keys ?d) (user_keys d) (iam_team_member d)"
        "settings_ok (team_keys ?d) (iam_org_setting d) (iam_team_setting_override d)"
        "pending_ok (team_keys ?d) (iam_team_member_pending d)"
      using w keys by (auto simp: store_ok_def table_ok_defs)
    with w assms(2) show ?thesis by (simp add: store_ok_def)
  qed
  with keys show ?thesis by (simp add: step_ok_def evolves_def rows_evolve_refl)
qed

lemma step_passwords:
  "(store_ok d \<Longrightarrow> passwords_ok (user_keys d) ps) \<Longrightarrow> step_ok d (d\<lparr>iam_password := ps\<rparr>)"
  by (simp add: step_ok_def evolves_def rows_evolve_refl store_ok_def)

lemma step_members:
  "(store_ok d \<Longrightarrow> members_ok (team_keys d) (user_keys d) ms) \<Longrightarrow> step_ok d (d\<lparr>iam_team_member := ms\<rparr>)"
  by (simp add: step_ok_def evolves_def rows_evolve_refl store_ok_def)

lemma step_redemptions:
  assumes "set (iam_enrolment_redemption d) \<subseteq> set rs"
    and "store_ok d \<Longrightarrow> redemptions_ok (iam_user d) (iam_enrolment d) rs"
  shows "step_ok d (d\<lparr>iam_enrolment_redemption := rs\<rparr>)"
  using assms by (simp add: step_ok_def evolves_def rows_evolve_refl store_ok_def)

lemma step_rate_limits:
  "(store_ok d \<Longrightarrow> rate_limits_ok (user_keys d) ls) \<Longrightarrow> step_ok d (d\<lparr>iam_rate_limit_override := ls\<rparr>)"
  by (simp add: step_ok_def evolves_def rows_evolve_refl store_ok_def)

lemma step_org_settings:
  "(store_ok d \<Longrightarrow> settings_ok (team_keys d) os (iam_team_setting_override d)) \<Longrightarrow>
   step_ok d (d\<lparr>iam_org_setting := os\<rparr>)"
  by (simp add: step_ok_def evolves_def rows_evolve_refl store_ok_def)

lemma step_team_overrides:
  "(store_ok d \<Longrightarrow> settings_ok (team_keys d) (iam_org_setting d) ts) \<Longrightarrow>
   step_ok d (d\<lparr>iam_team_setting_override := ts\<rparr>)"
  by (simp add: step_ok_def evolves_def rows_evolve_refl store_ok_def)

lemma step_setting_writes:
  assumes "set (iam_inherited_setting_write d) \<subseteq> set ws" and "store_ok d \<Longrightarrow> setting_writes_ok ws"
  shows "step_ok d (d\<lparr>iam_inherited_setting_write := ws\<rparr>)"
  using assms by (simp add: step_ok_def evolves_def rows_evolve_refl store_ok_def)

lemma step_marker:
  assumes "iam_key_identity d = None" and "marker_ok (Some k)"
  shows "step_ok d (d\<lparr>iam_key_identity := Some k\<rparr>)"
  using assms by (simp add: step_ok_def evolves_def rows_evolve_refl store_ok_def)

lemma step_pending:
  "(store_ok d \<Longrightarrow> pending_ok (team_keys d) ps) \<Longrightarrow> step_ok d (d\<lparr>iam_team_member_pending := ps\<rparr>)"
  by (simp add: step_ok_def evolves_def rows_evolve_refl store_ok_def)

section \<open>The constrained writes\<close>

lemma step_ins_user:
  assumes "ins_user u d = Inr d'" and "u_epoch u < 2 ^ 64"
  shows "step_ok d d'"
proof -
  from assms(1) have d': "d' = d\<lparr>iam_user := iam_user d @ [u]\<rparr>"
    and new: "text_key (u_id u) \<notin> user_keys d" "u_blind_index u \<notin> u_blind_index ` set (iam_user d)"
    by (auto simp: ins_user_def has_user_iff list_ex_iff split: if_splits)
  have "users_ok (iam_user d @ [u])" if "store_ok d"
    using that new assms(2) by (simp add: store_ok_def users_ok_def user_keys_def)
  then show ?thesis unfolding d' by (intro step_users rows_evolve_append) simp_all
qed

lemma step_ins_team:
  assumes "ins_team t d = Inr d'" shows "step_ok d d'"
proof -
  from assms have d': "d' = d\<lparr>iam_team := iam_team d @ [t]\<rparr>"
    and new: "text_key (t_id t) \<notin> team_keys d" "\<forall>v \<in> set (iam_team d). \<not> sql_eq (t_name v) (t_name t)"
    by (auto simp: ins_team_def has_team_iff list_ex_iff split: if_splits)
  have "teams_ok (iam_team d @ [t])" if "store_ok d"
    using that new by (auto simp: store_ok_def teams_ok_def team_keys_def image_iff)
  then show ?thesis unfolding d' by (intro step_teams) (auto simp: team_keys_def)
qed

lemma step_ins_member:
  assumes "ins_member m d = Inr d'" shows "step_ok d d'"
proof -
  from assms have d': "d' = d\<lparr>iam_team_member := iam_team_member d @ [m]\<rparr>"
    and new: "\<forall>v \<in> set (iam_team_member d).
        \<not> (sql_eq (m_team_id v) (m_team_id m) \<and> sql_eq (m_user_id v) (m_user_id m))"
      "text_key (m_team_id m) \<in> team_keys d" "text_key (m_user_id m) \<in> user_keys d"
    by (auto simp: ins_member_def has_team_iff has_user_iff list_ex_iff split: if_splits)
  have "members_ok (team_keys d) (user_keys d) (iam_team_member d @ [m])" if "store_ok d"
    using that new by (auto simp: store_ok_def members_ok_def)
  then show ?thesis unfolding d' by (rule step_members)
qed

lemma step_ins_credential:
  assumes "ins_credential c d = Inr d'" shows "step_ok d d'"
proof -
  from assms have d': "d' = d\<lparr>iam_credential := iam_credential d @ [c]\<rparr>"
    and new: "\<forall>v \<in> set (iam_credential d). \<not> sql_eq (c_id v) (c_id c)"
      "\<forall>v \<in> set (iam_credential d). c_token_hash v \<noteq> c_token_hash c"
      "text_key (c_user_id c) \<in> user_keys d"
    by (auto simp: ins_credential_def has_user_iff list_ex_iff split: if_splits)
  have "credentials_ok (user_keys d) (iam_credential d @ [c])" if "store_ok d"
    using that new by (auto simp: store_ok_def credentials_ok_def)
  then show ?thesis unfolding d' by (intro step_credentials rows_evolve_append) simp_all
qed

lemma step_ins_enrolment:
  assumes "ins_enrolment n d = Inr d'" and "e_spent_at n = None"
  shows "step_ok d d'"
proof -
  from assms(1) have d': "d' = d\<lparr>iam_enrolment := iam_enrolment d @ [n]\<rparr>"
    and new: "\<forall>v \<in> set (iam_enrolment d). \<not> sql_eq (e_id v) (e_id n)"
      "\<forall>v \<in> set (iam_enrolment d). e_secret_hash v \<noteq> e_secret_hash n"
      "text_key (e_user_id n) \<in> user_keys d"
    by (auto simp: ins_enrolment_def has_enrolment_def has_user_iff list_ex_iff split: if_splits)
  have "enrolments_ok (user_keys d) (iam_enrolment d @ [n])" if "store_ok d"
    using that new assms(2) by (auto simp: store_ok_def enrolments_ok_def)
  then show ?thesis unfolding d' by (intro step_enrolments rows_evolve_append) simp_all
qed

lemma step_ins_redemption:
  assumes "ins_redemption r d = Inr d'" and "\<exists>n \<in> set (iam_enrolment d). spent_as r n"
    and "epoch_reached (iam_user d) r"
  shows "step_ok d d'"
proof -
  from assms(1) have d': "d' = d\<lparr>iam_enrolment_redemption := iam_enrolment_redemption d @ [r]\<rparr>"
    and new: "\<forall>v \<in> set (iam_enrolment_redemption d). \<not> sql_eq (rd_key v) (rd_key r)"
    by (auto simp: ins_redemption_def list_ex_iff split: if_splits)
  have "redemptions_ok (iam_user d) (iam_enrolment d) (iam_enrolment_redemption d @ [r])" if "store_ok d"
    using that new assms(2,3) by (auto simp: store_ok_def redemptions_ok_def)
  then show ?thesis unfolding d' by (intro step_redemptions) auto
qed

lemma step_ins_setting_write:
  assumes "ins_setting_write r d = Inr d'" and "sw_key r \<noteq> []"
  shows "step_ok d d'"
proof -
  from assms(1) have d': "d' = d\<lparr>iam_inherited_setting_write := iam_inherited_setting_write d @ [r]\<rparr>"
    and new: "\<forall>v \<in> set (iam_inherited_setting_write d). \<not> sql_eq (sw_key v) (sw_key r)"
    by (auto simp: ins_setting_write_def list_ex_iff split: if_splits)
  have "setting_writes_ok (iam_inherited_setting_write d @ [r])" if "store_ok d"
    using that new assms(2) by (auto simp: store_ok_def setting_writes_ok_def)
  then show ?thesis unfolding d' by (intro step_setting_writes) auto
qed

lemma step_ins_marker:
  "ins_marker k d = Inr d' \<Longrightarrow> marker_ok (Some k) \<Longrightarrow> step_ok d d'"
  by (auto simp: ins_marker_def intro: step_marker split: option.splits)

lemma step_ins_pending:
  assumes "ins_pending p d = Inr d'" and "pd_team_id p = ''yadgar:team:administrators''"
  shows "step_ok d d'"
proof -
  from assms(1) have d': "d' = d\<lparr>iam_team_member_pending := iam_team_member_pending d @ [p]\<rparr>"
    and new: "\<forall>v \<in> set (iam_team_member_pending d).
        \<not> (sql_eq (pd_team_id v) (pd_team_id p) \<and> sql_eq (pd_user_id v) (pd_user_id p))"
      "text_key (pd_team_id p) \<in> team_keys d"
    by (auto simp: ins_pending_def has_team_iff list_ex_iff split: if_splits)
  have "pending_ok (team_keys d) (iam_team_member_pending d @ [p])" if "store_ok d"
    using that new assms(2) by (auto simp: store_ok_def pending_ok_def)
  then show ?thesis unfolding d' by (rule step_pending)
qed

lemma step_ups_password:
  assumes "ups_password x h d = Inr (n, d')" and "length h \<le> 255"
  shows "step_ok d d'"
proof -
  let ?u = "upsert (\<lambda>p. sql_eq (p_user_id p) x) \<lparr>p_user_id = x, p_hash = h\<rparr>
              (\<lambda>p. p\<lparr>p_hash := h\<rparr>) (iam_password d)"
  from assms(1) have d': "d' = d\<lparr>iam_password := snd ?u\<rparr>" and x: "text_key x \<in> user_keys d"
    by (auto simp: ups_password_def has_user_iff split: if_splits prod.splits)
  have "passwords_ok (user_keys d) (snd ?u)" if "store_ok d"
    using that x assms(2)
    by (auto simp: store_ok_def passwords_ok_def set_upsert set_upd intro!: distinct_map_upsert)
  then show ?thesis unfolding d' by (rule step_passwords)
qed

lemma step_ups_rate_limit:
  assumes "ups_rate_limit l d = Inr (n, d')" and "rl_kind l \<in> {1, 2, 3}"
  shows "step_ok d d'"
proof -
  let ?u = "upsert (\<lambda>v. sql_eq (rl_user_id v) (rl_user_id l) \<and> sql_eq (rl_module v) (rl_module l)
                      \<and> rl_kind v = rl_kind l) l
                 (\<lambda>v. v\<lparr>rl_rate := rl_rate l, rl_burst := rl_burst l\<rparr>) (iam_rate_limit_override d)"
  from assms(1) have d': "d' = d\<lparr>iam_rate_limit_override := snd ?u\<rparr>"
      and x: "text_key (rl_user_id l) \<in> user_keys d"
    by (auto simp: ups_rate_limit_def has_user_iff split: if_splits prod.splits)
  have "rate_limits_ok (user_keys d) (snd ?u)" if "store_ok d"
    using that x assms(2)
    by (auto simp: store_ok_def rate_limits_ok_def set_upsert set_upd intro!: distinct_map_upsert)
  then show ?thesis unfolding d' by (rule step_rate_limits)
qed

lemma step_ups_org_setting:
  assumes "ups_org_setting s d = Inr (n, d')" shows "step_ok d d'"
proof -
  let ?u = "upsert (\<lambda>v. sql_eq (os_name v) (os_name s)) s
                 (\<lambda>v. v\<lparr>os_value := os_value s, os_locked := os_locked s\<rparr>) (iam_org_setting d)"
  from assms have d': "d' = d\<lparr>iam_org_setting := snd ?u\<rparr>" and v: "os_value s \<in> {1, 2}"
    by (auto simp: ups_org_setting_def split: if_splits prod.splits)
  have "settings_ok (team_keys d) (snd ?u) (iam_team_setting_override d)" if "store_ok d"
    using that v by (auto simp: store_ok_def settings_ok_def set_upsert set_upd intro!: distinct_map_upsert)
  then show ?thesis unfolding d' by (rule step_org_settings)
qed

lemma step_ups_team_override:
  assumes "ups_team_override s d = Inr (n, d')" shows "step_ok d d'"
proof -
  let ?u = "upsert (\<lambda>v. sql_eq (to_name v) (to_name s) \<and> sql_eq (to_team_id v) (to_team_id s)) s
                 (\<lambda>v. v\<lparr>to_value := to_value s\<rparr>) (iam_team_setting_override d)"
  from assms have d': "d' = d\<lparr>iam_team_setting_override := snd ?u\<rparr>" and v: "to_value s \<in> {1, 2}"
      "text_key (to_team_id s) \<in> team_keys d"
    by (auto simp: ups_team_override_def has_team_iff split: if_splits prod.splits)
  have "settings_ok (team_keys d) (iam_org_setting d) (snd ?u)" if "store_ok d"
    using that v by (auto simp: store_ok_def settings_ok_def set_upsert set_upd intro!: distinct_map_upsert)
  then show ?thesis unfolding d' by (rule step_team_overrides)
qed

section \<open>Updates of one column\<close>

interpretation revoked: tombstone "\<lambda>c. text_key (c_id c)" "\<lambda>t c. c\<lparr>c_revoked_at := Some t\<rparr>" c_revoked_at
  by unfold_locales simp_all

interpretation spent: tombstone "\<lambda>n. text_key (e_id n)" "\<lambda>t n. n\<lparr>e_spent_at := Some t\<rparr>" e_spent_at
  by unfold_locales simp_all

interpretation voided: tombstone "\<lambda>n. text_key (e_id n)" "\<lambda>t n. n\<lparr>e_voided_at := Some t\<rparr>" e_voided_at
  by unfold_locales simp_all

interpretation admin_flag: keyed_rows "\<lambda>u. text_key (u_id u)" "\<lambda>b u. u\<lparr>u_is_admin := b\<rparr>"
  by unfold_locales simp_all

interpretation epochs: keyed_rows "\<lambda>u. text_key (u_id u)" "\<lambda>n u. u\<lparr>u_epoch := n\<rparr>"
  by unfold_locales simp_all

lemma step_revoke:
  "step_ok d (d\<lparr>iam_credential :=
     upd (\<lambda>c. P c \<and> c_revoked_at c = None) (\<lambda>c. c\<lparr>c_revoked_at := Some t\<rparr>) (iam_credential d)\<rparr>)"
proof (rule step_credentials)
  show "rows_evolve credential_evolves (iam_credential d)
    (upd (\<lambda>c. P c \<and> c_revoked_at c = None) (\<lambda>c. c\<lparr>c_revoked_at := Some t\<rparr>) (iam_credential d))"
    by (rule rows_evolve_upd) (auto simp: credential_evolves_def)
  assume "store_ok d"
  then show "credentials_ok (user_keys d)
    (upd (\<lambda>c. P c \<and> c_revoked_at c = None) (\<lambda>c. c\<lparr>c_revoked_at := Some t\<rparr>) (iam_credential d))"
    by (auto simp: store_ok_def credentials_ok_def map_upd set_upd)
qed

lemma step_spend:
  "step_ok d (d\<lparr>iam_enrolment :=
     upd (\<lambda>n. P n \<and> e_spent_at n = None \<and> e_voided_at n = None)
         (\<lambda>n. n\<lparr>e_spent_at := Some t\<rparr>) (iam_enrolment d)\<rparr>)"
proof (rule step_enrolments)
  show "rows_evolve enrolment_evolves (iam_enrolment d)
    (upd (\<lambda>n. P n \<and> e_spent_at n = None \<and> e_voided_at n = None)
         (\<lambda>n. n\<lparr>e_spent_at := Some t\<rparr>) (iam_enrolment d))"
    by (rule rows_evolve_upd) (auto simp: enrolment_evolves_def)
  assume "store_ok d"
  then show "enrolments_ok (user_keys d)
    (upd (\<lambda>n. P n \<and> e_spent_at n = None \<and> e_voided_at n = None)
         (\<lambda>n. n\<lparr>e_spent_at := Some t\<rparr>) (iam_enrolment d))"
    by (auto simp: store_ok_def enrolments_ok_def map_upd set_upd)
qed

lemma step_void:
  "step_ok d (d\<lparr>iam_enrolment :=
     upd (\<lambda>n. P n \<and> e_spent_at n = None \<and> e_voided_at n = None)
         (\<lambda>n. n\<lparr>e_voided_at := Some t\<rparr>) (iam_enrolment d)\<rparr>)"
proof (rule step_enrolments)
  show "rows_evolve enrolment_evolves (iam_enrolment d)
    (upd (\<lambda>n. P n \<and> e_spent_at n = None \<and> e_voided_at n = None)
         (\<lambda>n. n\<lparr>e_voided_at := Some t\<rparr>) (iam_enrolment d))"
    by (rule rows_evolve_upd) (auto simp: enrolment_evolves_def)
  assume "store_ok d"
  then show "enrolments_ok (user_keys d)
    (upd (\<lambda>n. P n \<and> e_spent_at n = None \<and> e_voided_at n = None)
         (\<lambda>n. n\<lparr>e_voided_at := Some t\<rparr>) (iam_enrolment d))"
    by (auto simp: store_ok_def enrolments_ok_def map_upd set_upd)
qed

lemma step_set_admin:
  "step_ok d (d\<lparr>iam_user := upd P (\<lambda>u. u\<lparr>u_is_admin := b\<rparr>) (iam_user d)\<rparr>)"
proof (rule step_users)
  show "rows_evolve user_evolves (iam_user d) (upd P (\<lambda>u. u\<lparr>u_is_admin := b\<rparr>) (iam_user d))"
    by (rule rows_evolve_upd) (auto simp: user_evolves_def)
  assume "store_ok d"
  then show "users_ok (upd P (\<lambda>u. u\<lparr>u_is_admin := b\<rparr>) (iam_user d))"
    by (auto simp: store_ok_def users_ok_def map_upd set_upd)
qed

lemma step_bump:
  assumes "\<And>u. u \<in> set (iam_user d) \<Longrightarrow> P u \<Longrightarrow> u_epoch u + 1 < 2 ^ 64"
  shows "step_ok d (d\<lparr>iam_user := upd P (\<lambda>u. u\<lparr>u_epoch := u_epoch u + 1\<rparr>) (iam_user d)\<rparr>)"
proof (rule step_users)
  show "rows_evolve user_evolves (iam_user d) (upd P (\<lambda>u. u\<lparr>u_epoch := u_epoch u + 1\<rparr>) (iam_user d))"
    by (rule rows_evolve_upd) (auto simp: user_evolves_def)
  assume "store_ok d"
  then show "users_ok (upd P (\<lambda>u. u\<lparr>u_epoch := u_epoch u + 1\<rparr>) (iam_user d))"
    using assms by (auto simp: store_ok_def users_ok_def map_upd set_upd)
qed

section \<open>The first state\<close>

lemma store_ok_initial_db: "store_ok initial_db"
  by (simp add: store_ok_def initial_db_def table_ok_defs)

end
