(* ===== verification/Service.thy ===== *)
theory Service
  imports History
begin

text \<open>
  What the handlers share (\<open>src/src/service.rs\<close>, \<open>service/caller.rs\<close>, \<open>service/seam.rs\<close>): the
  request id and the actor line, the liveness re-reads, the password column's width, and the gate
  every verb passes through before it touches the store.
\<close>

section \<open>Constants\<close>

definition DEFAULT_PAGE_SIZE :: int where "DEFAULT_PAGE_SIZE = 50"
definition MAX_PAGE_SIZE :: int where "MAX_PAGE_SIZE = 200"
definition MAX_ARGON2ID_HASH :: nat where "MAX_ARGON2ID_HASH = 255"
definition OWNER_READS_OWN_RECORD :: string where
  "OWNER_READS_OWN_RECORD = ''owner_reads_own_record''"
definition IAM_CALLER :: string where "IAM_CALLER = ''iam-caller''"
definition CALLER_REFUSED :: string where "CALLER_REFUSED = ''yadgar_iamdb_caller_refused_total''"
definition NO_CALLER :: string where "NO_CALLER = ''none''"

definition ADMINISTRATORS :: string where "ADMINISTRATORS = ''yadgar:team:administrators''"
definition TEAM_PREFIX :: string where "TEAM_PREFIX = ''yadgar:team:''"
definition USER_PREFIX :: string where "USER_PREFIX = ''yadgar:user:''"

section \<open>The actor line\<close>

text \<open>\<open>x-yadgar-request-id\<close>, capped once; empty when the caller sent none.\<close>

definition request_id_of :: "string option \<Rightarrow> env \<Rightarrow> string" where
  "request_id_of header e = (case header of None \<Rightarrow> [] | Some v \<Rightarrow> capped e v)"

definition replace_char :: "char \<Rightarrow> string \<Rightarrow> string \<Rightarrow> string" where
  "replace_char c by s = concat (map (\<lambda>x. if x = c then by else [x]) s)"

text \<open>A percent sign first, a slash second.\<close>

definition escape :: "string \<Rightarrow> string" where
  "escape s = replace_char (CHR ''/'') ''%2F'' (replace_char (CHR ''%'') ''%25'' s)"

definition seg :: "env \<Rightarrow> string \<Rightarrow> string" where
  "seg e s = escape (capped e s)"

text \<open>An absent actor and an empty one are one case, and are not attributed.\<close>

definition actor_name :: "env \<Rightarrow> string option \<Rightarrow> string" where
  "actor_name e a = (case a of
       None \<Rightarrow> ''<unattributed>''
     | Some x \<Rightarrow> if x = [] then ''<unattributed>'' else capped e x)"

definition record_actor :: "string \<Rightarrow> string option \<Rightarrow> string \<Rightarrow> string \<Rightarrow> unit act" where
  "record_actor rid a rpc target = ask (\<lambda>e. emit (Actor rid (actor_name e a) rpc target))"

section \<open>Liveness and width\<close>

type_synonym 'a reader = "(time \<Rightarrow> db \<Rightarrow> 'a) \<Rightarrow> 'a act"

text \<open>The reader is the executor the re-read runs on: a connection, or a transaction's snapshot.\<close>

definition live_user :: "user_row option reader \<Rightarrow> string \<Rightarrow> unit act" where
  "live_user rd x = and_then (rd (\<lambda>t d. find_live_user d x)) (\<lambda>found.
     case found of Some _ \<Rightarrow> ok () | None \<Rightarrow> fail (Status NOT_FOUND ''no such live user''))"

definition live_team :: "team_row option reader \<Rightarrow> string \<Rightarrow> unit act" where
  "live_team rd x = and_then (rd (\<lambda>t d. find_live_team d x)) (\<lambda>found.
     case found of Some _ \<Rightarrow> ok () | None \<Rightarrow> fail (Status NOT_FOUND ''no such live team''))"

definition fits_password_column :: "string \<Rightarrow> unit act" where
  "fits_password_column h =
     (if MAX_ARGON2ID_HASH < length h
      then fail (Status INVALID_ARGUMENT ''the argon2id hash is longer than the column can hold'')
      else ok ())"

section \<open>The gate\<close>

text \<open>\<open>{:?}\<close> of a text: the quote, the backslash and the control characters are escaped. Which characters beyond
  ASCII count as printable is the standard library's table; they stand as they are here.\<close>

definition hex_digit :: "nat \<Rightarrow> char" where
  "hex_digit n = char_of (if n < 10 then 48 + n else 87 + n)"

definition debug_char :: "char \<Rightarrow> string" where
  "debug_char c = (let n = of_char c :: nat in
     if c = CHR 0x22 \<or> c = CHR 0x5C then [CHR 0x5C, c]
     else if n = 0 then [CHR 0x5C, CHR ''0''] else if n = 9 then [CHR 0x5C, CHR ''t'']
     else if n = 10 then [CHR 0x5C, CHR ''n''] else if n = 13 then [CHR 0x5C, CHR ''r'']
     else if n < 32 \<or> n = 127
       then [CHR 0x5C] @ ''u{'' @ (if n < 16 then [hex_digit n] else [hex_digit (n div 16), hex_digit (n mod 16)]) @ ''}''
     else [c])"

definition debug_str :: "string \<Rightarrow> string" where
  "debug_str s = [CHR 0x22] @ concat (map debug_char s) @ [CHR 0x22]"

definition gate_message :: "string option \<Rightarrow> string" where
  "gate_message caller =
     ''iam-db admits only iam (ADR-0972): the client certificate must name '' @ debug_str IAM_CALLER @
     '', and this call '' @
     (case caller of None \<Rightarrow> ''carries no client-certificate name''
                   | Some c \<Rightarrow> ''names '' @ debug_str c) @
     ''. Every module's leaf verifies against the same authority, so verification alone admits nobody here''"

definition admitted :: "string option \<Rightarrow> unit act" where
  "admitted caller =
     (if caller = Some IAM_CALLER then ok ()
      else and_then (emit (Counter CALLER_REFUSED (case caller of None \<Rightarrow> NO_CALLER | Some c \<Rightarrow> c)))
        (\<lambda>_. refuse_call (Status PERMISSION_DENIED (gate_message caller)) PERMISSION_DENIED))"

text \<open>
  The shape of every \<open>_as\<close> twin: the call record first, then the gate, then the operation.
\<close>

definition twin ::
  "string \<Rightarrow> kind \<Rightarrow> string \<Rightarrow> string option \<Rightarrow> string option \<Rightarrow> (string \<Rightarrow> 'a act) \<Rightarrow> 'a act" where
  "twin rpc k user caller header op = ask (\<lambda>e.
     let rid = request_id_of header e in
     and_then (emit (Started rpc k rid user)) (\<lambda>_.
     and_then (admitted caller) (\<lambda>_. op rid)))"

section \<open>Lemmas\<close>

text \<open>The escaping can be undone, so a target names one object.\<close>

fun unescape :: "string \<Rightarrow> string" where
  "unescape (a # b # c # s) =
     (if a = CHR ''%'' \<and> b = CHR ''2'' \<and> c = CHR ''5'' then CHR ''%'' # unescape s
      else if a = CHR ''%'' \<and> b = CHR ''2'' \<and> c = CHR ''F'' then CHR ''/'' # unescape s
      else a # unescape (b # c # s))"
| "unescape s = s"

definition esc1 :: "char \<Rightarrow> string" where
  "esc1 c = (if c = CHR ''%'' then ''%25'' else if c = CHR ''/'' then ''%2F'' else [c])"

lemma escape_concat: "escape s = concat (map esc1 s)"
  by (induction s) (simp_all add: escape_def replace_char_def esc1_def)

lemma unescape_Cons:
  "a \<noteq> CHR ''%'' \<Longrightarrow> unescape (a # s) = a # unescape s"
  by (cases s; cases "tl s") auto

lemma unescape_escape: "unescape (escape s) = s"
proof (induction s)
  case Nil
  then show ?case by (simp add: escape_concat)
next
  case (Cons c s)
  then show ?case by (simp add: escape_concat esc1_def unescape_Cons)
qed

lemma escape_no_slash: "CHR ''/'' \<notin> set (escape s)"
  by (induction s) (auto simp: escape_concat esc1_def)

lemma split_at_slash:
  assumes "a @ CHR ''/'' # b = c @ CHR ''/'' # d" "CHR ''/'' \<notin> set a" "CHR ''/'' \<notin> set c"
  shows "a = c \<and> b = d"
  using assms by (induction a arbitrary: c) (auto simp: Cons_eq_append_conv append_eq_Cons_conv)

lemma actor_line_only:
  "record_actor rid a rpc target e w =
     (Inr (), w\<lparr>events := events w @ [Actor rid (actor_name e a) rpc target]\<rparr>)"
  by (simp add: record_actor_def ask_def emit_def)

lemma keeps_record_actor [keeps_intros]: "hist.keeps P (record_actor rid a rpc target) (\<lambda>_. P)"
  by (simp add: hist.keeps_def actor_line_only hist.within_def)

lemma keeps_fits [keeps_intros]:
  "hist.keeps P (fits_password_column h) (\<lambda>_ d. P d \<and> length h \<le> 255)"
  by (auto simp: fits_password_column_def MAX_ARGON2ID_HASH_def intro: hist.keeps_ok hist.keeps_fail)

lemma keeps_live_user:
  assumes "hist.stable P"
  shows "hist.keeps P (live_user select x) (\<lambda>_. P)"
  unfolding live_user_def
  by (rule hist.keeps_and_then [where Q = "\<lambda>_. P"], rule hist.keeps_select [OF assms])
     (auto intro!: hist.keeps_ok hist.keeps_fail split: option.split)

lemma keeps_live_user_snap:
  assumes "hist.stable P"
  shows "hist.keeps P (live_user select_snap x) (\<lambda>_. P)"
  unfolding live_user_def
  by (rule hist.keeps_and_then [where Q = "\<lambda>_. P"], rule hist.keeps_select_snap [OF assms])
     (auto intro!: hist.keeps_ok hist.keeps_fail split: option.split)

lemma keeps_live_team:
  assumes "hist.stable P"
  shows "hist.keeps P (live_team select x) (\<lambda>_. P)"
  unfolding live_team_def
  by (rule hist.keeps_and_then [where Q = "\<lambda>_. P"], rule hist.keeps_select [OF assms])
     (auto intro!: hist.keeps_ok hist.keeps_fail split: option.split)

lemma keeps_admitted [keeps_intros]: "hist.keeps P (admitted caller) (\<lambda>_. P)"
  unfolding admitted_def
  by (auto intro!: hist.keeps_ok hist.keeps_and_then [where Q = "\<lambda>_. P"] hist.keeps_emit hist.keeps_refuse)

lemma shut_record_actor [keeps_intros]: "shut (record_actor rid a rpc target)"
  by (auto simp: shut_def actor_line_only)

text \<open>The rules where no fact is carried from one step to the next; most handlers need no other.\<close>

lemmas keeps_seq [keeps_any] = hist.keeps_and_then [where Q = "\<lambda>_ _. True"]
lemmas keeps_done [keeps_any] =
  hist.keeps_ok [where P = "\<lambda>_. True" and Q = "\<lambda>_ _. True", OF TrueI]
lemmas keeps_select_any [keeps_any] =
  hist.keeps_select [where P = "\<lambda>_. True" and Q = "\<lambda>_ _. True", OF hist.stable_True TrueI]
lemmas keeps_select_lock_any [keeps_any] =
  hist.keeps_select_lock [where P = "\<lambda>_. True" and Q = "\<lambda>_ _. True", OF hist.stable_True TrueI]
lemmas keeps_fetch_one_any [keeps_any] =
  hist.keeps_fetch_one [where P = "\<lambda>_. True" and Q = "\<lambda>_ _. True", OF hist.stable_True TrueI]
lemmas keeps_snap_any [keeps_any] = hist.keeps_select_snap [where P = "\<lambda>_. True", OF hist.stable_True]
lemmas keeps_emit_any [keeps_any] = hist.keeps_emit [where P = "\<lambda>_. True"]
lemmas keeps_acquire_any [keeps_any] = hist.keeps_acquire [where P = "\<lambda>_. True"]
lemmas keeps_actor_any [keeps_any] = keeps_record_actor [where P = "\<lambda>_. True"]
lemmas keeps_live_user_any [keeps_any] = keeps_live_user [where P = "\<lambda>_. True", OF hist.stable_True]
lemmas keeps_live_user_snap_any [keeps_any] =
  keeps_live_user_snap [where P = "\<lambda>_. True", OF hist.stable_True]
lemmas keeps_live_team_any [keeps_any] = keeps_live_team [where P = "\<lambda>_. True", OF hist.stable_True]
lemmas keeps_rest [keeps_any] = hist.keeps_ask hist.keeps_failing_call hist.keeps_fail hist.keeps_refuse hist.keeps_begin_tx hist.keeps_commit
  hist.keeps_drop_tx

lemma keeps_stmt_any:
  assumes "\<And>t d x d'. store_ok d \<Longrightarrow> s t d = Inr (x, d') \<Longrightarrow> step_ok d d'"
  shows "hist.keeps (\<lambda>_. True) (stmt s) (\<lambda>_ _. True)"
  by (rule hist.keeps_stmt [OF hist.stable_True]) (use assms in auto)

lemma keeps_stmt_map_any:
  assumes "\<And>t d x d'. store_ok d \<Longrightarrow> s t d = Inr (x, d') \<Longrightarrow> step_ok d d'"
  shows "hist.keeps (\<lambda>_. True) (stmt_map h s) (\<lambda>_ _. True)"
  by (rule hist.keeps_stmt_map [OF hist.stable_True]) (use assms in auto)

lemma keeps_stmt_try_any:
  assumes "\<And>t d x d'. store_ok d \<Longrightarrow> s t d = Inr (x, d') \<Longrightarrow> step_ok d d'"
  shows "hist.keeps (\<lambda>_. True) (stmt_try s) (\<lambda>_ _. True)"
  by (rule hist.keeps_stmt_try [OF hist.stable_True]) (use assms in auto)

lemma keeps_fits_any [keeps_any]: "hist.keeps (\<lambda>_. True) (fits_password_column h) (\<lambda>_ _. True)"
  by (rule hist.keeps_weaken [OF keeps_fits [where P = "\<lambda>_. True"]]) simp_all

lemma keeps_twin:
  assumes "\<And>rid. hist.keeps (\<lambda>_. True) (op rid) Q"
  shows "hist.keeps (\<lambda>_. True) (twin rpc k user caller header op) Q"
  unfolding twin_def Let_def
  by (rule hist.keeps_ask, rule hist.keeps_and_then [where Q = "\<lambda>_ _. True"], rule hist.keeps_emit,
      rule hist.keeps_and_then [where Q = "\<lambda>_ _. True"], rule keeps_admitted, rule assms)

lemma twin_refuses:
  assumes "caller \<noteq> Some IAM_CALLER"
  shows "run (twin rpc k user caller header op) e d =
     (Inl (Status PERMISSION_DENIED (gate_message caller)), d,
      [Started rpc k (request_id_of header e) user,
       Counter CALLER_REFUSED (case caller of None \<Rightarrow> NO_CALLER | Some c \<Rightarrow> c),
       Failed PERMISSION_DENIED])"
  using assms
  by (simp add: run_def twin_def ask_def Let_def admitted_def and_then_def emit_def refuse_call_def fail_def)

end
