(* ===== verification/Epoch.thy ===== *)
theory Epoch
  imports Service
begin

text \<open>
  The per-user credential epoch (\<open>src/src/service/epoch.rs\<close>) and the two statements that end what
  a person holds (\<open>src/src/service/enrolment/revoke.rs\<close>): the revocation of every credential and
  the void of every live enrolment. They are shared by a redemption, \<open>RevokeAllCredentials\<close> and
  \<open>SetPassword\<close>.
\<close>

section \<open>Definitions\<close>

text \<open>\<open>UPDATE iam_user SET credential_epoch = credential_epoch + 1 WHERE ...\<close>\<close>

definition bump_stm :: "(user_row \<Rightarrow> bool) \<Rightarrow> nat stm" where
  "bump_stm P t d =
     (if list_all (\<lambda>u. P u \<longrightarrow> incr64 (u_epoch u) \<noteq> None) (iam_user d)
      then Inr (cnt P (iam_user d),
                d\<lparr>iam_user := upd P (\<lambda>u. u\<lparr>u_epoch := u_epoch u + 1\<rparr>) (iam_user d)\<rparr>)
      else Inl EngineError)"

definition bump :: "string \<Rightarrow> nat act" where
  "bump x = stmt_lock [Exclusive (UserRow (text_key x))] (bump_stm (\<lambda>u. sql_eq (u_id u) x))"

definition bump_live :: "string \<Rightarrow> nat act" where
  "bump_live x = stmt_lock [Exclusive (UserRow (text_key x))] (bump_stm (live_row x))"

definition current :: "string \<Rightarrow> nat act" where
  "current x = fetch_one (\<lambda>d. map_option u_epoch (find_user d x))"

definition revoke_stm :: "string \<Rightarrow> nat stm" where
  "revoke_stm x t d =
     (let P = (\<lambda>c. sql_eq (c_user_id c) x \<and> c_revoked_at c = None) in
      Inr (cnt P (iam_credential d),
           d\<lparr>iam_credential := upd P (\<lambda>c. c\<lparr>c_revoked_at := Some t\<rparr>) (iam_credential d)\<rparr>))"

definition void_stm :: "string \<Rightarrow> nat stm" where
  "void_stm x t d =
     (let P = (\<lambda>n. sql_eq (e_user_id n) x \<and> e_spent_at n = None \<and> e_voided_at n = None) in
      Inr (cnt P (iam_enrolment d),
           d\<lparr>iam_enrolment := upd P (\<lambda>n. n\<lparr>e_voided_at := Some t\<rparr>) (iam_enrolment d)\<rparr>))"

text \<open>The user row is locked first, live or not; no row at all is \<open>None\<close> and writes nothing.\<close>

definition revoke_every :: "string \<Rightarrow> nat option act" where
  "revoke_every x =
     and_then (select_lock [Exclusive (UserRow (text_key x))] (\<lambda>t d. find_user d x)) (\<lambda>u.
     case u of
       None \<Rightarrow> ok None
     | Some _ \<Rightarrow> and_then (stmt (revoke_stm x)) (\<lambda>n. ok (Some n)))"

definition void :: "string \<Rightarrow> nat act" where
  "void x = and_then (stmt (void_stm x)) (\<lambda>n. ok (sat_u32 n))"

section \<open>Lemmas\<close>

text \<open>The epoch a person is at, read without a statement.\<close>

definition epoch_at :: "db \<Rightarrow> string \<Rightarrow> nat option" where
  "epoch_at d x = map_option u_epoch (find_user d x)"

lemma find_user_unique:
  assumes "store_ok d" and "u \<in> set (iam_user d)" and "sql_eq (u_id u) x"
  shows "find_user d x = Some u"
proof -
  from assms(1) have "distinct (map (\<lambda>u. text_key (u_id u)) (iam_user d))"
    by (simp add: store_ok_def users_ok_def)
  then have "filter (\<lambda>v. text_key (u_id v) = text_key (u_id u)) (iam_user d) = [u]"
    using assms(2) by (rule admin_flag.lookup_unique)
  with assms(3) show ?thesis by (simp add: find_user_def)
qed

lemma same_user:
  assumes "store_ok d" and "u \<in> set (iam_user d)" and "v \<in> set (iam_user d)"
    and "sql_eq (u_id u) x" and "sql_eq (u_id v) x"
  shows "u = v"
  using find_user_unique [OF assms(1,2,4)] find_user_unique [OF assms(1,3,5)] by simp

lemma find_user_in: "find_user d x = Some u \<Longrightarrow> u \<in> set (iam_user d) \<and> sql_eq (u_id u) x"
  unfolding find_user_def by (rule fetch_optional_filter)

lemma find_live_user_in:
  "find_live_user d x = Some u \<Longrightarrow> u \<in> set (iam_user d) \<and> sql_eq (u_id u) x \<and> u_deleted_at u = None"
  unfolding find_live_user_def by (drule fetch_optional_filter) (simp add: live_row_def)

lemma find_live_user_unique:
  assumes "store_ok d" and "u \<in> set (iam_user d)" and "sql_eq (u_id u) x" and "u_deleted_at u = None"
  shows "find_live_user d x = Some u"
proof -
  have "\<exists>v. find_live_user d x = Some v"
    using assms(2-4) fetch_optional_filter_None [of "live_row x" "iam_user d"]
    by (auto simp: find_live_user_def live_row_def)
  then obtain v where v: "find_live_user d x = Some v" ..
  with find_live_user_in have "find_user d x = Some v"
    using assms(1) find_user_unique by blast
  with v find_user_unique [OF assms(1-3)] show ?thesis by simp
qed

lemma step_bump_stm: "bump_stm P t d = Inr (n, d') \<Longrightarrow> step_ok d d'"
  using step_bump [of d P] by (auto simp: bump_stm_def list_all_iff incr64_def split: if_splits)

lemma step_revoke_stm: "revoke_stm x t d = Inr (n, d') \<Longrightarrow> step_ok d d'"
  by (auto simp: revoke_stm_def Let_def intro: step_revoke)

lemma step_void_stm: "void_stm x t d = Inr (n, d') \<Longrightarrow> step_ok d d'"
  by (auto simp: void_stm_def Let_def intro: step_void)

lemma keeps_bump [keeps_intros]: "hist.stable P \<Longrightarrow> hist.keeps P (bump x) (\<lambda>_ _. True)"
  unfolding bump_def by (rule hist.keeps_stmt_lock) (auto dest: step_bump_stm)

text \<open>Stable facts pass every step the guarantee allows.\<close>

lemma stableD: "hist.stable P \<Longrightarrow> step_ok d d' \<Longrightarrow> store_ok d \<Longrightarrow> P d \<Longrightarrow> P d'"
  by (auto simp: hist.stable_def)

lemma keeps_bump_stable: "hist.stable P \<Longrightarrow> hist.keeps P (bump x) (\<lambda>_. P)"
  unfolding bump_def by (rule hist.keeps_stmt_lock) (auto dest: step_bump_stm stableD)

lemma keeps_bump_live: "hist.stable P \<Longrightarrow> hist.keeps P (bump_live x) (\<lambda>_. P)"
  unfolding bump_live_def by (rule hist.keeps_stmt_lock) (auto dest: step_bump_stm stableD)

lemma keeps_current: "hist.stable P \<Longrightarrow> hist.keeps P (current x) (\<lambda>_. P)"
  unfolding current_def by (rule hist.keeps_fetch_one)

lemma keeps_revoke_every:
  assumes "hist.stable P" shows "hist.keeps P (revoke_every x) (\<lambda>_. P)"
proof -
  have "hist.keeps P (stmt (revoke_stm x)) (\<lambda>_. P)"
    using assms by (rule hist.keeps_stmt) (auto dest: step_revoke_stm stableD [OF assms])
  then show ?thesis unfolding revoke_every_def
    by (intro hist.keeps_and_then [where Q = "\<lambda>_. P"] hist.keeps_select_lock assms)
       (auto intro!: hist.keeps_ok hist.keeps_and_then [where Q = "\<lambda>_. P"] split: option.split)
qed

lemma keeps_void:
  assumes "hist.stable P" shows "hist.keeps P (void x) (\<lambda>_. P)"
proof -
  have "hist.keeps P (stmt (void_stm x)) (\<lambda>_. P)"
    using assms by (rule hist.keeps_stmt) (auto dest: step_void_stm stableD [OF assms])
  then show ?thesis unfolding void_def
    by (auto intro!: hist.keeps_ok hist.keeps_and_then [where Q = "\<lambda>_. P"])
qed

lemmas keeps_epoch_any [keeps_any] =
  keeps_bump [where P = "\<lambda>_. True", OF hist.stable_True]
  keeps_bump_live [where P = "\<lambda>_. True", OF hist.stable_True]
  keeps_current [where P = "\<lambda>_. True", OF hist.stable_True]
  keeps_revoke_every [where P = "\<lambda>_. True", OF hist.stable_True]
  keeps_void [where P = "\<lambda>_. True", OF hist.stable_True]

text \<open>A person on record stays on record, and the epoch only grows.\<close>

lemma epoch_monotone:
  assumes "step_ok d d'" and "store_ok d" and "epoch_at d x = Some n"
  shows "\<exists>m \<ge> n. epoch_at d' x = Some m"
proof -
  from assms(3) obtain u where u: "find_user d x = Some u" "u_epoch u = n"
    by (auto simp: epoch_at_def)
  then have "u \<in> set (iam_user d)" and x: "sql_eq (u_id u) x" using find_user_in by auto
  with assms(1) obtain v where v: "v \<in> set (iam_user d')" "user_evolves u v"
    unfolding step_ok_def evolves_def rows_evolve_def by blast
  with x have "find_user d' x = Some v"
    using find_user_unique assms(1,2) by (simp add: step_ok_def user_evolves_def)
  with u v show ?thesis by (auto simp: epoch_at_def user_evolves_def)
qed

text \<open>What a request may rely on from then on: a person on record whose epoch has reached \<open>n\<close>.\<close>

definition epoch_from :: "string \<Rightarrow> nat \<Rightarrow> db \<Rightarrow> bool" where
  "epoch_from x n d \<longleftrightarrow> (\<exists>m \<ge> n. epoch_at d x = Some m)"

lemma stable_epoch_from: "hist.stable (epoch_from x n)"
  unfolding hist.stable_def epoch_from_def using epoch_monotone order_trans by blast

lemma epoch_from_reached:
  "epoch_from (rd_user_id r) (rd_epoch r) d \<Longrightarrow> epoch_reached (iam_user d) r"
  unfolding epoch_from_def epoch_at_def epoch_reached_def using find_user_in by fastforce

lemma bump_stm_epoch:
  assumes ok: "store_ok d" and d': "bump_stm P t d = Inr (n, d')" and q: "epoch_at d x = Some q"
    and P: "\<And>u. find_user d x = Some u \<Longrightarrow> P u"
  shows "epoch_at d' x = Some (q + 1)"
proof -
  from q obtain u where u: "find_user d x = Some u" "u_epoch u = q" by (auto simp: epoch_at_def)
  let ?v = "u\<lparr>u_epoch := u_epoch u + 1\<rparr>"
  have iu: "iam_user d' = upd P (\<lambda>u. u\<lparr>u_epoch := u_epoch u + 1\<rparr>) (iam_user d)"
    using d' by (auto simp: bump_stm_def split: if_splits)
  have "?v \<in> set (iam_user d')" unfolding iu set_upd
    using u P find_user_in [OF u(1)] by (intro image_eqI [of _ _ u]) auto
  moreover have "store_ok d'" using step_bump_stm [OF d'] ok by (simp add: step_ok_def)
  moreover have "sql_eq (u_id ?v) x" using find_user_in [OF u(1)] by simp
  ultimately have "find_user d' x = Some ?v" using find_user_unique by blast
  with u show ?thesis by (simp add: epoch_at_def)
qed

lemma keeps_bump_epoch: "hist.keeps (epoch_from x n) (bump x) (\<lambda>_. epoch_from x (n + 1))"
  unfolding bump_def
proof (rule hist.keeps_stmt_lock [OF stable_epoch_from])
  fix t d y d'
  assume *: "store_ok d" "epoch_from x n d" "bump_stm (\<lambda>u. sql_eq (u_id u) x) t d = Inr (y, d')"
  then obtain q where "n \<le> q" "epoch_at d x = Some q" by (auto simp: epoch_from_def)
  with bump_stm_epoch [OF *(1,3)] find_user_in have "epoch_at d' x = Some (q + 1)" by blast
  with \<open>n \<le> q\<close> step_bump_stm [OF *(3)] show "step_ok d d' \<and> epoch_from x (n + 1) d'"
    by (auto simp: epoch_from_def)
qed

lemma keeps_current_epoch:
  assumes "hist.stable P"
  shows "hist.keeps P (current x) (\<lambda>q d. P d \<and> epoch_from x q d)"
  unfolding current_def
  by (rule hist.keeps_fetch_one [OF assms]) (auto simp: epoch_from_def epoch_at_def)

end
