(* ===== verification/Credential.thy ===== *)
theory Credential
  imports Epoch
begin

text \<open>
  The RPCs whose subject is a credential (\<open>src/src/service/credential.rs\<close>, \<open>credential/mint.rs\<close>,
  \<open>credential/all.rs\<close>): resolving a token hash to an identity, minting one credential against the
  person's epoch, revoking one, revoking all, and listing them in pages.
\<close>

section \<open>Messages\<close>

record resolve_request =
  rq_token_hash :: bytes
  rq_admin_from_team :: bool

record rate_limit_override =
  ro_module :: string
  ro_kind :: int
  ro_rate :: f64
  ro_burst :: nat

record inherited_setting =
  org_value :: int
  org_locked :: bool
  team_override :: "string \<rightharpoonup> int"

record resolve_response =
  rs_user_id :: string
  rs_team_ids :: "string list"
  rs_credential_id :: string
  rs_is_admin :: bool
  rs_rate_limit_overrides :: "rate_limit_override list"
  rs_owner_reads_own_record :: "inherited_setting option"
  rs_expires_at :: "time option"

definition empty_resolve :: resolve_response where
  "empty_resolve = \<lparr>rs_user_id = [], rs_team_ids = [], rs_credential_id = [], rs_is_admin = False,
     rs_rate_limit_overrides = [], rs_owner_reads_own_record = None, rs_expires_at = None\<rparr>"

record create_credential_request =
  cq_user_id :: string
  cq_token_hash :: bytes
  cq_label :: string
  cq_expires_at :: "int option"
  cq_expected_epoch :: "nat option"
  cq_actor :: "string option"

record revoke_request =
  vq_credential_id :: string
  vq_user_id :: string
  vq_actor :: "string option"

record revoke_all_request =
  aq_user_id :: string
  aq_actor :: "string option"

record revoke_all_response =
  ar_revoked :: nat
  ar_voided_enrolments :: nat

record list_credentials_request =
  lq_user_id :: string
  lq_page_size :: int
  lq_page_token :: string

record credential_info =
  ci_id :: string
  ci_user_id :: string
  ci_label :: string
  ci_created_at :: "time option"
  ci_expires_at :: "time option"
  ci_revoked_at :: "time option"

record list_credentials_response =
  lr_credentials :: "credential_info list"
  lr_next_page_token :: string

section \<open>Resolve\<close>

text \<open>
  Liveness is decided in the query: the token's row, not revoked, not expired at the statement's
  own time, joined to a person who is not soft-deleted.
\<close>

definition resolve_rows :: "bytes \<Rightarrow> time \<Rightarrow> db \<Rightarrow> (credential_row \<times> user_row) list" where
  "resolve_rows h t d =
     filter (\<lambda>(c, u). c_token_hash c = h \<and> cred_live t c \<and> sql_eq (u_id u) (c_user_id c) \<and>
                u_deleted_at u = None)
       (List.product (iam_credential d) (iam_user d))"

definition live_team_ids :: "string \<Rightarrow> db \<Rightarrow> string list" where
  "live_team_ids x d = map (\<lambda>(m, t). m_team_id m)
     (filter (\<lambda>(m, t). sql_eq (m_user_id m) x \<and> sql_eq (t_id t) (m_team_id m) \<and> t_deleted_at t = None)
       (List.product (iam_team_member d) (iam_team d)))"

text \<open>Administrator by the declared team where the request says so, else by the column.\<close>

definition teams_and_admin :: "string \<Rightarrow> bool \<Rightarrow> bool \<Rightarrow> (string list \<times> bool) act" where
  "teams_and_admin x admin_from_team column_admin =
     and_then (select_snap (\<lambda>t d. live_team_ids x d)) (\<lambda>team_ids.
     ok (team_ids, if admin_from_team then ADMINISTRATORS \<in> set team_ids else column_admin))"

definition override_rows :: "string \<Rightarrow> db \<Rightarrow> rate_limit_override list" where
  "override_rows x d = map (\<lambda>l. \<lparr>ro_module = rl_module l, ro_kind = rl_kind l,
       ro_rate = rl_rate l, ro_burst = rl_burst l\<rparr>)
     (filter (\<lambda>l. sql_eq (rl_user_id l) x) (iam_rate_limit_override d))"

definition org_row :: "string \<Rightarrow> db \<Rightarrow> int \<times> bool" where
  "org_row name d = (case fetch_optional (filter (\<lambda>s. sql_eq (os_name s) name) (iam_org_setting d)) of
       Some s \<Rightarrow> (os_value s, os_locked s) | None \<Rightarrow> (0, False))"

text \<open>The rows collected into a map from team to value, the later of two rows with one key winning.\<close>

definition override_map :: "string \<Rightarrow> db \<Rightarrow> string \<rightharpoonup> int" where
  "override_map name d = map_of (rev (map (\<lambda>s. (to_team_id s, to_value s))
     (filter (\<lambda>s. sql_eq (to_name s) name) (iam_team_setting_override d))))"

text \<open>Both levels of the setting, unresolved; an absent organisation row is the unspecified value.\<close>

definition owner_reads_own_record :: "inherited_setting act" where
  "owner_reads_own_record =
     and_then (select_snap (\<lambda>t d. org_row OWNER_READS_OWN_RECORD d)) (\<lambda>org.
     and_then (select_snap (\<lambda>t d. override_map OWNER_READS_OWN_RECORD d)) (\<lambda>ts.
     ok \<lparr>org_value = fst org, org_locked = snd org, team_override = ts\<rparr>))"

text \<open>What follows the token's row: a miss is an answer, a hit reads the rest in the same transaction.\<close>

definition resolved :: "resolve_request \<Rightarrow> (credential_row \<times> user_row) option \<Rightarrow> resolve_response act" where
  "resolved r row = (case row of
       None \<Rightarrow> and_then (emit (Finished 0)) (\<lambda>_. ok empty_resolve)
     | Some (c, u) \<Rightarrow>
         and_then (teams_and_admin (c_user_id c) (rq_admin_from_team r) (u_is_admin u)) (\<lambda>(team_ids, is_admin).
         and_then (select_snap (\<lambda>t d. override_rows (c_user_id c) d)) (\<lambda>overrides.
         and_then owner_reads_own_record (\<lambda>setting.
         and_then commit (\<lambda>_.
         and_then (emit (Finished 1)) (\<lambda>_.
         ok \<lparr>rs_user_id = c_user_id c, rs_team_ids = team_ids, rs_credential_id = c_id c,
             rs_is_admin = is_admin, rs_rate_limit_overrides = overrides,
             rs_owner_reads_own_record = Some setting, rs_expires_at = c_expires_at c\<rparr>))))))"

definition resolve :: "resolve_request \<Rightarrow> resolve_response act" where
  "resolve r =
     and_then acquire (\<lambda>_.
     and_then (begin_tx Default) (\<lambda>_.
     and_then (select_snap (\<lambda>t d. fetch_optional (resolve_rows (rq_token_hash r) t d))) (resolved r)))"

section \<open>Mint\<close>

text \<open>
  The insert-select: the liveness of the person, and their epoch where the caller sent one, are
  predicates of the row the credential is derived from.
\<close>

definition mint_row :: "env \<Rightarrow> string \<Rightarrow> create_credential_request \<Rightarrow> time \<Rightarrow> user_row \<Rightarrow> credential_row" where
  "mint_row e cid r t u = \<lparr>c_id = cid, c_user_id = u_id u, c_token_hash = cq_token_hash r,
     c_label = cq_label r, c_created_at = t,
     c_expires_at = (case cq_expires_at r of None \<Rightarrow> None | Some s \<Rightarrow> from_unixtime e s),
     c_revoked_at = None\<rparr>"

definition mintable :: "create_credential_request \<Rightarrow> user_row \<Rightarrow> bool" where
  "mintable r u \<longleftrightarrow> live_row (cq_user_id r) u \<and>
     (case cq_expected_epoch r of None \<Rightarrow> True | Some k \<Rightarrow> u_epoch u = k)"

definition mint_stm :: "env \<Rightarrow> string \<Rightarrow> create_credential_request \<Rightarrow> nat stm" where
  "mint_stm e cid r t d =
     (case fetch_optional (filter (mintable r) (iam_user d)) of
        None \<Rightarrow> Inr (0, d)
      | Some u \<Rightarrow> (case ins_credential (mint_row e cid r t u) d of
            Inl err \<Rightarrow> Inl err | Inr d' \<Rightarrow> Inr (1, d')))"

definition stale :: status where
  "stale = Status FAILED_PRECONDITION ''the account changed since this credential was asked for''"

definition mint_credential :: "create_credential_request \<Rightarrow> string \<Rightarrow> string act" where
  "mint_credential r rid = ask (\<lambda>e.
      let cid = ''yadgar:credential:'' @ now_v7 e in
      and_then (record_actor rid (cq_actor r) ''CreateCredential'' (seg e (cq_user_id r) @ ''/'' @ cid)) (\<lambda>_.
      and_then acquire (\<lambda>_.
      and_then (stmt (mint_stm e cid r)) (\<lambda>rows.
      and_then (if rows = 0
                then and_then (live_user select (cq_user_id r)) (\<lambda>_.
                     if cq_expected_epoch r \<noteq> None then refuse_call stale FAILED_PRECONDITION else ok ())
                else ok ()) (\<lambda>_.
      and_then (emit (Finished 1)) (\<lambda>_. ok cid))))))"

section \<open>Revoke\<close>

definition no_user_named :: status where
  "no_user_named = Status INVALID_ARGUMENT ''a revoke must name the credential's user''"

definition no_such_credential :: status where
  "no_such_credential = Status NOT_FOUND ''no such credential''"

definition owned :: "revoke_request \<Rightarrow> credential_row \<Rightarrow> bool" where
  "owned r c \<longleftrightarrow> sql_eq (c_id c) (vq_credential_id r) \<and> sql_eq (c_user_id c) (vq_user_id r)"

definition revoke_one_stm :: "revoke_request \<Rightarrow> nat stm" where
  "revoke_one_stm r t d =
     (let P = (\<lambda>c. owned r c \<and> c_revoked_at c = None) in
      Inr (cnt P (iam_credential d),
           d\<lparr>iam_credential := upd P (\<lambda>c. c\<lparr>c_revoked_at := Some t\<rparr>) (iam_credential d)\<rparr>))"

definition revoke :: "revoke_request \<Rightarrow> string \<Rightarrow> string act" where
  "revoke r rid = ask (\<lambda>e.
     and_then (record_actor rid (vq_actor r) ''RevokeCredential'' (seg e (vq_credential_id r))) (\<lambda>_.
     if vq_user_id r = [] then refuse_call no_user_named INVALID_ARGUMENT
     else
       and_then acquire (\<lambda>_.
       and_then (stmt (revoke_one_stm r)) (\<lambda>rows.
       and_then (if rows = 0
                 then and_then (select (\<lambda>t d. fetch_optional (filter (owned r) (iam_credential d)))) (\<lambda>found.
                      if found = None then refuse_call no_such_credential NOT_FOUND else ok ())
                 else ok ()) (\<lambda>_.
       and_then (emit (Finished (as_u32 rows))) (\<lambda>_. ok (vq_user_id r)))))))"

definition no_such_user :: status where
  "no_such_user = Status NOT_FOUND ''no such user''"

definition revoke_all :: "revoke_all_request \<Rightarrow> string \<Rightarrow> revoke_all_response act" where
  "revoke_all r rid = ask (\<lambda>e.
     and_then (record_actor rid (aq_actor r) ''RevokeAllCredentials'' (seg e (aq_user_id r))) (\<lambda>_.
     and_then acquire (\<lambda>_.
     and_then (begin_tx Default) (\<lambda>_.
     and_then (revoke_every (aq_user_id r)) (\<lambda>rows.
     case rows of
       None \<Rightarrow> refuse_call no_such_user NOT_FOUND
     | Some n \<Rightarrow>
         and_then (bump (aq_user_id r)) (\<lambda>_.
         and_then (void (aq_user_id r)) (\<lambda>voided.
         and_then commit (\<lambda>_.
         and_then (emit (Finished (sat_u32 n))) (\<lambda>_.
         ok \<lparr>ar_revoked = sat_u32 n, ar_voided_enrolments = voided\<rparr>)))))))))"

section \<open>List\<close>

definition page_limit :: "int \<Rightarrow> int" where
  "page_limit n = (if n \<le> 0 then DEFAULT_PAGE_SIZE else min n MAX_PAGE_SIZE)"

definition listed :: "string \<Rightarrow> db \<Rightarrow> credential_row list" where
  "listed x d = map fst (filter (\<lambda>(c, u). sql_eq (c_user_id c) x \<and> c_revoked_at c = None \<and>
       sql_eq (u_id u) (c_user_id c) \<and> u_deleted_at u = None)
     (List.product (iam_credential d) (iam_user d)))"

definition page_rows :: "list_credentials_request \<Rightarrow> db \<Rightarrow> credential_row list" where
  "page_rows r d = take (nat (page_limit (lq_page_size r)))
     (sort_key (\<lambda>c. text_key (c_id c))
       (filter (\<lambda>c. text_key (lq_page_token r) < text_key (c_id c)) (listed (lq_user_id r) d)))"

definition info_of :: "string \<Rightarrow> credential_row \<Rightarrow> credential_info" where
  "info_of x c = \<lparr>ci_id = c_id c, ci_user_id = x, ci_label = c_label c,
     ci_created_at = Some (c_created_at c), ci_expires_at = c_expires_at c, ci_revoked_at = None\<rparr>"

definition next_page_token :: "int \<Rightarrow> credential_info list \<Rightarrow> string" where
  "next_page_token n cs = (if length cs = nat n then (if cs = [] then [] else ci_id (last cs)) else [])"

definition credential_page :: "list_credentials_request \<Rightarrow> list_credentials_response act" where
  "credential_page r =
     and_then acquire (\<lambda>_.
     and_then (select (\<lambda>t d. page_rows r d)) (\<lambda>rows.
     let credentials = map (info_of (lq_user_id r)) rows in
     and_then (emit (Finished (as_u32 (length credentials)))) (\<lambda>_.
     ok \<lparr>lr_credentials = credentials,
         lr_next_page_token = next_page_token (page_limit (lq_page_size r)) credentials\<rparr>)))"

section \<open>Guarantees\<close>

lemma step_mint_stm: "mint_stm e cid r t d = Inr (n, d') \<Longrightarrow> step_ok d d'"
  by (auto simp: mint_stm_def hist.R_refl split: option.splits sum.splits dest: step_ins_credential)

lemma step_revoke_one: "revoke_one_stm r t d = Inr (n, d') \<Longrightarrow> step_ok d d'"
  by (auto simp: revoke_one_stm_def Let_def intro: step_revoke)

lemma keeps_resolve [keeps_any]: "hist.keeps (\<lambda>_. True) (resolve r) (\<lambda>_ _. True)"
  unfolding resolve_def resolved_def teams_and_admin_def owner_reads_own_record_def
  by (auto intro!: keeps_any split: option.split prod.split)

lemma keeps_mint_credential [keeps_any]: "hist.keeps (\<lambda>_. True) (mint_credential r rid) (\<lambda>_ _. True)"
  unfolding mint_credential_def Let_def
  by (auto intro!: keeps_any keeps_stmt_any dest: step_mint_stm)

lemma keeps_revoke [keeps_any]: "hist.keeps (\<lambda>_. True) (revoke r rid) (\<lambda>_ _. True)"
  unfolding revoke_def
  by (auto intro!: keeps_any keeps_stmt_any dest: step_revoke_one)

lemma keeps_revoke_all [keeps_any]: "hist.keeps (\<lambda>_. True) (revoke_all r rid) (\<lambda>_ _. True)"
  unfolding revoke_all_def
  by (auto intro!: keeps_any split: option.split)

lemma keeps_credential_page [keeps_any]: "hist.keeps (\<lambda>_. True) (credential_page r) (\<lambda>_ _. True)"
  unfolding credential_page_def Let_def by (auto intro!: keeps_any)

section \<open>The epoch through a request\<close>

text \<open>A revoke-all that answers has moved the epoch; a mint checked against an earlier one fails.\<close>

lemma starts_revoke_all:
  "hist.starts (epoch_from (aq_user_id r) n) (revoke_all r rid) (\<lambda>_. epoch_from (aq_user_id r) (n + 1))"
  unfolding revoke_all_def
  by (intro hist.starts_ask hist.starts_and_then [OF keeps_record_actor shut_record_actor]
        hist.starts_and_then [OF hist.keeps_acquire shut_acquire]
        hist.starts_begin_tx [OF stable_epoch_from]
        hist.keeps_and_then [OF keeps_revoke_every [OF stable_epoch_from]])
     (auto split: option.split intro!: hist.keeps_refuse hist.keeps_and_then [OF keeps_bump_epoch]
        hist.keeps_and_then [OF keeps_void [OF stable_epoch_from]]
        hist.keeps_and_then [OF hist.keeps_commit_stable [OF stable_epoch_from]]
        hist.keeps_and_then [OF hist.keeps_emit] hist.keeps_ok)

lemma closes_revoke_all: "closes (revoke_all r rid)"
  unfolding revoke_all_def
  by (auto intro!: closes_ask closes_then closes_refuse closed_then [OF closes_commit] shut_then shut_emit shut_ok
      split: option.split)

lemma mint_stm_stale:
  assumes "store_ok d" and "epoch_from (cq_user_id r) n d" and "cq_expected_epoch r = Some k" and "k < n"
  shows "mint_stm e cid r t d = Inr (0, d)"
proof -
  from assms(2) obtain u where u: "find_user d (cq_user_id r) = Some u" "n \<le> u_epoch u"
    by (auto simp: epoch_from_def epoch_at_def)
  have "\<not> mintable r v" if "v \<in> set (iam_user d)" for v
    using find_user_unique [OF assms(1) that] u assms(3,4) by (auto simp: mintable_def live_row_def)
  then have "fetch_optional (filter (mintable r) (iam_user d)) = None"
    by (simp add: fetch_optional_filter_None del: fetch_optional_None)
  then show ?thesis by (simp add: mint_stm_def)
qed

lemma keeps_mint_stale:
  assumes "cq_expected_epoch r = Some k" and "k < n"
  shows "hist.keeps (epoch_from (cq_user_id r) n) (mint_credential r rid) (\<lambda>_ _. False)"
proof -
  have stm: "hist.keeps (epoch_from (cq_user_id r) n) (stmt (mint_stm e cid r)) (\<lambda>rows _. rows = 0)" for e cid
    by (rule hist.keeps_stmt [OF stable_epoch_from])
       (use mint_stm_stale [OF _ _ assms] hist.R_refl in auto)
  have none: "hist.keeps (\<lambda>_. rows = 0) (if rows = 0
      then and_then (live_user select (cq_user_id r)) (\<lambda>_.
        if cq_expected_epoch r \<noteq> None then refuse_call stale FAILED_PRECONDITION else ok ())
      else ok ()) (\<lambda>_ _. False)" for rows :: nat
    using assms(1)
    by (cases "rows = 0")
       (auto intro!: hist.keeps_refuse hist.keeps_and_then [OF keeps_live_user [OF hist.stable_True]]
         hist.keeps_ok)
  have tail: "hist.keeps (\<lambda>_. False) (and_then (emit (Finished 1)) (\<lambda>_. ok cid)) (\<lambda>_ _. False)" for cid :: string
    by (simp add: hist.keeps_def)
  show ?thesis unfolding mint_credential_def Let_def
    by (intro hist.keeps_ask hist.keeps_and_then [OF keeps_record_actor]
        hist.keeps_and_then [OF hist.keeps_acquire] hist.keeps_and_then [OF stm] hist.keeps_and_then [OF none] tail)
qed

lemma shut_live_user: "shut (live_user select x)"
  unfolding live_user_def by (auto intro!: shut_then shut_select shut_ok shut_fail split: option.split)

lemma shut_mint_credential: "shut (mint_credential r rid)"
  unfolding mint_credential_def Let_def
  by (auto intro!: shut_ask shut_then shut_record_actor shut_acquire shut_stmt shut_emit shut_ok shut_live_user
      closes_shut [OF closes_refuse])

section \<open>A resolution reads one state\<close>

text \<open>The answer of \<open>ResolveCredential\<close> as a function of one state of the store.\<close>

definition inherited :: "string \<Rightarrow> db \<Rightarrow> inherited_setting" where
  "inherited name d = \<lparr>org_value = fst (org_row name d), org_locked = snd (org_row name d),
     team_override = override_map name d\<rparr>"

definition resolve_answer :: "resolve_request \<Rightarrow> time \<Rightarrow> db \<Rightarrow> resolve_response" where
  "resolve_answer r t d = (case fetch_optional (resolve_rows (rq_token_hash r) t d) of
     None \<Rightarrow> empty_resolve
   | Some (c, u) \<Rightarrow> \<lparr>rs_user_id = c_user_id c, rs_team_ids = live_team_ids (c_user_id c) d,
       rs_credential_id = c_id c,
       rs_is_admin = (if rq_admin_from_team r then ADMINISTRATORS \<in> set (live_team_ids (c_user_id c) d)
                      else u_is_admin u),
       rs_rate_limit_overrides = override_rows (c_user_id c) d,
       rs_owner_reads_own_record = Some (inherited OWNER_READS_OWN_RECORD d),
       rs_expires_at = c_expires_at c\<rparr>)"

lemma teams_and_admin_snap:
  assumes "snap_is s w" and "teams_and_admin x b col e w = (Inr y, w')"
  shows "y = (live_team_ids x s, if b then ADMINISTRATORS \<in> set (live_team_ids x s) else col) \<and> snap_is s w'"
  using assms select_snap_again [OF assms(1)] by (fastforce simp: teams_and_admin_def and_then_Inr ok_def)

lemma owner_setting_snap:
  assumes "snap_is s w" and "owner_reads_own_record e w = (Inr y, w')"
  shows "y = inherited OWNER_READS_OWN_RECORD s \<and> snap_is s w'"
proof -
  from assms(2) obtain a w1 b w2 where "select_snap (\<lambda>t d. org_row OWNER_READS_OWN_RECORD d) e w = (Inr a, w1)"
      "select_snap (\<lambda>t d. override_map OWNER_READS_OWN_RECORD d) e w1 = (Inr b, w2)" "w' = w2"
      "y = \<lparr>org_value = fst a, org_locked = snd a, team_override = b\<rparr>"
    by (auto simp: owner_reads_own_record_def and_then_Inr ok_def)
  with select_snap_again assms(1) show ?thesis unfolding inherited_def by metis
qed

lemma resolved_in_snapshot:
  assumes s: "snap_is s w"
    and r: "resolved r (fetch_optional (resolve_rows (rq_token_hash r) t s)) e w = (Inr resp, w')"
  shows "resp = resolve_answer r t s"
proof (cases "fetch_optional (resolve_rows (rq_token_hash r) t s)")
  case None
  with r show ?thesis by (auto simp: resolved_def resolve_answer_def and_then_Inr emit_def ok_def)
next
  case (Some cu)
  obtain c u where cu: "cu = (c, u)" by (cases cu)
  from r Some cu obtain ta w1 ov w2 st w3 where
      "teams_and_admin (c_user_id c) (rq_admin_from_team r) (u_is_admin u) e w = (Inr ta, w1)"
      "select_snap (\<lambda>t d. override_rows (c_user_id c) d) e w1 = (Inr ov, w2)"
      "owner_reads_own_record e w2 = (Inr st, w3)"
      and resp: "resp = \<lparr>rs_user_id = c_user_id c, rs_team_ids = fst ta, rs_credential_id = c_id c,
        rs_is_admin = snd ta, rs_rate_limit_overrides = ov, rs_owner_reads_own_record = Some st,
        rs_expires_at = c_expires_at c\<rparr>"
    by (auto simp: resolved_def and_then_Inr ok_def)
  with s teams_and_admin_snap select_snap_again owner_setting_snap
  have "ta = (live_team_ids (c_user_id c) s, if rq_admin_from_team r
          then ADMINISTRATORS \<in> set (live_team_ids (c_user_id c) s) else u_is_admin u)"
      "ov = override_rows (c_user_id c) s" "st = inherited OWNER_READS_OWN_RECORD s"
    by metis+
  with resp Some cu show ?thesis by (simp add: resolve_answer_def)
qed

lemma resolve_one_state:
  assumes "hist.relies e" and "store_ok d" and "run (resolve r) e d = (Inr resp, d', ev)"
  shows "\<exists>t s. step_ok d s \<and> resp = resolve_answer r t s"
proof -
  let ?w = "\<lparr>committed = d, tx = None, steps = 0, events = []\<rparr>"
  let ?pre = "and_then acquire (\<lambda>_. begin_tx Default)"
  let ?q = "\<lambda>t d. fetch_optional (resolve_rows (rq_token_hash r) t d)"
  obtain w' where "resolve r e ?w = (Inr resp, w')"
    using assms(3) by (auto simp: run_def split: prod.splits)
  then have "and_then ?pre (\<lambda>_. and_then (select_snap ?q) (resolved r)) e ?w = (Inr resp, w')"
    by (simp add: resolve_def and_then_assoc)
  then obtain w1 row w2 where pre: "?pre e ?w = (Inr (), w1)" and row: "select_snap ?q e w1 = (Inr row, w2)"
      and rest: "resolved r row e w2 = (Inr resp, w')"
    unfolding and_then_Inr [of ?pre] and_then_Inr [of "select_snap ?q"] by (metis (full_types) old.unit.exhaust)
  let ?s = "cur (settle e w1)"
  from pre have "\<exists>t0. tx w1 = Some t0 \<and> snap t0 = None"
    using begin_tx_open by (fastforce simp: and_then_Inr)
  then obtain t where t: "row = ?q t ?s" and s: "snap_is ?s w2"
    using select_snap_first row by metis
  from rest t s have "resp = resolve_answer r t ?s" by (auto intro: resolved_in_snapshot)
  moreover have "hist.keeps (\<lambda>_. True) ?pre (\<lambda>_ _. True)" by (auto intro!: keeps_any)
  then have "hist.within d w1"
    using pre assms(1,2) unfolding hist.keeps_def
    by (metis hist.R_refl hist.within_def option.simps(4) snd_conv world.select_convs(1,2))
  then have "step_ok d ?s" using assms(1) hist.within_settle hist.within_cur by blast
  ultimately show ?thesis by blast
qed

text \<open>What the statements above give of whole requests.\<close>

lemma no_row_for_revoked:
  assumes "store_ok d" and "c \<in> set (iam_credential d)" and "c_revoked_at c \<noteq> None" and "step_ok d s"
  shows "resolve_rows (c_token_hash c) t s = []"
proof -
  from assms(2,4) obtain c' where c': "c' \<in> set (iam_credential s)" "credential_evolves c c'"
    unfolding step_ok_def evolves_def rows_evolve_def by blast
  have "distinct (map c_token_hash (iam_credential s))"
    using assms(1,4) by (simp add: step_ok_def store_ok_def credentials_ok_def)
  then have "b = c'" if "b \<in> set (iam_credential s)" "c_token_hash b = c_token_hash c" for b
    using that c' by (auto simp: credential_evolves_def distinct_map inj_on_def)
  then show ?thesis
    using assms(3) c'(2) by (auto simp: resolve_rows_def filter_empty_conv cred_live_def credential_evolves_def)
qed

lemma mint_never_answers:
  assumes "hist.relies e" and "store_ok d" and "epoch_from (cq_user_id r) n d"
    and "cq_expected_epoch r = Some k" and "k < n"
  shows "\<not> is_ok (fst (run (mint_credential r rid) e d))"
proof
  assume "is_ok (fst (run (mint_credential r rid) e d))"
  then obtain x d' ev where "run (mint_credential r rid) e d = (Inr x, d', ev)"
    by (rule run_answers)
  then show False
    using hist.starts_answer [OF hist.starts_keeps [OF keeps_mint_stale [OF assms(4,5)]] assms(1-3)] by blast
qed

lemma revoke_all_epoch:
  assumes "hist.relies e" and "store_ok d" and "epoch_from (aq_user_id r) n d"
    and "run (revoke_all r rid) e d = (Inr resp, d', ev)"
  shows "epoch_from (aq_user_id r) (n + 1) d'"
  by (rule hist.starts_run [OF starts_revoke_all closes_shut [OF closes_revoke_all] assms])

end
