(* ===== verification/Password.thy ===== *)
theory Password
  imports Epoch
begin

text \<open>
  The stored password hash (\<open>src/src/service/password.rs\<close>): the read that answers the hash and the
  epoch in one statement, and the write that bumps the epoch in the transaction of the hash.
\<close>

section \<open>Definitions\<close>

record password_hash_response =
  gr_user_id :: string
  gr_argon2id_hash :: string
  gr_credential_epoch :: nat

definition empty_password_hash :: password_hash_response where
  "empty_password_hash = \<lparr>gr_user_id = [], gr_argon2id_hash = [], gr_credential_epoch = 0\<rparr>"

record set_password_request =
  sp_user_id :: string
  sp_argon2id_hash :: string

definition hash_rows :: "bytes \<Rightarrow> db \<Rightarrow> (user_row \<times> password_row) list" where
  "hash_rows b d = filter (\<lambda>(u, p). sql_eq (p_user_id p) (u_id u) \<and> u_blind_index u = b \<and>
       u_deleted_at u = None)
     (List.product (iam_user d) (iam_password d))"

definition password_hash :: "bytes \<Rightarrow> password_hash_response act" where
  "password_hash b =
     and_then acquire (\<lambda>_.
     and_then (select (\<lambda>t d. fetch_optional (hash_rows b d))) (\<lambda>row.
     let resp = (case row of
         Some (u, p) \<Rightarrow> \<lparr>gr_user_id = u_id u, gr_argon2id_hash = p_hash p, gr_credential_epoch = u_epoch u\<rparr>
       | None \<Rightarrow> empty_password_hash) in
     and_then (emit (Finished 0)) (\<lambda>_. ok resp)))"

text \<open>
  \<open>INSERT ... SELECT ... ON DUPLICATE KEY UPDATE\<close>: the row is derived from the live person.
\<close>

definition set_hash_stm :: "set_password_request \<Rightarrow> nat stm" where
  "set_hash_stm r t d =
     (case find_live_user d (sp_user_id r) of
        None \<Rightarrow> Inr (0, d)
      | Some u \<Rightarrow> ups_password (u_id u) (sp_argon2id_hash r) d)"

definition store_password :: "set_password_request \<Rightarrow> unit act" where
  "store_password r =
     and_then (fits_password_column (sp_argon2id_hash r)) (\<lambda>_.
     and_then acquire (\<lambda>_.
     and_then (begin_tx Default) (\<lambda>_.
     and_then (bump_live (sp_user_id r)) (\<lambda>bumped.
     and_then (if bumped = 0 then live_user select_snap (sp_user_id r) else ok ()) (\<lambda>_.
     and_then (stmt (set_hash_stm r)) (\<lambda>rows.
     and_then (if rows = 0 then live_user select_snap (sp_user_id r) else ok ()) (\<lambda>_.
     and_then commit (\<lambda>_.
     emit (Finished (as_u32 rows))))))))))"

section \<open>Guarantees\<close>

lemma keeps_password_hash [keeps_any]: "hist.keeps (\<lambda>_. True) (password_hash b) (\<lambda>_ _. True)"
  unfolding password_hash_def Let_def by (auto intro!: keeps_any split: option.split)

lemma step_set_hash:
  assumes "set_hash_stm r t d = Inr (n, d')" and "length (sp_argon2id_hash r) \<le> 255"
  shows "step_ok d d'"
  using assms by (auto simp: set_hash_stm_def hist.R_refl split: option.splits intro: step_ups_password)

lemma keeps_store_password [keeps_any]: "hist.keeps (\<lambda>_. True) (store_password r) (\<lambda>_ _. True)"
proof (cases "length (sp_argon2id_hash r) \<le> 255")
  case True
  then show ?thesis unfolding store_password_def
    by (auto intro!: keeps_any keeps_stmt_any step_set_hash)
next
  case False
  then show ?thesis
    by (simp add: store_password_def fits_password_column_def MAX_ARGON2ID_HASH_def
        hist.keeps_and_then [OF hist.keeps_fail hist.keeps_fail] hist.keeps_def and_then_def fail_def)
qed

end
