(* ===== verification/Policy.thy ===== *)
theory Policy
  imports Epoch
begin

text \<open>
  What applies to one person (\<open>src/src/service/policy.rs\<close>): the administrator flag and the
  rate-limit overrides. \<open>Kind\<close> is the enumeration of \<open>src/proto/yadgar/telemetry/v1/telemetry.proto\<close>.
\<close>

section \<open>Definitions\<close>

record set_admin_request =
  sa_user_id :: string
  sa_is_admin :: bool
  sa_actor :: "string option"

definition set_admin_stm :: "set_admin_request \<Rightarrow> nat stm" where
  "set_admin_stm r t d =
     Inr (cnt (live_row (sa_user_id r)) (iam_user d),
          d\<lparr>iam_user := upd (live_row (sa_user_id r)) (\<lambda>u. u\<lparr>u_is_admin := sa_is_admin r\<rparr>) (iam_user d)\<rparr>)"

definition set_admin :: "set_admin_request \<Rightarrow> string \<Rightarrow> unit act" where
  "set_admin r rid = ask (\<lambda>e.
     and_then (record_actor rid (sa_actor r) ''SetUserAdmin'' (seg e (sa_user_id r))) (\<lambda>_.
     and_then acquire (\<lambda>_.
     and_then (stmt (set_admin_stm r)) (\<lambda>rows.
     and_then (if rows = 0 then live_user select (sa_user_id r) else ok ()) (\<lambda>_.
     emit (Finished (as_u32 rows)))))))"

text \<open>\<open>Kind::try_from\<close> and \<open>as_str_name\<close>: \<open>None\<close> is a number the enumeration does not declare.\<close>

definition kind_name :: "int \<Rightarrow> string option" where
  "kind_name k =
     (if k = 0 then Some ''KIND_UNSPECIFIED'' else if k = 1 then Some ''KIND_READ''
      else if k = 2 then Some ''KIND_WRITE'' else if k = 3 then Some ''KIND_GENERATE''
      else if k = 4 then Some ''KIND_JOB'' else None)"

record limit =
  li_rate :: f64
  li_burst :: nat

record set_rate_limit_request =
  sl_user_id :: string
  sl_module :: string
  sl_kind :: int
  sl_limit :: "limit option"
  sl_actor :: "string option"

definition refuse_unstored_kind :: "int \<Rightarrow> unit act" where
  "refuse_unstored_kind k =
     (if kind_name k \<in> {Some ''KIND_READ'', Some ''KIND_WRITE'', Some ''KIND_GENERATE''} then ok ()
      else fail (Status INVALID_ARGUMENT ''a rate-limit override must name READ, WRITE or GENERATE''))"

definition rate_limit_target :: "env \<Rightarrow> set_rate_limit_request \<Rightarrow> string" where
  "rate_limit_target e r =
     seg e (sl_user_id r) @ ''/'' @ seg e (sl_module r) @ ''/'' @
     (case kind_name (sl_kind r) of Some n \<Rightarrow> n | None \<Rightarrow> dec_int (sl_kind r)) @ ''/'' @
     (if sl_limit r \<noteq> None then ''set'' else ''clear'')"

definition set_limit_stm :: "set_rate_limit_request \<Rightarrow> limit \<Rightarrow> nat stm" where
  "set_limit_stm r l t d =
     (case find_live_user d (sl_user_id r) of
        None \<Rightarrow> Inr (0, d)
      | Some u \<Rightarrow> ups_rate_limit \<lparr>rl_user_id = u_id u, rl_module = sl_module r, rl_kind = sl_kind r,
                     rl_rate = li_rate l, rl_burst = li_burst l\<rparr> d)"

definition bucket :: "set_rate_limit_request \<Rightarrow> rate_limit_row \<Rightarrow> bool" where
  "bucket r l \<longleftrightarrow> sql_eq (rl_user_id l) (sl_user_id r) \<and> sql_eq (rl_module l) (sl_module r) \<and>
     rl_kind l = sl_kind r"

definition clear_limit_stm :: "set_rate_limit_request \<Rightarrow> nat stm" where
  "clear_limit_stm r t d =
     Inr (cnt (bucket r) (iam_rate_limit_override d),
          d\<lparr>iam_rate_limit_override := del (bucket r) (iam_rate_limit_override d)\<rparr>)"

definition set_rate_limit :: "set_rate_limit_request \<Rightarrow> string \<Rightarrow> unit act" where
  "set_rate_limit r rid = ask (\<lambda>e.
     and_then (record_actor rid (sl_actor r) ''SetRateLimitOverride'' (rate_limit_target e r)) (\<lambda>_.
     and_then (refuse_unstored_kind (sl_kind r)) (\<lambda>_.
     and_then acquire (\<lambda>_.
     and_then (case sl_limit r of
         Some l \<Rightarrow> and_then (stmt (set_limit_stm r l)) (\<lambda>rows.
                   and_then (if rows = 0 then live_user select (sl_user_id r) else ok ()) (\<lambda>_. ok rows))
       | None \<Rightarrow> and_then (live_user select (sl_user_id r)) (\<lambda>_. stmt (clear_limit_stm r))) (\<lambda>rows.
     emit (Finished (as_u32 rows)))))))"

section \<open>Guarantees\<close>

lemma step_set_admin_stm: "set_admin_stm r t d = Inr (n, d') \<Longrightarrow> step_ok d d'"
  by (auto simp: set_admin_stm_def intro: step_set_admin)

lemma kind_stored_iff:
  "kind_name k \<in> {Some ''KIND_READ'', Some ''KIND_WRITE'', Some ''KIND_GENERATE''} \<longleftrightarrow> k \<in> {1, 2, 3}"
  by (auto simp: kind_name_def split: if_splits)

lemma step_set_limit:
  assumes "set_limit_stm r l t d = Inr (n, d')" and "sl_kind r \<in> {1, 2, 3}"
  shows "step_ok d d'"
  using assms by (auto simp: set_limit_stm_def hist.R_refl split: option.splits intro: step_ups_rate_limit)

lemma step_clear_limit: "clear_limit_stm r t d = Inr (n, d') \<Longrightarrow> step_ok d d'"
  by (auto simp: clear_limit_stm_def store_ok_def rate_limits_ok_def set_del
      intro!: step_rate_limits distinct_map_del)

lemma keeps_set_admin [keeps_any]: "hist.keeps (\<lambda>_. True) (set_admin r rid) (\<lambda>_ _. True)"
  unfolding set_admin_def by (auto intro!: keeps_any keeps_stmt_any dest: step_set_admin_stm)

lemma keeps_set_rate_limit [keeps_any]: "hist.keeps (\<lambda>_. True) (set_rate_limit r rid) (\<lambda>_ _. True)"
proof (cases "sl_kind r \<in> {1, 2, 3}")
  case True
  then have "\<And>l. hist.keeps (\<lambda>_. True) (stmt (set_limit_stm r l)) (\<lambda>_ _. True)"
    by (auto intro!: keeps_stmt_any dest: step_set_limit)
  moreover have "hist.keeps (\<lambda>_. True) (stmt (clear_limit_stm r)) (\<lambda>_ _. True)"
    by (auto intro!: keeps_stmt_any dest: step_clear_limit)
  ultimately show ?thesis unfolding set_rate_limit_def refuse_unstored_kind_def
    by (auto intro!: keeps_any split: option.split)
next
  case False
  then have refused: "\<And>f. and_then (refuse_unstored_kind (sl_kind r)) f = fail
      (Status INVALID_ARGUMENT ''a rate-limit override must name READ, WRITE or GENERATE'')"
    unfolding refuse_unstored_kind_def kind_stored_iff
    by (simp add: and_then_def fail_def fun_eq_iff)
  show ?thesis unfolding set_rate_limit_def refused by (auto intro!: keeps_any)
qed

end
