(* ===== verification/Team.thy ===== *)
theory Team
  imports Service
begin

text \<open>
  What the three readers of \<open>administrators\<close> share (\<open>src/src/service/team.rs\<close>): the rule of a
  canonical user id, the lock on the team's row, and the count of its live members.
\<close>

section \<open>Definitions\<close>

definition is_lower_hex :: "char \<Rightarrow> bool" where
  "is_lower_hex c \<longleftrightarrow> is_digit c \<or> (97::nat) \<le> of_char c \<and> of_char c \<le> (102::nat)"

definition strip_prefix :: "string \<Rightarrow> string \<Rightarrow> string option" where
  "strip_prefix p s = (if take (length p) s = p then Some (drop (length p) s) else None)"

definition uuid_char :: "nat \<Rightarrow> char \<Rightarrow> bool" where
  "uuid_char i c = (if i \<in> {8, 13, 18, 23} then c = CHR ''-'' else is_lower_hex c)"

definition canonical_user_id :: "string \<Rightarrow> bool" where
  "canonical_user_id x =
     (case strip_prefix USER_PREFIX x of
        None \<Rightarrow> False
      | Some uuid \<Rightarrow> length uuid = 36 \<and>
          list_all (\<lambda>(i, c). uuid_char i c) (zip [0..<36] uuid) \<and>
          uuid ! 14 = CHR ''7'' \<and> uuid ! 19 \<in> {CHR ''8'', CHR ''9'', CHR ''a'', CHR ''b''})"

text \<open>\<open>None\<close>: no row. \<open>Some False\<close>: archived. The row is locked whichever it is.\<close>

definition administrators_row :: "db \<Rightarrow> bool option" where
  "administrators_row d = map_option (\<lambda>t. t_deleted_at t = None)
     (fetch_optional (filter (\<lambda>t. sql_eq (t_id t) ADMINISTRATORS) (iam_team d)))"

definition lock_administrators :: "bool option act" where
  "lock_administrators =
     select_lock [Exclusive (TeamRow (text_key ADMINISTRATORS))] (\<lambda>t d. administrators_row d)"

definition live_admin_rows :: "db \<Rightarrow> (member_row \<times> team_row \<times> user_row) list" where
  "live_admin_rows d = filter (\<lambda>(m, t, u). sql_eq (t_id t) (m_team_id m) \<and> sql_eq (u_id u) (m_user_id m) \<and>
       sql_eq (m_team_id m) ADMINISTRATORS \<and> t_deleted_at t = None \<and> u_deleted_at u = None)
     (List.product (iam_team_member d) (List.product (iam_team d) (iam_user d)))"

definition live_administrators :: "nat act" where
  "live_administrators = select (\<lambda>t d. length (live_admin_rows d))"

section \<open>Lemmas\<close>

lemma keeps_lock_administrators [keeps_any]: "hist.keeps (\<lambda>_. True) lock_administrators (\<lambda>_ _. True)"
  unfolding lock_administrators_def by (auto intro!: keeps_any)

lemma keeps_live_administrators [keeps_any]: "hist.keeps (\<lambda>_. True) live_administrators (\<lambda>_ _. True)"
  unfolding live_administrators_def by (auto intro!: keeps_any)

text \<open>
  The shape a canonical id has: its comparison key is the id itself, so two canonical ids are one
  row of the store only when they are the same text.
\<close>

lemma lower_char_fixed: "is_lower_hex c \<or> c = CHR ''-'' \<Longrightarrow> lower_char c = c"
  by (auto simp: is_lower_hex_def is_digit_def lower_char_def Let_def)

lemma uuid_chars:
  assumes "list_all (\<lambda>(i, c). uuid_char i c) (zip [0..<36] s)" and "length s = 36" and "c \<in> set s"
  shows "is_lower_hex c \<or> c = CHR ''-''"
proof -
  from assms(2,3) obtain i where i: "i < 36" "c = s ! i" by (metis in_set_conv_nth)
  then have "(i, c) \<in> set (zip [0..<36] s)"
    using assms(2) by (force simp: in_set_zip)
  with assms(1) have "uuid_char i c" by (auto simp: list_all_iff)
  then show ?thesis by (auto simp: uuid_char_def split: if_splits)
qed

lemma trim_end_fixed: "s \<noteq> [] \<Longrightarrow> last s \<noteq> CHR '' '' \<Longrightarrow> trim_end s = s"
  by (cases s rule: rev_cases) (simp_all add: trim_end_def)

lemma canonical_shape:
  assumes "canonical_user_id x"
  obtains u where "x = USER_PREFIX @ u" and "length u = 36"
    and "\<And>c. c \<in> set u \<Longrightarrow> is_lower_hex c \<or> c = CHR ''-''"
proof -
  from assms obtain u where u: "strip_prefix USER_PREFIX x = Some u" "length u = 36"
      "list_all (\<lambda>(i, c). uuid_char i c) (zip [0..<36] u)"
    by (auto simp: canonical_user_id_def split: option.splits)
  then have "x = USER_PREFIX @ u"
    by (metis append_take_drop_id option.distinct(1) option.inject strip_prefix_def)
  then show ?thesis using u uuid_chars [OF u(3,2)] by (intro that) auto
qed

lemma canonical_key: "canonical_user_id x \<Longrightarrow> text_key x = x"
proof (elim canonical_shape)
  fix u
  assume x: "x = USER_PREFIX @ u" and u: "length u = 36"
    and c: "\<And>c. c \<in> set u \<Longrightarrow> is_lower_hex c \<or> c = CHR ''-''"
  have "last x \<in> set u" using x u by (cases u rule: rev_cases) auto
  from c [OF this] have "last x \<noteq> CHR '' ''" by (auto simp: is_lower_hex_def is_digit_def)
  moreover have "x \<noteq> []" using x by (simp add: USER_PREFIX_def)
  ultimately have "trim_end x = x" by (rule trim_end_fixed [rotated])
  moreover have "map lower_char u = u" using c lower_char_fixed by (simp add: map_idI)
  moreover have "map lower_char USER_PREFIX = USER_PREFIX"
    by (simp add: USER_PREFIX_def lower_char_def)
  ultimately show "text_key x = x" by (simp add: text_key_def x)
qed

end
