(* ===== verification/Enrolment.thy ===== *)
theory Enrolment
  imports Epoch Team
begin

text \<open>
  Minting an enrolment secret and spending one (\<open>src/src/service/enrolment.rs\<close> and its children
  \<open>demand.rs\<close>, \<open>declared.rs\<close>, \<open>ledger.rs\<close>, \<open>redeem.rs\<close>, \<open>revoke.rs\<close>): the three insert statements and
  the two predicates of the bootstrap demand, the redemption in one transaction, and the ledger that
  makes a second delivery of one key answer what the first one did.
\<close>

section \<open>Messages\<close>

record create_enrolment_request =
  eq_user_id :: string
  eq_secret_hash :: bytes
  eq_expires_at :: "int option"
  eq_require_zero_credential_admin :: bool
  eq_revoke_existing_credentials :: bool
  eq_admin_from_team :: bool
  eq_idempotency :: "string option"
  eq_actor :: "string option"

record redeem_request =
  xq_secret_hash :: bytes
  xq_argon2id_hash :: string
  xq_idempotency :: "string option"

datatype redeem_outcome = Unspecified | Redeemed | NotFound | Spent | Expired | Voided

record redeem_response =
  xr_outcome :: redeem_outcome
  xr_user_id :: string
  xr_enrolment_id :: string
  xr_external_id_ciphertext :: bytes
  xr_revoked_existing_credentials :: bool
  xr_credential_epoch :: nat
  xr_voided_enrolments :: nat

definition refused_redeem :: "redeem_outcome \<Rightarrow> redeem_response" where
  "refused_redeem out = \<lparr>xr_outcome = out, xr_user_id = [], xr_enrolment_id = [],
     xr_external_id_ciphertext = [], xr_revoked_existing_credentials = False,
     xr_credential_epoch = 0, xr_voided_enrolments = 0\<rparr>"

section \<open>Counters and sentences\<close>

definition ENROLMENT_IDEMPOTENCY_DISCARDED :: string where
  "ENROLMENT_IDEMPOTENCY_DISCARDED = ''yadgar_iamdb_enrolment_idempotency_discarded_total''"
definition ENROLMENT_DEMAND_REFUSED :: string where
  "ENROLMENT_DEMAND_REFUSED = ''yadgar_iamdb_enrolment_demand_refused_total''"
definition BOOTSTRAP_REENROLMENT :: string where
  "BOOTSTRAP_REENROLMENT = ''yadgar_iamdb_bootstrap_reenrolment_total''"

definition DEMAND_REFUSAL :: string where
  "DEMAND_REFUSAL = ''the bootstrap token may only enrol an administrator who has never held a credential''"

datatype conjunct = NotAdmin | HeldCredential | NoAdministratorsTeam | NotLiveUser | NotDeclaredMember

fun conjunct_label :: "conjunct \<Rightarrow> string" where
  "conjunct_label NotAdmin = ''not_admin''"
| "conjunct_label HeldCredential = ''held_credential''"
| "conjunct_label NoAdministratorsTeam = ''no_administrators_team''"
| "conjunct_label NotLiveUser = ''not_live_user''"
| "conjunct_label NotDeclaredMember = ''not_declared_member''"

section \<open>The insert statements\<close>

text \<open>\<open>FROM_UNIXTIME\<close> of a time it cannot represent is NULL, which the column refuses.\<close>

definition new_enrolment ::
  "env \<Rightarrow> string \<Rightarrow> create_enrolment_request \<Rightarrow> int \<Rightarrow> bool \<Rightarrow> time \<Rightarrow> user_row \<Rightarrow> enrolment_row option" where
  "new_enrolment e eid r secs revoking t u =
     (case from_unixtime e secs of
        None \<Rightarrow> None
      | Some x \<Rightarrow> Some \<lparr>e_id = eid, e_user_id = u_id u, e_secret_hash = eq_secret_hash r,
          e_created_at = t, e_expires_at = x, e_spent_at = None, e_revoke_existing = revoking,
          e_voided_at = None\<rparr>)"

definition insert_for ::
  "(db \<Rightarrow> user_row \<Rightarrow> bool) \<Rightarrow> bool \<Rightarrow> env \<Rightarrow> string \<Rightarrow> create_enrolment_request \<Rightarrow> int \<Rightarrow> nat stm" where
  "insert_for P revoking e eid r secs t d =
     (case fetch_optional (filter (P d) (iam_user d)) of
        None \<Rightarrow> Inr (0, d)
      | Some u \<Rightarrow> (case new_enrolment e eid r secs revoking t u of
            None \<Rightarrow> Inl EngineError
          | Some n \<Rightarrow> (case ins_enrolment n d of Inl err \<Rightarrow> Inl err | Inr d' \<Rightarrow> Inr (1, d'))))"

text \<open>
  The demand's predicate: a live administrator with no password row and no credential row of any
  liveness.
\<close>

definition zero_credential_admin :: "string \<Rightarrow> db \<Rightarrow> user_row \<Rightarrow> bool" where
  "zero_credential_admin x d u \<longleftrightarrow> live_row x u \<and> u_is_admin u \<and>
     \<not> list_ex (\<lambda>p. sql_eq (p_user_id p) (u_id u)) (iam_password d) \<and>
     \<not> list_ex (\<lambda>c. sql_eq (c_user_id c) (u_id u)) (iam_credential d)"

definition ORDINARY :: "env \<Rightarrow> string \<Rightarrow> create_enrolment_request \<Rightarrow> int \<Rightarrow> nat stm" where
  "ORDINARY e eid r = insert_for (\<lambda>d. live_row (eq_user_id r)) False e eid r"

definition REVOKE_INSERT :: "env \<Rightarrow> string \<Rightarrow> create_enrolment_request \<Rightarrow> int \<Rightarrow> nat stm" where
  "REVOKE_INSERT e eid r = insert_for (\<lambda>d. live_row (eq_user_id r)) True e eid r"

definition DEMAND_INSERT :: "env \<Rightarrow> string \<Rightarrow> create_enrolment_request \<Rightarrow> int \<Rightarrow> nat stm" where
  "DEMAND_INSERT e eid r = insert_for (zero_credential_admin (eq_user_id r)) False e eid r"

definition statement ::
  "bool \<Rightarrow> bool \<Rightarrow> env \<Rightarrow> string \<Rightarrow> create_enrolment_request \<Rightarrow> int \<Rightarrow> nat stm" where
  "statement demand revoking =
     (if demand then DEMAND_INSERT else if revoking then REVOKE_INSERT else ORDINARY)"

definition secret_conflict :: "sql_error \<Rightarrow> status" where
  "secret_conflict err = (case err of
       UniqueViolation _ \<Rightarrow> Status ALREADY_EXISTS ''that enrolment secret is already in use''
     | EngineError \<Rightarrow> db_error)"

section \<open>CreateEnrolment\<close>

definition idempotency_sensor :: "create_enrolment_request \<Rightarrow> unit act" where
  "idempotency_sensor r = (case eq_idempotency r of
       Some k \<Rightarrow> if k \<noteq> [] then emit (Counter ENROLMENT_IDEMPOTENCY_DISCARDED []) else ok ()
     | None \<Rightarrow> ok ())"

definition compatible :: "create_enrolment_request \<Rightarrow> unit result" where
  "compatible r =
     (if eq_require_zero_credential_admin r \<and> eq_revoke_existing_credentials r
      then Inl (Status INVALID_ARGUMENT
        ''`revoke_existing_credentials` cannot be combined with `require_zero_credential_admin`'')
      else Inr ())"

text \<open>The re-read names the conjunct and never guards: whatever it finds, the answer is the refusal.\<close>

definition demand_refuse :: "string \<Rightarrow> status act" where
  "demand_refuse x =
     and_then (stmt_try (\<lambda>t d. Inr (map_option u_is_admin (find_live_user d x), d))) (\<lambda>flag.
     let named = (case flag of
         Inr (Some True) \<Rightarrow> Some HeldCredential
       | Inr (Some False) \<Rightarrow> Some NotAdmin
       | Inr None \<Rightarrow> None
       | Inl _ \<Rightarrow> None) in
     and_then (case named of
         Some c \<Rightarrow> emit (Counter ENROLMENT_DEMAND_REFUSED (conjunct_label c))
       | None \<Rightarrow> ok ()) (\<lambda>_.
     ok (Status PERMISSION_DENIED DEMAND_REFUSAL)))"

text \<open>The declared arm: membership of \<open>administrators\<close> in place of the flag, under its row's lock.\<close>

definition is_admin_member :: "string \<Rightarrow> db \<Rightarrow> bool" where
  "is_admin_member x d = list_ex (\<lambda>m. sql_eq (m_team_id m) ADMINISTRATORS \<and> sql_eq (m_user_id m) x)
     (iam_team_member d)"

definition declared_predicate :: "string \<Rightarrow> (conjunct + nat) act" where
  "declared_predicate x =
     and_then lock_administrators (\<lambda>team.
     if team \<noteq> Some True then ok (Inl NoAdministratorsTeam)
     else
       and_then (select_lock [Shared (UserRow (text_key x))] (\<lambda>t d. find_live_user d x)) (\<lambda>live.
       if live = None then ok (Inl NotLiveUser)
       else
         and_then (select (\<lambda>t d. is_admin_member x d)) (\<lambda>member.
         if \<not> member then ok (Inl NotDeclaredMember)
         else
           and_then (select (\<lambda>t d. cnt (\<lambda>c. sql_eq (c_user_id c) x \<and> cred_live t c) (iam_credential d))) (\<lambda>n.
           ok (Inr n)))))"

definition declared_mint :: "create_enrolment_request \<Rightarrow> string \<Rightarrow> int \<Rightarrow> unit act" where
  "declared_mint r eid secs =
     and_then acquire (\<lambda>_.
     and_then (begin_tx ReadCommitted) (\<lambda>_.
     and_then (declared_predicate (eq_user_id r)) (\<lambda>verdict.
     case verdict of
       Inl c \<Rightarrow>
         and_then drop_tx (\<lambda>_.
         and_then (emit (Counter ENROLMENT_DEMAND_REFUSED (conjunct_label c))) (\<lambda>_.
         fail (Status PERMISSION_DENIED DEMAND_REFUSAL)))
     | Inr n \<Rightarrow>
         and_then (ask (\<lambda>e. stmt_map secret_conflict
           ((if eq_revoke_existing_credentials r then REVOKE_INSERT else ORDINARY) e eid r secs))) (\<lambda>_.
         and_then commit (\<lambda>_.
         if 0 < n
         then emit (Counter BOOTSTRAP_REENROLMENT
                (if eq_revoke_existing_credentials r then ''true'' else ''false''))
         else ok ())))))"

definition declared_issue :: "create_enrolment_request \<Rightarrow> int \<Rightarrow> string act" where
  "declared_issue r secs = ask (\<lambda>e.
     let eid = ''yadgar:enrolment:'' @ now_v7 e in
     and_then (failing_call (declared_mint r eid secs)) (\<lambda>_.
     and_then (emit (Finished 1)) (\<lambda>_. ok eid)))"

definition mint_enrolment :: "create_enrolment_request \<Rightarrow> string \<Rightarrow> string act" where
  "mint_enrolment r rid = ask (\<lambda>e.
     and_then (record_actor rid (eq_actor r) ''CreateEnrolment'' (seg e (eq_user_id r))) (\<lambda>_.
     and_then (idempotency_sensor r) (\<lambda>_.
     case eq_expires_at r of
       None \<Rightarrow> fail (Status INVALID_ARGUMENT ''an enrolment must carry an expiry'')
     | Some secs \<Rightarrow>
         if eq_require_zero_credential_admin r \<and> eq_admin_from_team r then declared_issue r secs
         else (case compatible r of
             Inl s \<Rightarrow> refuse_call s INVALID_ARGUMENT
           | Inr _ \<Rightarrow>
               let eid = ''yadgar:enrolment:'' @ now_v7 e in
               and_then acquire (\<lambda>_.
               and_then (stmt_map secret_conflict
                 (statement (eq_require_zero_credential_admin r) (eq_revoke_existing_credentials r) e eid r secs)) (\<lambda>rows.
               and_then (if rows = 0
                   then and_then (live_user select (eq_user_id r)) (\<lambda>_.
                        if eq_require_zero_credential_admin r
                        then and_then (demand_refuse (eq_user_id r)) (\<lambda>s. refuse_call s (code_of s))
                        else ok ())
                   else ok ()) (\<lambda>_.
               and_then (emit (Finished 1)) (\<lambda>_. ok eid))))))))"

section \<open>The redemption's ledger\<close>

definition different_secret :: status where
  "different_secret = Status INVALID_ARGUMENT
     ''this idempotency key was used with a different enrolment secret''"

definition find_redemption :: "string \<Rightarrow> db \<Rightarrow> redemption_row option" where
  "find_redemption k d =
     fetch_optional (filter (\<lambda>x. sql_eq (rd_key x) k) (iam_enrolment_redemption d))"

definition find_enrolment :: "string \<Rightarrow> db \<Rightarrow> enrolment_row option" where
  "find_enrolment x d = fetch_optional (filter (\<lambda>n. sql_eq (e_id n) x) (iam_enrolment d))"

definition by_secret :: "bytes \<Rightarrow> db \<Rightarrow> enrolment_row option" where
  "by_secret h d = fetch_optional (filter (\<lambda>n. e_secret_hash n = h) (iam_enrolment d))"

definition replay :: "string \<Rightarrow> bytes \<Rightarrow> locking \<Rightarrow> redeem_response option act" where
  "replay k presented l =
     and_then (select_lock (locked_if l [Exclusive (RedemptionRow (text_key k))]) (\<lambda>t d. find_redemption k d)) (\<lambda>prior.
     case prior of
       None \<Rightarrow> ok None
     | Some p \<Rightarrow>
         if rd_secret_hash p \<noteq> presented then fail different_secret
         else
           and_then (fetch_one (\<lambda>d. map_option u_external_ct (find_user d (rd_user_id p)))) (\<lambda>ct.
           and_then (fetch_one (\<lambda>d. map_option e_revoke_existing (find_enrolment (rd_enrolment_id p) d))) (\<lambda>revoked.
           ok (Some \<lparr>xr_outcome = Redeemed, xr_user_id = rd_user_id p,
               xr_enrolment_id = rd_enrolment_id p, xr_external_id_ciphertext = ct,
               xr_revoked_existing_credentials = revoked, xr_credential_epoch = rd_epoch p,
               xr_voided_enrolments = 0\<rparr>))))"

definition unredeemable_rows :: "bytes \<Rightarrow> db \<Rightarrow> (enrolment_row \<times> user_row) list" where
  "unredeemable_rows h d = filter (\<lambda>(n, u). sql_eq (u_id u) (e_user_id n) \<and> e_secret_hash n = h \<and>
       u_deleted_at u = None)
     (List.product (iam_enrolment d) (iam_user d))"

definition unredeemable :: "bytes \<Rightarrow> redeem_outcome act" where
  "unredeemable h =
     and_then (select (\<lambda>t d. fetch_optional (unredeemable_rows h d))) (\<lambda>row.
     ok (case row of
         None \<Rightarrow> NotFound
       | Some (n, u) \<Rightarrow> if e_spent_at n \<noteq> None then Spent
                       else if e_voided_at n \<noteq> None then Voided else Expired))"

section \<open>RedeemEnrolment\<close>

definition lock_owner :: "bytes \<Rightarrow> unit act" where
  "lock_owner h =
     and_then (select (\<lambda>t d. map_option e_user_id (by_secret h d))) (\<lambda>owner.
     case owner of
       None \<Rightarrow> ok ()
     | Some x \<Rightarrow> and_then (select_lock [Exclusive (UserRow (text_key x))] (\<lambda>t d. find_user d x)) (\<lambda>_. ok ()))"

definition spendable :: "bytes \<Rightarrow> time \<Rightarrow> db \<Rightarrow> enrolment_row \<Rightarrow> bool" where
  "spendable h t d n \<longleftrightarrow> e_secret_hash n = h \<and> t < e_expires_at n \<and>
     list_ex (\<lambda>u. sql_eq (u_id u) (e_user_id n) \<and> u_deleted_at u = None) (iam_user d)"

definition spend_stm :: "bytes \<Rightarrow> nat stm" where
  "spend_stm h t d =
     (let P = (\<lambda>n. spendable h t d n \<and> e_spent_at n = None \<and> e_voided_at n = None) in
      Inr (cnt P (iam_enrolment d),
           d\<lparr>iam_enrolment := upd P (\<lambda>n. n\<lparr>e_spent_at := Some t\<rparr>) (iam_enrolment d)\<rparr>))"

definition spend :: "bytes \<Rightarrow> nat act" where
  "spend h = stmt (spend_stm h)"

definition unspent :: "string \<Rightarrow> redeem_request \<Rightarrow> redeem_response act" where
  "unspent k r =
     and_then (if k \<noteq> [] then replay k (xq_secret_hash r) YesLock else ok None) (\<lambda>replayed.
     case replayed of
       Some resp \<Rightarrow> and_then commit (\<lambda>_. and_then (emit (Finished 0)) (\<lambda>_. ok resp))
     | None \<Rightarrow>
         and_then (unredeemable (xq_secret_hash r)) (\<lambda>out.
         and_then commit (\<lambda>_.
         and_then (emit (Finished 0)) (\<lambda>_. ok (refused_redeem out)))))"

definition redeemed_row :: "bytes \<Rightarrow> db \<Rightarrow> (enrolment_row \<times> user_row) option" where
  "redeemed_row h d = fetch_optional
     (filter (\<lambda>(n, u). sql_eq (u_id u) (e_user_id n) \<and> e_secret_hash n = h)
       (List.product (iam_enrolment d) (iam_user d)))"

definition ups_password_stm :: "string \<Rightarrow> string \<Rightarrow> nat stm" where
  "ups_password_stm x h t d = ups_password x h d"

definition ledger_stm :: "string \<Rightarrow> bytes \<Rightarrow> string \<Rightarrow> string \<Rightarrow> nat \<Rightarrow> unit stm" where
  "ledger_stm k h eid x n t d =
     (case ins_redemption \<lparr>rd_key = k, rd_secret_hash = h, rd_enrolment_id = eid,
             rd_user_id = x, rd_epoch = n\<rparr> d of
        Inl err \<Rightarrow> Inl err | Inr d' \<Rightarrow> Inr ((), d'))"

definition redeemed :: "string \<Rightarrow> redeem_request \<Rightarrow> redeem_response act" where
  "redeemed k r =
     and_then (fetch_one (redeemed_row (xq_secret_hash r))) (\<lambda>(n, u).
     and_then (bump (e_user_id n)) (\<lambda>_.
     and_then (current (e_user_id n)) (\<lambda>credential_epoch.
     and_then (if e_revoke_existing n
               then and_then (revoke_every (e_user_id n)) (\<lambda>_. void (e_user_id n))
               else ok 0) (\<lambda>voided.
     and_then (stmt (ups_password_stm (e_user_id n) (xq_argon2id_hash r))) (\<lambda>_.
     and_then (if k \<noteq> []
               then stmt (ledger_stm k (xq_secret_hash r) (e_id n) (e_user_id n) credential_epoch)
               else ok ()) (\<lambda>_.
     and_then commit (\<lambda>_.
     and_then (emit (Finished 1)) (\<lambda>_.
     ok \<lparr>xr_outcome = Redeemed, xr_user_id = e_user_id n, xr_enrolment_id = e_id n,
         xr_external_id_ciphertext = u_external_ct u,
         xr_revoked_existing_credentials = e_revoke_existing n,
         xr_credential_epoch = credential_epoch, xr_voided_enrolments = voided\<rparr>))))))))"

definition redeem :: "redeem_request \<Rightarrow> redeem_response act" where
  "redeem r =
     and_then acquire (\<lambda>_.
     and_then (begin_tx ReadCommitted) (\<lambda>_.
     let k = (case xq_idempotency r of None \<Rightarrow> [] | Some k \<Rightarrow> k) in
     and_then (if k \<noteq> [] then replay k (xq_secret_hash r) NoLock else ok None) (\<lambda>replayed.
     case replayed of
       Some resp \<Rightarrow> and_then commit (\<lambda>_. and_then (emit (Finished 0)) (\<lambda>_. ok resp))
     | None \<Rightarrow>
         and_then (fits_password_column (xq_argon2id_hash r)) (\<lambda>_.
         and_then (lock_owner (xq_secret_hash r)) (\<lambda>_.
         and_then (spend (xq_secret_hash r)) (\<lambda>n.
         if n = 0 then unspent k r else redeemed k r))))))"

section \<open>Guarantees\<close>

lemma step_insert_for: "insert_for P b e eid r secs t d = Inr (n, d') \<Longrightarrow> step_ok d d'"
  by (auto simp: insert_for_def new_enrolment_def hist.R_refl split: option.splits sum.splits
      dest: step_ins_enrolment)

lemmas enrolment_inserts = ORDINARY_def REVOKE_INSERT_def DEMAND_INSERT_def statement_def

lemma keeps_insert_for [keeps_any]:
  "hist.keeps (\<lambda>_. True) (stmt_map h (insert_for P b e eid r secs)) (\<lambda>_ _. True)"
  by (rule keeps_stmt_map_any) (rule step_insert_for)

lemma keeps_demand_refuse [keeps_any]: "hist.keeps (\<lambda>_. True) (demand_refuse x) (\<lambda>_ _. True)"
  unfolding demand_refuse_def Let_def
  by (auto intro!: keeps_any keeps_stmt_try_any simp: hist.R_refl split: option.split)

lemma keeps_declared_predicate [keeps_any]:
  "hist.keeps (\<lambda>_. True) (declared_predicate x) (\<lambda>_ _. True)"
  unfolding declared_predicate_def by (auto intro!: keeps_any)

lemma keeps_declared_mint [keeps_any]: "hist.keeps (\<lambda>_. True) (declared_mint r eid secs) (\<lambda>_ _. True)"
  unfolding declared_mint_def enrolment_inserts by (auto intro!: keeps_any split: sum.split)

lemma keeps_sensor [keeps_any]: "hist.keeps (\<lambda>_. True) (idempotency_sensor r) (\<lambda>_ _. True)"
  unfolding idempotency_sensor_def by (auto intro!: keeps_any split: option.split)

lemma keeps_declared_issue [keeps_any]: "hist.keeps (\<lambda>_. True) (declared_issue r secs) (\<lambda>_ _. True)"
  unfolding declared_issue_def Let_def by (auto intro!: keeps_any)

lemma keeps_mint_enrolment [keeps_any]: "hist.keeps (\<lambda>_. True) (mint_enrolment r rid) (\<lambda>_ _. True)"
  unfolding mint_enrolment_def Let_def enrolment_inserts
  by (auto intro!: keeps_any split: option.split sum.split)

lemma keeps_replay [keeps_any]: "hist.keeps (\<lambda>_. True) (replay k h l) (\<lambda>_ _. True)"
  unfolding replay_def by (auto intro!: keeps_any split: option.split)

lemma keeps_lock_owner [keeps_any]: "hist.keeps (\<lambda>_. True) (lock_owner h) (\<lambda>_ _. True)"
  unfolding lock_owner_def by (auto intro!: keeps_any split: option.split)

lemma keeps_unspent [keeps_any]: "hist.keeps (\<lambda>_. True) (unspent k r) (\<lambda>_ _. True)"
  unfolding unspent_def unredeemable_def by (auto intro!: keeps_any split: option.split)

text \<open>The enrolment just spent, as the later statements of the transaction still see it.\<close>

definition spent_in :: "bytes \<Rightarrow> db \<Rightarrow> bool" where
  "spent_in h d \<longleftrightarrow> (\<exists>n \<in> set (iam_enrolment d). e_secret_hash n = h \<and> e_spent_at n \<noteq> None)"

definition on_record :: "enrolment_row \<Rightarrow> db \<Rightarrow> bool" where
  "on_record a d \<longleftrightarrow> (\<exists>n \<in> set (iam_enrolment d). enrolment_evolves a n)"

lemma stable_spent_in: "hist.stable (spent_in h)"
proof -
  have "spent_in h b" if "step_ok a b" and "spent_in h a" for a b
  proof -
    from that(2) obtain n where n: "n \<in> set (iam_enrolment a)" "e_secret_hash n = h" "e_spent_at n \<noteq> None"
      by (auto simp: spent_in_def)
    with that(1) obtain m where "m \<in> set (iam_enrolment b)" "enrolment_evolves n m"
      unfolding step_ok_def evolves_def rows_evolve_def by blast
    with n show ?thesis by (auto simp: spent_in_def enrolment_evolves_def intro!: bexI [of _ m])
  qed
  then show ?thesis by (simp add: hist.stable_def)
qed

lemma stable_on_record: "hist.stable (on_record a)"
proof -
  have "on_record a y" if "step_ok x y" and "on_record a x" for x y
    using that enrolment_evolves_trans unfolding on_record_def step_ok_def evolves_def rows_evolve_def
    by blast
  then show ?thesis by (simp add: hist.stable_def)
qed

lemma spend_spends:
  assumes "spend_stm h t d = Inr (n, d')"
  shows "step_ok d d' \<and> (n \<noteq> 0 \<longrightarrow> spent_in h d')"
proof -
  let ?P = "\<lambda>m. spendable h t d m \<and> e_spent_at m = None \<and> e_voided_at m = None"
  from assms have n: "n = cnt ?P (iam_enrolment d)"
    and d': "d' = d\<lparr>iam_enrolment := upd ?P (\<lambda>n. n\<lparr>e_spent_at := Some t\<rparr>) (iam_enrolment d)\<rparr>"
    by (auto simp: spend_stm_def Let_def)
  have "spent_in h d'" if "n \<noteq> 0"
  proof -
    from that n have "0 < cnt ?P (iam_enrolment d)" by simp
    then obtain m where "m \<in> set (iam_enrolment d)" "?P m" unfolding cnt_pos by blast
    then have "m\<lparr>e_spent_at := Some t\<rparr> \<in> set (iam_enrolment d')" and "e_secret_hash m = h"
      unfolding d' by (auto simp: set_upd spendable_def image_iff intro!: bexI [of _ m])
    then show ?thesis
      unfolding spent_in_def by (intro bexI [of _ "m\<lparr>e_spent_at := Some t\<rparr>"]) simp_all
  qed
  moreover have "step_ok d d'" unfolding d' by (rule step_spend)
  ultimately show ?thesis by simp
qed

lemma keeps_spend: "hist.keeps (\<lambda>_. True) (spend h) (\<lambda>n d. n \<noteq> 0 \<longrightarrow> spent_in h d)"
  unfolding spend_def by (rule hist.keeps_stmt [OF hist.stable_True]) (use spend_spends in blast)

lemma secret_unique:
  assumes "store_ok d" and "n \<in> set (iam_enrolment d)" and "m \<in> set (iam_enrolment d)"
    and "e_secret_hash n = e_secret_hash m"
  shows "n = m"
  using assms by (auto simp: store_ok_def enrolments_ok_def distinct_map inj_on_def)

lemma redeemed_row_spent:
  assumes "store_ok d" and "spent_in h d" and "redeemed_row h d = Some (n, u)"
  shows "e_spent_at n \<noteq> None \<and> e_secret_hash n = h \<and> on_record n d"
proof -
  from assms(3) have n: "n \<in> set (iam_enrolment d)" "e_secret_hash n = h"
    unfolding redeemed_row_def by (auto dest!: fetch_optional_filter)
  moreover from assms(1,2) n have "e_spent_at n \<noteq> None"
    unfolding spent_in_def using secret_unique by metis
  moreover from n(1) have "on_record n d" unfolding on_record_def using row_evolves_refl(3) by blast
  ultimately show ?thesis by simp
qed

lemma step_ledger:
  assumes "ledger_stm k h (e_id n) (e_user_id n) q t d = Inr (x, d')"
    and "on_record n d" and "e_spent_at n \<noteq> None" and "e_secret_hash n = h"
    and "epoch_from (e_user_id n) q d"
  shows "step_ok d d'"
proof -
  from assms(2) obtain m where "m \<in> set (iam_enrolment d)" "enrolment_evolves n m"
    by (auto simp: on_record_def)
  with assms(3,4) have "\<exists>m \<in> set (iam_enrolment d). spent_as \<lparr>rd_key = k, rd_secret_hash = h,
      rd_enrolment_id = e_id n, rd_user_id = e_user_id n, rd_epoch = q\<rparr> m"
    by (intro bexI [of _ m]) (auto simp: spent_as_def enrolment_evolves_def)
  moreover have "epoch_reached (iam_user d) \<lparr>rd_key = k, rd_secret_hash = h,
      rd_enrolment_id = e_id n, rd_user_id = e_user_id n, rd_epoch = q\<rparr>"
    using assms(5) by (intro epoch_from_reached) simp
  ultimately show ?thesis using assms(1)
    by (auto simp: ledger_stm_def split: sum.splits intro: step_ins_redemption)
qed

lemma keeps_redeemed:
  assumes fits: "length (xq_argon2id_hash r) \<le> 255"
  shows "hist.keeps (spent_in (xq_secret_hash r)) (redeemed k r)
    (\<lambda>resp. epoch_from (xr_user_id resp) (xr_credential_epoch resp))"
proof -
  let ?h = "xq_secret_hash r"
  define S where "S n d \<longleftrightarrow> on_record n d \<and> (e_spent_at n \<noteq> None \<and> e_secret_hash n = ?h)" for n d
  define T where "T n q d \<longleftrightarrow> S n d \<and> epoch_from (e_user_id n) q d" for n q d
  have S: "hist.stable (S n)" for n
    unfolding S_def by (intro hist.stable_conj stable_on_record hist.stable_pure)
  have T: "hist.stable (T n q)" for n q
    unfolding T_def by (intro hist.stable_conj S stable_epoch_from)
  have row: "hist.keeps (spent_in ?h) (fetch_one (redeemed_row ?h)) (\<lambda>x. S (fst x))"
    by (rule hist.keeps_fetch_one [OF stable_spent_in]) (auto dest: redeemed_row_spent simp: S_def)
  have cur: "hist.keeps (S n) (current (e_user_id n)) (T n)" for n
    using keeps_current_epoch [OF S] by (simp add: T_def [abs_def])
  have pw: "hist.keeps (T n q) (stmt (ups_password_stm (e_user_id n) (xq_argon2id_hash r))) (\<lambda>_. T n q)" for n q
    by (rule hist.keeps_stmt [OF T])
       (metis ups_password_stm_def step_ups_password [OF _ fits] stableD [OF T])
  have led: "hist.keeps (T n q) (if k \<noteq> [] then stmt (ledger_stm k ?h (e_id n) (e_user_id n) q) else ok ())
      (\<lambda>_. T n q)" for n q
  proof -
    have "hist.keeps (T n q) (stmt (ledger_stm k ?h (e_id n) (e_user_id n) q)) (\<lambda>_. T n q)"
    proof (rule hist.keeps_stmt [OF T])
      fix t d y d'
      assume a: "store_ok d" "T n q d" "ledger_stm k ?h (e_id n) (e_user_id n) q t d = Inr (y, d')"
      then have "step_ok d d'" using step_ledger [OF a(3)] by (simp add: T_def S_def)
      with a stableD [OF T] show "step_ok d d' \<and> T n q d'" by blast
    qed
    then show ?thesis by (auto intro!: hist.keeps_ok)
  qed
  have rev: "hist.keeps (T n q) (if e_revoke_existing n
       then and_then (revoke_every (e_user_id n)) (\<lambda>_. void (e_user_id n)) else ok 0) (\<lambda>_. T n q)" for n q
    by (auto intro!: hist.keeps_and_then [where Q = "\<lambda>_. T n q"] keeps_revoke_every keeps_void T hist.keeps_ok)
  show ?thesis unfolding redeemed_def
    by (rule hist.keeps_and_then [OF row], simp only: split_paired_all split fst_conv,
        rule hist.keeps_and_then [OF keeps_bump_stable [OF S]],
        rule hist.keeps_and_then [OF cur], rule hist.keeps_and_then [OF rev],
        rule hist.keeps_and_then [OF pw], rule hist.keeps_and_then [OF led],
        rule hist.keeps_and_then [OF hist.keeps_commit_stable [OF T]],
        rule hist.keeps_and_then [OF hist.keeps_emit], rule hist.keeps_ok) (simp add: T_def)
qed

lemma keeps_redeem [keeps_any]: "hist.keeps (\<lambda>_. True) (redeem r) (\<lambda>_ _. True)"
proof -
  let ?h = "xq_secret_hash r"
  have go: "hist.keeps (\<lambda>d. n \<noteq> 0 \<longrightarrow> spent_in ?h d) (if n = 0 then unspent k r else redeemed k r) (\<lambda>_ _. True)"
    if "length (xq_argon2id_hash r) \<le> 255" for k and n :: nat
  proof (cases "n = 0")
    case True
    then show ?thesis using keeps_unspent by simp
  next
    case False
    then show ?thesis using hist.keeps_weaken [OF keeps_redeemed [OF that, of k]] by simp
  qed
  have tail: "hist.keeps (\<lambda>_. True) (and_then (fits_password_column (xq_argon2id_hash r)) (\<lambda>_.
      and_then (lock_owner ?h) (\<lambda>_. and_then (spend ?h) (\<lambda>n. if n = 0 then unspent k r else redeemed k r))))
      (\<lambda>_ _. True)" for k
  proof (cases "length (xq_argon2id_hash r) \<le> 255")
    case True
    then show ?thesis by (intro keeps_seq keeps_any hist.keeps_and_then [OF keeps_spend] go) auto
  next
    case False
    then show ?thesis
      by (auto simp: fits_password_column_def MAX_ARGON2ID_HASH_def hist.keeps_def and_then_def fail_def)
  qed
  show ?thesis unfolding redeem_def Let_def
    by (auto intro!: keeps_any tail split: option.split)
qed

end
