(* ===== verification/Setting.thy ===== *)
theory Setting
  imports Credential
begin

text \<open>
  \<open>SetInheritedSetting\<close> (\<open>src/src/service/setting.rs\<close>): what a request means
  (\<open>setting/inherited.rs\<close>), the ledger of its idempotency keys (\<open>setting/claim.rs\<close>), and the write at
  the level the request names, recorded and read back in one transaction. The enumerations are those
  of \<open>src/proto/yadgar/common/v1/common.proto\<close>.
\<close>

section \<open>The request\<close>

record setting_request =
  iq_scope :: int
  iq_team_id :: "string option"
  iq_name :: string
  iq_value :: "int option"
  iq_locked :: "bool option"
  iq_clear :: bool
  iq_idempotency :: "string option"
  iq_actor :: "string option"

datatype setting_scope = ScopeUnspecified | ScopeOrg | ScopeTeam

definition scope_of :: "int \<Rightarrow> setting_scope option" where
  "scope_of n = (if n = 0 then Some ScopeUnspecified else if n = 1 then Some ScopeOrg
     else if n = 2 then Some ScopeTeam else None)"

fun scope_name :: "setting_scope \<Rightarrow> string" where
  "scope_name ScopeUnspecified = ''SETTING_SCOPE_UNSPECIFIED''"
| "scope_name ScopeOrg = ''SETTING_SCOPE_ORG''"
| "scope_name ScopeTeam = ''SETTING_SCOPE_TEAM''"

text \<open>The clauses, in the order they are tried; each is \<open>INVALID_ARGUMENT\<close> with its own sentence.\<close>

definition invalid :: "string \<Rightarrow> 'a result" where
  "invalid m = Inl (Status INVALID_ARGUMENT m)"

definition check_level :: "setting_request \<Rightarrow> setting_scope \<Rightarrow> unit result" where
  "check_level r scope = (case scope of
     ScopeUnspecified \<Rightarrow> invalid ''scope is required: a write addresses the organisation's level or one team's, and neither is the default''
   | ScopeOrg \<Rightarrow>
       if iq_team_id r \<noteq> None then invalid ''a team id at organisation scope is a request that meant team scope; there is one organisation and it is not named''
       else if iq_locked r = None then invalid ''locked is required at organisation scope: it has no safe default, and an unstated lock is the permissive half of a policy nobody chose''
       else if iq_clear r then invalid ''the organisation's value cannot be cleared: it always holds one, and a deployment changes it by stating the other value''
       else Inr ()
   | ScopeTeam \<Rightarrow>
       if \<not> (case iq_team_id r of None \<Rightarrow> False | Some t \<Rightarrow> t \<noteq> []) then invalid ''a team id is required at team scope: nothing else names the override to write''
       else if iq_locked r \<noteq> None then invalid ''locked is meaningful at organisation scope only: a team cannot state whether teams may override''
       else Inr ())"

definition check_inherited_setting :: "setting_request \<Rightarrow> setting_scope result" where
  "check_inherited_setting r = (case scope_of (iq_scope r) of
     None \<Rightarrow> invalid ''scope names no level this contract declares; there are two, an organisation and a team''
   | Some scope \<Rightarrow> (case check_level r scope of
       Inl s \<Rightarrow> Inl s
     | Inr _ \<Rightarrow>
         if iq_value r = Some 0 then invalid ''value was sent unspecified: that is what an unpopulated field looks like, and it is never read as a value or as a withdrawal''
         else if iq_value r = None \<and> \<not> iq_clear r then invalid ''value is required unless clear is set: a request that states neither says nothing at all''
         else if iq_clear r \<and> iq_value r \<noteq> None then invalid ''clear and value contradict each other: withdraw the override or state one, never both in the same request''
         else if iq_name r \<noteq> OWNER_READS_OWN_RECORD then invalid ''name is not a setting this contract declares; the vocabulary is closed and adding to it is a contract release''
         else Inr scope))"

text \<open>Present and not empty once the request is checked.\<close>

definition team_id_of :: "setting_request \<Rightarrow> string" where
  "team_id_of r = the (iq_team_id r)"

definition setting_target :: "env \<Rightarrow> setting_request \<Rightarrow> string" where
  "setting_target e r =
     (case scope_of (iq_scope r) of Some s \<Rightarrow> scope_name s | None \<Rightarrow> dec_int (iq_scope r)) @ ''/'' @
     seg e (case iq_team_id r of None \<Rightarrow> [] | Some t \<Rightarrow> t) @ ''/'' @ seg e (iq_name r)"

section \<open>The claim\<close>

text \<open>What a request asked for, under its key: a row of \<open>iam_inherited_setting_write\<close>.\<close>

type_synonym claim = setting_write_row

definition claim_of :: "setting_request \<Rightarrow> claim" where
  "claim_of r = \<lparr>sw_key = (case iq_idempotency r of None \<Rightarrow> [] | Some k \<Rightarrow> k),
     sw_scope = iq_scope r, sw_team_id = iq_team_id r, sw_name = iq_name r, sw_value = iq_value r,
     sw_locked = iq_locked r, sw_clear = iq_clear r\<rparr>"

definition payload :: "claim \<Rightarrow> int \<times> string option \<times> string \<times> int option \<times> bool option \<times> bool" where
  "payload c = (sw_scope c, sw_team_id c, sw_name c, sw_value c, sw_locked c, sw_clear c)"

definition different_request :: status where
  "different_request = Status INVALID_ARGUMENT ''this idempotency key was used with a different request; a repeated key carrying a different payload is refused rather than replayed''"

definition agrees_with :: "claim \<Rightarrow> claim \<Rightarrow> unit act" where
  "agrees_with c prior = (if payload c = payload prior then ok () else fail different_request)"

definition find_claim :: "string \<Rightarrow> db \<Rightarrow> claim option" where
  "find_claim k d = map_option (\<lambda>c. c\<lparr>sw_key := k\<rparr>)
     (fetch_optional (filter (\<lambda>c. sql_eq (sw_key c) k) (iam_inherited_setting_write d)))"

definition recorded :: "string \<Rightarrow> locking \<Rightarrow> claim option act" where
  "recorded k l = select_lock (locked_if l [Exclusive (SettingWriteRow (text_key k))]) (\<lambda>t d. find_claim k d)"

definition already_recorded :: "claim \<Rightarrow> bool act" where
  "already_recorded c =
     (if sw_key c = [] then ok False
      else and_then (recorded (sw_key c) NoLock) (\<lambda>prior.
        case prior of
          None \<Rightarrow> ok False
        | Some p \<Rightarrow> and_then (agrees_with c p) (\<lambda>_. ok True)))"

definition claim_stm :: "claim \<Rightarrow> unit stm" where
  "claim_stm c t d = (case ins_setting_write c d of Inl err \<Rightarrow> Inl err | Inr d' \<Rightarrow> Inr ((), d'))"

definition record_claim :: "claim \<Rightarrow> unit act" where
  "record_claim c =
     (if sw_key c = [] then ok ()
      else and_then (stmt_try (claim_stm c)) (\<lambda>res.
        case res of
          Inr _ \<Rightarrow> ok ()
        | Inl EngineError \<Rightarrow> fail db_error
        | Inl (UniqueViolation _) \<Rightarrow>
            and_then (recorded (sw_key c) YesLock) (\<lambda>prior.
            case prior of
              None \<Rightarrow> fail db_error
            | Some p \<Rightarrow> agrees_with c p)))"

section \<open>The write\<close>

definition org_stm :: "setting_request \<Rightarrow> nat stm" where
  "org_stm r t d = ups_org_setting
     \<lparr>os_name = iq_name r, os_value = the (iq_value r), os_locked = the (iq_locked r)\<rparr> d"

definition override_row :: "setting_request \<Rightarrow> team_override_row \<Rightarrow> bool" where
  "override_row r s \<longleftrightarrow> sql_eq (to_name s) (iq_name r) \<and> sql_eq (to_team_id s) (team_id_of r)"

definition clear_override_stm :: "setting_request \<Rightarrow> nat stm" where
  "clear_override_stm r t d =
     Inr (cnt (override_row r) (iam_team_setting_override d),
          d\<lparr>iam_team_setting_override := del (override_row r) (iam_team_setting_override d)\<rparr>)"

definition set_override_stm :: "setting_request \<Rightarrow> nat stm" where
  "set_override_stm r t d =
     (case find_live_team d (team_id_of r) of
        None \<Rightarrow> Inr (0, d)
      | Some tm \<Rightarrow> ups_team_override
          \<lparr>to_name = iq_name r, to_team_id = t_id tm, to_value = the (iq_value r)\<rparr> d)"

definition set_team_override :: "setting_request \<Rightarrow> nat act" where
  "set_team_override r =
     and_then (stmt (set_override_stm r)) (\<lambda>rows.
     and_then (if rows = 0 then live_team select (team_id_of r) else ok ()) (\<lambda>_. ok rows))"

definition write_at_scope :: "setting_request \<Rightarrow> setting_scope \<Rightarrow> nat act" where
  "write_at_scope r scope = (case scope of
     ScopeOrg \<Rightarrow> stmt (org_stm r)
   | ScopeTeam \<Rightarrow> if iq_clear r then stmt (clear_override_stm r) else set_team_override r
   | ScopeUnspecified \<Rightarrow>
       refuse_call (Status INVALID_ARGUMENT ''scope names no level this contract declares'') INVALID_ARGUMENT)"

definition read_inherited_setting :: "string \<Rightarrow> inherited_setting act" where
  "read_inherited_setting name =
     and_then (select (\<lambda>t d. org_row name d)) (\<lambda>org.
     and_then (select (\<lambda>t d. override_map name d)) (\<lambda>ts.
     ok \<lparr>org_value = fst org, org_locked = snd org, team_override = ts\<rparr>))"

definition answer :: "string \<Rightarrow> nat \<Rightarrow> inherited_setting act" where
  "answer name rows =
     and_then (read_inherited_setting name) (\<lambda>s.
     and_then commit (\<lambda>_.
     and_then (emit (Finished rows)) (\<lambda>_. ok s)))"

definition store_setting :: "setting_request \<Rightarrow> string \<Rightarrow> inherited_setting act" where
  "store_setting r rid = ask (\<lambda>e.
     and_then (record_actor rid (iq_actor r) ''SetInheritedSetting'' (setting_target e r)) (\<lambda>_.
     case check_inherited_setting r of
       Inl s \<Rightarrow> refuse_call s (code_of s)
     | Inr scope \<Rightarrow>
         and_then acquire (\<lambda>_.
         and_then (begin_tx ReadCommitted) (\<lambda>_.
         let claim = claim_of r in
         and_then (already_recorded claim) (\<lambda>done.
         if done then answer (iq_name r) 0
         else
           and_then (write_at_scope r scope) (\<lambda>rows.
           and_then (record_claim claim) (\<lambda>_.
           answer (iq_name r) (as_u32 rows))))))))"

section \<open>Guarantees\<close>

lemma step_clear_override: "clear_override_stm r t d = Inr (n, d') \<Longrightarrow> step_ok d d'"
  by (auto simp: clear_override_stm_def store_ok_def settings_ok_def set_del
      intro!: step_team_overrides distinct_map_del)

lemma step_set_override: "set_override_stm r t d = Inr (n, d') \<Longrightarrow> step_ok d d'"
  by (auto simp: set_override_stm_def hist.R_refl split: option.splits dest: step_ups_team_override)

lemma step_claim: "claim_stm c t d = Inr (n, d') \<Longrightarrow> sw_key c \<noteq> [] \<Longrightarrow> step_ok d d'"
  by (auto simp: claim_stm_def split: sum.splits dest: step_ins_setting_write)

lemma keeps_org [keeps_any]: "hist.keeps (\<lambda>_. True) (stmt (org_stm r)) (\<lambda>_ _. True)"
  by (rule keeps_stmt_any) (auto simp: org_stm_def dest: step_ups_org_setting)

lemma keeps_override [keeps_any]:
  "hist.keeps (\<lambda>_. True) (stmt (clear_override_stm r)) (\<lambda>_ _. True)"
  "hist.keeps (\<lambda>_. True) (stmt (set_override_stm r)) (\<lambda>_ _. True)"
  by (rule keeps_stmt_any, erule step_clear_override) (rule keeps_stmt_any, erule step_set_override)

lemma keeps_agrees [keeps_any]: "hist.keeps (\<lambda>_. True) (agrees_with c p) (\<lambda>_ _. True)"
  unfolding agrees_with_def by (auto intro!: keeps_any)

lemma keeps_recorded [keeps_any]: "hist.keeps (\<lambda>_. True) (recorded k l) (\<lambda>_ _. True)"
  unfolding recorded_def by (auto intro!: keeps_any)

lemma keeps_already_recorded [keeps_any]: "hist.keeps (\<lambda>_. True) (already_recorded c) (\<lambda>_ _. True)"
  unfolding already_recorded_def by (auto intro!: keeps_any split: option.split)

lemma keeps_record_claim [keeps_any]: "hist.keeps (\<lambda>_. True) (record_claim c) (\<lambda>_ _. True)"
  unfolding record_claim_def
  by (auto intro!: keeps_any keeps_stmt_try_any split: option.split sum.split sql_error.split dest: step_claim)

lemma keeps_write_at_scope [keeps_any]: "hist.keeps (\<lambda>_. True) (write_at_scope r s) (\<lambda>_ _. True)"
  unfolding write_at_scope_def set_team_override_def by (auto intro!: keeps_any split: setting_scope.split)

lemma keeps_answer [keeps_any]: "hist.keeps (\<lambda>_. True) (answer name n) (\<lambda>_ _. True)"
  unfolding answer_def read_inherited_setting_def by (auto intro!: keeps_any)

lemma keeps_store_setting [keeps_any]: "hist.keeps (\<lambda>_. True) (store_setting r rid) (\<lambda>_ _. True)"
  unfolding store_setting_def Let_def by (auto intro!: keeps_any split: sum.split)

end
