(* ===== verification/Identity.thy ===== *)
theory Identity
  imports Team
begin

text \<open>
  Who exists (\<open>src/src/service/identity.rs\<close> and \<open>identity/bootstrap.rs\<close>): creating a person by a
  minted id, the bootstrap creation of a declared administrator by a pre-minted id, and the two
  retired membership verbs.
\<close>

section \<open>Definitions\<close>

record create_user_request =
  nq_user_id :: string
  nq_blind_index :: bytes
  nq_external_ct :: bytes
  nq_display_ct :: bytes
  nq_is_admin :: bool
  nq_actor :: "string option"

record meta =
  mt_id :: string
  mt_version :: nat

definition BOOTSTRAP_CREATE_REFUSED :: string where
  "BOOTSTRAP_CREATE_REFUSED = ''yadgar_iamdb_bootstrap_create_refused_total''"
definition CREATE_REFUSAL :: string where
  "CREATE_REFUSAL = ''the bootstrap create-user predicate refused''"
definition USER_ID_TAKEN :: string where "USER_ID_TAKEN = ''that user id is taken''"

definition user_conflict :: "sql_error \<Rightarrow> status" where
  "user_conflict err = (case err of
       UniqueViolation k \<Rightarrow> Status ALREADY_EXISTS
         (if k = PRIMARY then USER_ID_TAKEN else ''a user with that name already exists'')
     | EngineError \<Rightarrow> db_error)"

definition new_user :: "create_user_request \<Rightarrow> string \<Rightarrow> bool \<Rightarrow> time \<Rightarrow> user_row" where
  "new_user r x admin t = \<lparr>u_id = x, u_version = 1, u_created_by = ''system'', u_updated_by = ''system'',
     u_created_at = t, u_deleted_at = None, u_blind_index = nq_blind_index r,
     u_external_ct = nq_external_ct r, u_display_ct = nq_display_ct r, u_is_admin = admin,
     u_epoch = 0\<rparr>"

definition insert_user_stm :: "create_user_request \<Rightarrow> string \<Rightarrow> bool \<Rightarrow> unit stm" where
  "insert_user_stm r x admin t d =
     (case ins_user (new_user r x admin t) d of Inl err \<Rightarrow> Inl err | Inr d' \<Rightarrow> Inr ((), d'))"

datatype step = StepNoAdministratorsTeam | StepAdministratorExists | StepNotDeclared

fun step_label :: "step \<Rightarrow> string" where
  "step_label StepNoAdministratorsTeam = ''no_administrators_team''"
| "step_label StepAdministratorExists = ''administrator_exists''"
| "step_label StepNotDeclared = ''not_declared''"

definition pending_for :: "string \<Rightarrow> db \<Rightarrow> pending_row option" where
  "pending_for x d = fetch_optional (filter (\<lambda>p. sql_eq (pd_team_id p) ADMINISTRATORS \<and>
     sql_eq (pd_user_id p) x) (iam_team_member_pending d))"

definition bootstrap_predicate :: "string \<Rightarrow> (step + unit) act" where
  "bootstrap_predicate x =
     and_then lock_administrators (\<lambda>team.
     if team \<noteq> Some True then ok (Inl StepNoAdministratorsTeam)
     else
       and_then live_administrators (\<lambda>n.
       if 0 < n then ok (Inl StepAdministratorExists)
       else
         and_then (select (\<lambda>t d. find_user d x)) (\<lambda>taken.
         if taken \<noteq> None then fail (Status ALREADY_EXISTS USER_ID_TAKEN)
         else
           and_then (select (\<lambda>t d. pending_for x d)) (\<lambda>declared.
           ok (if declared = None then Inl StepNotDeclared else Inr ())))))"

definition bootstrap_refuse :: "step \<Rightarrow> 'a act" where
  "bootstrap_refuse s =
     and_then (emit (Counter BOOTSTRAP_CREATE_REFUSED (step_label s))) (\<lambda>_.
     refuse_call (Status PERMISSION_DENIED CREATE_REFUSAL) PERMISSION_DENIED)"

definition add_admin_stm :: "string \<Rightarrow> unit stm" where
  "add_admin_stm x t d =
     (case ins_member \<lparr>m_team_id = ADMINISTRATORS, m_user_id = x, m_added_by = ''system''\<rparr> d of
        Inl err \<Rightarrow> Inl err | Inr d' \<Rightarrow> Inr ((), d'))"

definition clear_pending_stm :: "nat stm" where
  "clear_pending_stm t d =
     (let P = (\<lambda>p. sql_eq (pd_team_id p) ADMINISTRATORS) in
      Inr (cnt P (iam_team_member_pending d),
           d\<lparr>iam_team_member_pending := del P (iam_team_member_pending d)\<rparr>))"

definition insert_declared_user :: "create_user_request \<Rightarrow> string \<Rightarrow> meta act" where
  "insert_declared_user r rid = ask (\<lambda>e.
     and_then (record_actor rid (nq_actor r) ''CreateUser'' (seg e (nq_user_id r))) (\<lambda>_.
     if \<not> canonical_user_id (nq_user_id r)
     then refuse_call (Status INVALID_ARGUMENT
       (''user_id must be '' @ debug_str USER_PREFIX @ '' followed by a lowercase canonical uuidv7'')) INVALID_ARGUMENT
     else
       and_then acquire (\<lambda>_.
       and_then (begin_tx ReadCommitted) (\<lambda>_.
       and_then (bootstrap_predicate (nq_user_id r)) (\<lambda>verdict.
       case verdict of
         Inl s \<Rightarrow> and_then drop_tx (\<lambda>_. bootstrap_refuse s)
       | Inr _ \<Rightarrow>
           and_then (stmt_map user_conflict (insert_user_stm r (nq_user_id r) False)) (\<lambda>_.
           and_then (stmt (add_admin_stm (nq_user_id r))) (\<lambda>_.
           and_then (stmt clear_pending_stm) (\<lambda>_.
           and_then commit (\<lambda>_.
           and_then (emit (Finished 1)) (\<lambda>_.
           ok \<lparr>mt_id = nq_user_id r, mt_version = 1\<rparr>))))))))))"

definition insert_user :: "create_user_request \<Rightarrow> string \<Rightarrow> meta act" where
  "insert_user r rid =
     (if nq_user_id r \<noteq> [] then insert_declared_user r rid
      else ask (\<lambda>e.
        let x = ''yadgar:user:'' @ now_v7 e in
        and_then (record_actor rid (nq_actor r) ''CreateUser'' x) (\<lambda>_.
        and_then acquire (\<lambda>_.
        and_then (stmt_map user_conflict (insert_user_stm r x (nq_is_admin r))) (\<lambda>_.
        and_then (emit (Finished 1)) (\<lambda>_.
        ok \<lparr>mt_id = x, mt_version = 1\<rparr>))))))"

record member_request =
  mq_team_id :: string
  mq_user_id :: string
  mq_actor :: "string option"

definition teams_are_declared :: "'a act" where
  "teams_are_declared = refuse_call (Status FAILED_PRECONDITION ''teams are declared in GitOps: SyncTeams is the one writer of team membership, and AddTeamMember and RemoveTeamMember are retired (ADR-0963 (7))'') FAILED_PRECONDITION"

definition add_member :: "member_request \<Rightarrow> string \<Rightarrow> unit act" where
  "add_member r rid = ask (\<lambda>e.
     and_then (record_actor rid (mq_actor r) ''AddTeamMember'' (seg e (mq_team_id r) @ ''/'' @ seg e (mq_user_id r))) (\<lambda>_.
     teams_are_declared))"

definition remove_member :: "member_request \<Rightarrow> string \<Rightarrow> unit act" where
  "remove_member r rid = ask (\<lambda>e.
     and_then (record_actor rid (mq_actor r) ''RemoveTeamMember'' (seg e (mq_team_id r) @ ''/'' @ seg e (mq_user_id r))) (\<lambda>_.
     teams_are_declared))"

section \<open>Guarantees\<close>

lemma step_insert_user: "insert_user_stm r x b t d = Inr (n, d') \<Longrightarrow> step_ok d d'"
  by (auto simp: insert_user_stm_def new_user_def split: sum.splits dest!: step_ins_user)

lemma keeps_insert_user_stm [keeps_any]:
  "hist.keeps (\<lambda>_. True) (stmt_map h (insert_user_stm r x b)) (\<lambda>_ _. True)"
  by (rule keeps_stmt_map_any) (rule step_insert_user)

lemma keeps_add_admin [keeps_any]: "hist.keeps (\<lambda>_. True) (stmt (add_admin_stm x)) (\<lambda>_ _. True)"
  by (rule keeps_stmt_any) (auto simp: add_admin_stm_def split: sum.splits dest: step_ins_member)

lemma pending_ok_del: "pending_ok T ps \<Longrightarrow> pending_ok T (del P ps)"
  unfolding pending_ok_def set_del using distinct_map_del by blast

lemma step_del_pending: "step_ok d (d\<lparr>iam_team_member_pending := del P (iam_team_member_pending d)\<rparr>)"
  by (rule step_pending) (simp add: store_ok_def pending_ok_del)

lemma keeps_clear_pending [keeps_any]: "hist.keeps (\<lambda>_. True) (stmt clear_pending_stm) (\<lambda>_ _. True)"
  by (rule keeps_stmt_any) (auto simp: clear_pending_stm_def Let_def intro: step_del_pending)

lemma keeps_bootstrap_predicate [keeps_any]:
  "hist.keeps (\<lambda>_. True) (bootstrap_predicate x) (\<lambda>_ _. True)"
  unfolding bootstrap_predicate_def by (auto intro!: keeps_any)

lemma keeps_insert_declared_user [keeps_any]:
  "hist.keeps (\<lambda>_. True) (insert_declared_user r rid) (\<lambda>_ _. True)"
  unfolding insert_declared_user_def bootstrap_refuse_def by (auto intro!: keeps_any split: sum.split)

lemma keeps_insert_user [keeps_any]: "hist.keeps (\<lambda>_. True) (insert_user r rid) (\<lambda>_ _. True)"
  unfolding insert_user_def Let_def by (auto intro!: keeps_any)

lemma keeps_members [keeps_any]:
  "hist.keeps (\<lambda>_. True) (add_member q rid) (\<lambda>_ _. True)"
  "hist.keeps (\<lambda>_. True) (remove_member q rid) (\<lambda>_ _. True)"
  unfolding add_member_def remove_member_def teams_are_declared_def by (auto intro!: keeps_any)

end
