(* ===== verification/Sync.thy ===== *)
theory Sync
  imports Identity
begin

text \<open>
  \<open>SyncTeams\<close> (\<open>src/src/service/team/sync.rs\<close>): the organisation's whole team declaration validated,
  planned under the lockout guard and applied in one transaction. A \<open>BTreeMap\<close> is an association
  list in key order, a \<open>BTreeSet\<close> a sorted list without duplicates.
\<close>

section \<open>Messages\<close>

record declared_team =
  dt_name :: string
  dt_member_user_ids :: "string list"

record declared =
  de_id :: string
  de_name :: string
  de_members :: "string list"

datatype known = Absent | SoftDeleted | Live

record sync_response =
  sr_teams_inserted :: nat
  sr_teams_archived :: nat
  sr_teams_reactivated :: nat
  sr_members_added :: nat
  sr_members_removed :: nat
  sr_administrators_live_members :: nat
  sr_unknown_member_user_ids :: "string list"
  sr_pending_administrator_user_ids :: "string list"
  sr_changed_user_ids :: "string list"

definition empty_sync :: "nat \<Rightarrow> string list \<Rightarrow> sync_response" where
  "empty_sync live unknown = \<lparr>sr_teams_inserted = 0, sr_teams_archived = 0, sr_teams_reactivated = 0,
     sr_members_added = 0, sr_members_removed = 0, sr_administrators_live_members = live,
     sr_unknown_member_user_ids = unknown, sr_pending_administrator_user_ids = [],
     sr_changed_user_ids = []\<rparr>"

definition btree :: "string list \<Rightarrow> string list" where
  "btree xs = remdups (sort xs)"

section \<open>Validation\<close>

definition is_lower :: "char \<Rightarrow> bool" where
  "is_lower c \<longleftrightarrow> (97::nat) \<le> of_char c \<and> of_char c \<le> (122::nat)"

definition name_ok :: "string \<Rightarrow> bool" where
  "name_ok s \<longleftrightarrow> length s \<le> 63 \<and> (case s of [] \<Rightarrow> False | c # _ \<Rightarrow> is_lower c) \<and>
     list_all (\<lambda>c. is_lower c \<or> is_digit c \<or> c = CHR ''-'') s"

definition invalid_teams :: "string \<Rightarrow> status" where
  "invalid_teams m = Status INVALID_ARGUMENT m"

primrec validate_members :: "string \<Rightarrow> nat \<Rightarrow> string set \<Rightarrow> string list \<Rightarrow> unit result" where
  "validate_members name j seen [] = Inr ()"
| "validate_members name j seen (m # ms) =
     (if \<not> canonical_user_id m
      then Inl (invalid_teams (''teams['' @ name @ ''].member_user_ids['' @ dec j @ ''] must be '' @
        debug_str USER_PREFIX @ '' followed by a lowercase canonical uuidv7''))
      else if m \<in> seen
      then Inl (invalid_teams (''teams['' @ name @ ''].member_user_ids['' @ dec j @ ''] is declared twice''))
      else validate_members name (j + 1) (insert m seen) ms)"

primrec validate_from :: "nat \<Rightarrow> string set \<Rightarrow> declared_team list \<Rightarrow> declared list result" where
  "validate_from i names [] = Inr []"
| "validate_from i names (t # ts) =
     (if \<not> name_ok (dt_name t)
      then Inl (invalid_teams (''teams['' @ dec i @ ''].name must match ^[a-z][a-z0-9-]{0,62}$''))
      else if dt_name t \<in> names
      then Inl (invalid_teams (''teams['' @ dec i @ ''].name '' @ debug_str (dt_name t) @ '' is declared twice''))
      else (case validate_members (dt_name t) 0 {} (dt_member_user_ids t) of
          Inl s \<Rightarrow> Inl s
        | Inr _ \<Rightarrow> (case validate_from (i + 1) (insert (dt_name t) names) ts of
            Inl s \<Rightarrow> Inl s
          | Inr out \<Rightarrow> Inr (\<lparr>de_id = TEAM_PREFIX @ dt_name t, de_name = dt_name t,
                de_members = dt_member_user_ids t\<rparr> # out))))"

definition validate :: "declared_team list \<Rightarrow> declared list result" where
  "validate teams = validate_from 0 {} teams"

section \<open>The plan\<close>

definition known_of :: "db \<Rightarrow> string \<Rightarrow> known" where
  "known_of d m = (case find_user d m of
       None \<Rightarrow> Absent | Some u \<Rightarrow> if u_deleted_at u = None then Live else SoftDeleted)"

primrec known_from :: "string list \<Rightarrow> (string \<Rightarrow> known option) \<Rightarrow> (string \<Rightarrow> known option) act" where
  "known_from [] k = ok k"
| "known_from (m # ms) k =
     (if k m \<noteq> None then known_from ms k
      else and_then (select (\<lambda>t d. known_of d m)) (\<lambda>x. known_from ms (k(m \<mapsto> x))))"

definition known_users :: "declared list \<Rightarrow> (string \<Rightarrow> known option) act" where
  "known_users ds = known_from (concat (map de_members ds)) Map.empty"

definition admins_of :: "declared list \<Rightarrow> declared option" where
  "admins_of ds = fetch_optional (filter (\<lambda>t. de_id t = ADMINISTRATORS) ds)"

definition live_after :: "(string \<Rightarrow> known option) \<Rightarrow> declared list \<Rightarrow> nat" where
  "live_after k ds = (case admins_of ds of
       None \<Rightarrow> 0 | Some t \<Rightarrow> length (filter (\<lambda>m. k m = Some Live) (de_members t)))"

definition pending_of :: "(string \<Rightarrow> known option) \<Rightarrow> declared list \<Rightarrow> string list" where
  "pending_of k ds = (case admins_of ds of
       Some t \<Rightarrow> if live_after k ds = 0 then filter (\<lambda>m. k m = Some Absent) (de_members t) else []
     | None \<Rightarrow> [])"

primrec unknown_from :: "(string \<Rightarrow> known option) \<Rightarrow> string list \<Rightarrow> (string \<times> string) list \<Rightarrow> string list \<Rightarrow> string list" where
  "unknown_from k pend [] acc = acc"
| "unknown_from k pend (x # xs) acc =
     unknown_from k pend xs
       (if k (snd x) = Some Absent \<and> \<not> (fst x = ADMINISTRATORS \<and> snd x \<in> set pend) \<and> snd x \<notin> set acc
        then acc @ [snd x] else acc)"

definition unknown_of :: "(string \<Rightarrow> known option) \<Rightarrow> string list \<Rightarrow> declared list \<Rightarrow> string list" where
  "unknown_of k pend ds =
     unknown_from k pend (concat (map (\<lambda>t. map (Pair (de_id t)) (de_members t)) ds)) []"

section \<open>The writes\<close>

text \<open>The part of the response the writes fill, and the two sets they collect.\<close>

record tally =
  ta_resp :: sync_response
  ta_changed :: "string list"
  ta_reactivated :: "string list"

definition stored_teams :: "db \<Rightarrow> (string \<times> bool) list" where
  "stored_teams d = sort_key fst (map (\<lambda>t. (t_id t, t_deleted_at t \<noteq> None)) (iam_team d))"

definition name_conflict :: "declared \<Rightarrow> sql_error \<Rightarrow> status" where
  "name_conflict t err = (case err of
       UniqueViolation _ \<Rightarrow> Status FAILED_PRECONDITION
         (''a team named '' @ debug_str (de_name t) @ '' exists under an id other than '' @ debug_str (de_id t))
     | EngineError \<Rightarrow> db_error)"

definition insert_team_stm :: "declared \<Rightarrow> unit stm" where
  "insert_team_stm t s d =
     (case ins_team \<lparr>t_id = de_id t, t_version = 1, t_name = de_name t, t_created_by = ''system'',
             t_updated_by = ''system'', t_deleted_at = None\<rparr> d of
        Inl err \<Rightarrow> Inl err | Inr d' \<Rightarrow> Inr ((), d'))"

definition insert_team :: "declared \<Rightarrow> unit act" where
  "insert_team t = stmt_map (name_conflict t) (insert_team_stm t)"

text \<open>\<open>UPDATE iam_team SET deleted_at = ..., version = version + 1 WHERE id = ?\<close>\<close>

definition mark_team_stm :: "string \<Rightarrow> bool \<Rightarrow> nat stm" where
  "mark_team_stm x archive s d =
     (let P = (\<lambda>t. sql_eq (t_id t) x) in
      if list_all (\<lambda>t. P t \<longrightarrow> incr64 (t_version t) \<noteq> None) (iam_team d)
      then Inr (cnt P (iam_team d),
                d\<lparr>iam_team := upd P (\<lambda>t. t\<lparr>t_deleted_at := (if archive then Some s else None),
                                           t_version := t_version t + 1\<rparr>) (iam_team d)\<rparr>)
      else Inl EngineError)"

primrec write_declared :: "(string \<times> bool) list \<Rightarrow> declared list \<Rightarrow> tally \<Rightarrow> tally act" where
  "write_declared stored [] a = ok a"
| "write_declared stored (t # ts) a =
     and_then (case map_of stored (de_id t) of
         None \<Rightarrow> and_then (insert_team t) (\<lambda>_.
           ok (a\<lparr>ta_resp := (ta_resp a)\<lparr>sr_teams_inserted := sr_teams_inserted (ta_resp a) + 1\<rparr>\<rparr>))
       | Some True \<Rightarrow> and_then (stmt (mark_team_stm (de_id t) False)) (\<lambda>_.
           ok (a\<lparr>ta_resp := (ta_resp a)\<lparr>sr_teams_reactivated := sr_teams_reactivated (ta_resp a) + 1\<rparr>,
                 ta_reactivated := ta_reactivated a @ [de_id t]\<rparr>))
       | Some False \<Rightarrow> ok a) (\<lambda>a. write_declared stored ts a)"

definition member_ids :: "string \<Rightarrow> db \<Rightarrow> string list" where
  "member_ids x d = map m_user_id (filter (\<lambda>m. sql_eq (m_team_id m) x) (iam_team_member d))"

primrec archive_omitted :: "declared list \<Rightarrow> (string \<times> bool) list \<Rightarrow> tally \<Rightarrow> tally act" where
  "archive_omitted ds [] a = ok a"
| "archive_omitted ds (x # xs) a =
     and_then (if snd x \<or> fst x \<in> de_id ` set ds then ok a
       else and_then (stmt (mark_team_stm (fst x) True)) (\<lambda>_.
            and_then (select (\<lambda>t d. member_ids (fst x) d)) (\<lambda>ms.
            ok (a\<lparr>ta_resp := (ta_resp a)\<lparr>sr_teams_archived := sr_teams_archived (ta_resp a) + 1\<rparr>,
                  ta_changed := ta_changed a @ ms\<rparr>)))) (\<lambda>a. archive_omitted ds xs a)"

definition write_teams :: "declared list \<Rightarrow> tally \<Rightarrow> tally act" where
  "write_teams ds a =
     and_then (select (\<lambda>t d. stored_teams d)) (\<lambda>stored.
     and_then (write_declared stored ds a) (\<lambda>a. archive_omitted ds stored a))"

definition delete_member_stm :: "string \<Rightarrow> string \<Rightarrow> nat stm" where
  "delete_member_stm x m t d =
     (let P = (\<lambda>v. sql_eq (m_team_id v) x \<and> sql_eq (m_user_id v) m) in
      Inr (cnt P (iam_team_member d), d\<lparr>iam_team_member := del P (iam_team_member d)\<rparr>))"

definition insert_member_stm :: "string \<Rightarrow> string \<Rightarrow> unit stm" where
  "insert_member_stm x m t d =
     (case ins_member \<lparr>m_team_id = x, m_user_id = m, m_added_by = ''system''\<rparr> d of
        Inl err \<Rightarrow> Inl err | Inr d' \<Rightarrow> Inr ((), d'))"

primrec remove_members :: "string \<Rightarrow> string list \<Rightarrow> tally \<Rightarrow> tally act" where
  "remove_members x [] a = ok a"
| "remove_members x (m # ms) a =
     and_then (stmt (delete_member_stm x m)) (\<lambda>_.
     remove_members x ms (a\<lparr>ta_resp := (ta_resp a)\<lparr>sr_members_removed := sr_members_removed (ta_resp a) + 1\<rparr>,
       ta_changed := ta_changed a @ [m]\<rparr>))"

primrec add_members :: "string \<Rightarrow> string list \<Rightarrow> tally \<Rightarrow> tally act" where
  "add_members x [] a = ok a"
| "add_members x (m # ms) a =
     and_then (stmt (insert_member_stm x m)) (\<lambda>_.
     add_members x ms (a\<lparr>ta_resp := (ta_resp a)\<lparr>sr_members_added := sr_members_added (ta_resp a) + 1\<rparr>,
       ta_changed := ta_changed a @ [m]\<rparr>))"

definition write_members :: "declared \<Rightarrow> (string \<Rightarrow> known option) \<Rightarrow> tally \<Rightarrow> tally act" where
  "write_members t k a =
     and_then (select (\<lambda>s d. btree (member_ids (de_id t) d))) (\<lambda>current.
     let desired = btree (filter (\<lambda>m. k m \<noteq> Some Absent) (de_members t));
         a = (if de_id t \<in> set (ta_reactivated a) then a\<lparr>ta_changed := ta_changed a @ desired\<rparr> else a) in
     and_then (remove_members (de_id t) (filter (\<lambda>c. c \<notin> set desired) current) a) (\<lambda>a.
     add_members (de_id t) (filter (\<lambda>m. m \<notin> set current) desired) a))"

primrec write_all_members :: "declared list \<Rightarrow> (string \<Rightarrow> known option) \<Rightarrow> tally \<Rightarrow> tally act" where
  "write_all_members [] k a = ok a"
| "write_all_members (t # ts) k a = and_then (write_members t k a) (\<lambda>a. write_all_members ts k a)"

definition insert_pending_stm :: "string \<Rightarrow> unit stm" where
  "insert_pending_stm m t d =
     (case ins_pending \<lparr>pd_team_id = ADMINISTRATORS, pd_user_id = m\<rparr> d of
        Inl err \<Rightarrow> Inl err | Inr d' \<Rightarrow> Inr ((), d'))"

primrec insert_all_pending :: "string list \<Rightarrow> unit act" where
  "insert_all_pending [] = ok ()"
| "insert_all_pending (m # ms) = and_then (stmt (insert_pending_stm m)) (\<lambda>_. insert_all_pending ms)"

definition drop_pending_stm :: "nat stm" where
  "drop_pending_stm t d = Inr (length (iam_team_member_pending d), d\<lparr>iam_team_member_pending := []\<rparr>)"

definition replace_pending :: "string list \<Rightarrow> unit act" where
  "replace_pending pend = and_then (stmt drop_pending_stm) (\<lambda>_. insert_all_pending pend)"

section \<open>SyncTeams\<close>

definition lockout :: status where
  "lockout = Status FAILED_PRECONDITION ''the declaration would leave administrators with no live member (ADR-0963 (6) lockout guard); nothing was written''"

definition sync_lock :: "unit act" where
  "sync_lock = and_then (fetch_one (\<lambda>d. if iam_team_sync_lock d then Some (1::nat) else None)) (\<lambda>_ e w.
     (Inr (), hold [Exclusive TeamSyncRow] w))"

definition sync_rows :: "sync_response \<Rightarrow> nat" where
  "sync_rows r = sr_teams_inserted r + sr_teams_archived r + sr_teams_reactivated r +
     sr_members_added r + sr_members_removed r"

definition sync_teams :: "declared_team list \<Rightarrow> sync_response act" where
  "sync_teams teams = (case validate teams of
     Inl s \<Rightarrow> refuse_call s INVALID_ARGUMENT
   | Inr ds \<Rightarrow>
       and_then acquire (\<lambda>_.
       and_then (begin_tx ReadCommitted) (\<lambda>_.
       and_then sync_lock (\<lambda>_.
       and_then lock_administrators (\<lambda>_.
       and_then live_administrators (\<lambda>live_before.
       and_then (known_users ds) (\<lambda>k.
       let after = live_after k ds; pend = pending_of k ds in
       if 0 < live_before \<and> after = 0 then refuse_call lockout FAILED_PRECONDITION
       else
         and_then (write_teams ds \<lparr>ta_resp = empty_sync (sat_u32 after) (unknown_of k pend ds),
                     ta_changed = [], ta_reactivated = []\<rparr>) (\<lambda>a.
         and_then (write_all_members ds k a) (\<lambda>a.
         and_then (replace_pending pend) (\<lambda>_.
         let resp = (ta_resp a)\<lparr>sr_pending_administrator_user_ids := pend,
                       sr_changed_user_ids := btree (ta_changed a)\<rparr> in
         and_then commit (\<lambda>_.
         and_then (emit (Finished (sync_rows resp))) (\<lambda>_. ok resp))))))))))))"

section \<open>Guarantees\<close>

lemma keeps_known_from [keeps_any]: "hist.keeps (\<lambda>_. True) (known_from ms k) (\<lambda>_ _. True)"
  by (induction ms arbitrary: k) (auto intro!: keeps_any)

lemma step_insert_team: "insert_team_stm t s d = Inr (n, d') \<Longrightarrow> step_ok d d'"
  by (auto simp: insert_team_stm_def split: sum.splits dest!: step_ins_team)

lemma keeps_insert_team [keeps_any]: "hist.keeps (\<lambda>_. True) (insert_team t) (\<lambda>_ _. True)"
  unfolding insert_team_def by (rule keeps_stmt_map_any) (rule step_insert_team)

lemma step_mark_team: "mark_team_stm x b s d = Inr (n, d') \<Longrightarrow> step_ok d d'"
  by (auto simp: mark_team_stm_def Let_def store_ok_def teams_ok_def map_upd image_upd team_keys_def
      split: if_splits intro!: step_teams)

lemma keeps_mark_team [keeps_any]: "hist.keeps (\<lambda>_. True) (stmt (mark_team_stm x b)) (\<lambda>_ _. True)"
  by (rule keeps_stmt_any) (rule step_mark_team)

lemma keeps_write_declared [keeps_any]: "hist.keeps (\<lambda>_. True) (write_declared st ds a) (\<lambda>_ _. True)"
  by (induction ds arbitrary: a) (auto intro!: keeps_any split: option.split bool.split)

lemma keeps_archive_omitted [keeps_any]: "hist.keeps (\<lambda>_. True) (archive_omitted ds st a) (\<lambda>_ _. True)"
  by (induction st arbitrary: a) (auto intro!: keeps_any)

lemma keeps_write_teams [keeps_any]: "hist.keeps (\<lambda>_. True) (write_teams ds a) (\<lambda>_ _. True)"
  unfolding write_teams_def by (auto intro!: keeps_any)

lemma step_delete_member: "delete_member_stm x m t d = Inr (n, d') \<Longrightarrow> step_ok d d'"
  by (auto simp: delete_member_stm_def Let_def store_ok_def members_ok_def set_del
      intro!: step_members distinct_map_del)

lemma keeps_member_stms [keeps_any]:
  "hist.keeps (\<lambda>_. True) (stmt (delete_member_stm x m)) (\<lambda>_ _. True)"
  "hist.keeps (\<lambda>_. True) (stmt (insert_member_stm x m)) (\<lambda>_ _. True)"
  by (rule keeps_stmt_any, erule step_delete_member)
     (rule keeps_stmt_any, auto simp: insert_member_stm_def split: sum.splits dest: step_ins_member)

lemma keeps_member_loops [keeps_any]:
  "hist.keeps (\<lambda>_. True) (remove_members x ms a) (\<lambda>_ _. True)"
  "hist.keeps (\<lambda>_. True) (add_members x ms a) (\<lambda>_ _. True)"
  by (induction ms arbitrary: a) (auto intro!: keeps_any)

lemma keeps_write_members [keeps_any]: "hist.keeps (\<lambda>_. True) (write_members t k a) (\<lambda>_ _. True)"
  unfolding write_members_def Let_def by (auto intro!: keeps_any)

lemma keeps_write_all_members [keeps_any]:
  "hist.keeps (\<lambda>_. True) (write_all_members ts k a) (\<lambda>_ _. True)"
  by (induction ts arbitrary: a) (auto intro!: keeps_any)

lemma keeps_pending_stms [keeps_any]:
  "hist.keeps (\<lambda>_. True) (stmt (insert_pending_stm m)) (\<lambda>_ _. True)"
  "hist.keeps (\<lambda>_. True) (stmt drop_pending_stm) (\<lambda>_ _. True)"
  by (rule keeps_stmt_any, auto simp: insert_pending_stm_def ADMINISTRATORS_def split: sum.splits dest!: step_ins_pending)
     (rule keeps_stmt_any, auto simp: drop_pending_stm_def pending_ok_def intro!: step_pending)

lemma keeps_insert_all_pending [keeps_any]:
  "hist.keeps (\<lambda>_. True) (insert_all_pending ms) (\<lambda>_ _. True)"
  by (induction ms) (auto intro!: keeps_any)

lemma keeps_sync_lock [keeps_any]: "hist.keeps (\<lambda>_. True) sync_lock (\<lambda>_ _. True)"
proof -
  have "hist.keeps (\<lambda>_. True) (\<lambda>e w. (Inr (), hold [Exclusive TeamSyncRow] w)) (\<lambda>_ _. True)"
    by (simp add: hist.keeps_def)
  then show ?thesis unfolding sync_lock_def by (auto intro!: keeps_any)
qed

lemma keeps_sync_teams [keeps_any]: "hist.keeps (\<lambda>_. True) (sync_teams ts) (\<lambda>_ _. True)"
  unfolding sync_teams_def Let_def known_users_def replace_pending_def
  by (auto intro!: keeps_any split: sum.split)

end
