(* ===== verification/KeyIdentity.thy ===== *)
theory KeyIdentity
  imports Credential "HOL-Library.Product_Lexorder"
begin

text \<open>
  The key-identity marker (\<open>src/src/service/key_identity.rs\<close>) and its adoption over a populated
  store (\<open>key_identity/adopt.rs\<close>): the comparison within one derivation version, the write-once
  recording on an empty store, the page of oldest rows the proof is made from, and the recording on
  evidence that is exactly the N oldest rows.
\<close>

section \<open>The marker\<close>

definition MAX_KEY_FINGERPRINT :: nat where "MAX_KEY_FINGERPRINT = 255"

datatype key_identity_outcome = OutcomeUnspecified | Match | Mismatch | OutcomeAbsent | Recorded | DerivationSkew

record presented_marker =
  pr_fingerprint :: bytes
  pr_version :: nat
  pr_key :: string

definition compared_with :: "marker_row \<Rightarrow> bytes \<Rightarrow> nat \<Rightarrow> key_identity_outcome" where
  "compared_with m fp v =
     (if k_version m \<noteq> v then DerivationSkew else if k_fingerprint m = fp then Match else Mismatch)"

definition presented :: "bytes \<Rightarrow> nat \<Rightarrow> unit act" where
  "presented fp v =
     (if fp = [] then fail (Status INVALID_ARGUMENT ''key_fingerprint is empty; a marker with no key material would match itself for ever'')
      else if MAX_KEY_FINGERPRINT < length fp then fail (Status INVALID_ARGUMENT ''key_fingerprint is wider than the column can hold'')
      else if v = 0 then fail (Status INVALID_ARGUMENT ''derivation_version is zero; versions start at 1'')
      else ok ())"

text \<open>The row is found as the singleton: nothing the caller sent is part of the lookup.\<close>

definition marker :: "locking \<Rightarrow> marker_row option act" where
  "marker l = select_lock (locked_if l [Shared MarkerRow]) (\<lambda>t d. iam_key_identity d)"

definition key_of :: "string option \<Rightarrow> string" where
  "key_of i = (case i of None \<Rightarrow> [] | Some k \<Rightarrow> k)"

definition key_reused :: status where
  "key_reused = Status INVALID_ARGUMENT ''this idempotency key was used with a different key set or derivation; a repeated key carrying a different payload is refused rather than replayed''"

definition replayed_or_compared :: "marker_row \<Rightarrow> presented_marker \<Rightarrow> key_identity_outcome act" where
  "replayed_or_compared m p =
     (if pr_key p = [] \<or> pr_key p \<noteq> k_key m then ok (compared_with m (pr_fingerprint p) (pr_version p))
      else if k_version m = pr_version p \<and> k_fingerprint m = pr_fingerprint p then ok Recorded
      else fail key_reused)"

definition against_the_stored_marker :: "presented_marker \<Rightarrow> key_identity_outcome option act" where
  "against_the_stored_marker p =
     and_then (marker YesLock) (\<lambda>m.
     case m of
       Some stored \<Rightarrow> and_then (replayed_or_compared stored p) (\<lambda>out. ok (Some out))
     | None \<Rightarrow> ok None)"

definition outcome_of :: "(sql_error + nat) \<Rightarrow> presented_marker \<Rightarrow> key_identity_outcome option act" where
  "outcome_of attempt p = (case attempt of
       Inr rows \<Rightarrow> if rows = 1 then ok (Some Recorded) else against_the_stored_marker p
     | Inl (UniqueViolation _) \<Rightarrow> against_the_stored_marker p
     | Inl EngineError \<Rightarrow> fail db_error)"

text \<open>One insert under a predicate; a false predicate inserts nothing and looks at no key.\<close>

definition insert_marker_stm :: "(db \<Rightarrow> bool) \<Rightarrow> presented_marker \<Rightarrow> nat stm" where
  "insert_marker_stm P p t d =
     (if \<not> P d then Inr (0, d)
      else (case ins_marker \<lparr>k_version = pr_version p, k_fingerprint = pr_fingerprint p, k_key = pr_key p\<rparr> d of
          Inl err \<Rightarrow> Inl err | Inr d' \<Rightarrow> Inr (1, d')))"

section \<open>GetKeyIdentity and SetKeyIdentity\<close>

record key_identity_request =
  kq_fingerprint :: bytes
  kq_version :: nat
  kq_idempotency :: "string option"

definition recorded_rows :: "key_identity_outcome \<Rightarrow> nat" where
  "recorded_rows out = (if out = Recorded then 1 else 0)"

definition key_identity :: "bytes \<Rightarrow> nat \<Rightarrow> key_identity_outcome act" where
  "key_identity fp v =
     and_then (failing_call (presented fp v)) (\<lambda>_.
     and_then acquire (\<lambda>_.
     and_then (failing_call (marker NoLock)) (\<lambda>m.
     let out = (case m of Some stored \<Rightarrow> compared_with stored fp v | None \<Rightarrow> OutcomeAbsent) in
     and_then (emit (Finished (if out \<noteq> OutcomeAbsent then 1 else 0))) (\<lambda>_. ok out))))"

definition holds_rows :: status where
  "holds_rows = Status FAILED_PRECONDITION ''this store already holds rows and no marker; recording one now would assert a key identity about rows it cannot be derived from''"

definition record_key_identity :: "key_identity_request \<Rightarrow> key_identity_outcome act" where
  "record_key_identity r =
     and_then (presented (kq_fingerprint r) (kq_version r)) (\<lambda>_.
     let p = \<lparr>pr_fingerprint = kq_fingerprint r, pr_version = kq_version r, pr_key = key_of (kq_idempotency r)\<rparr> in
     and_then acquire (\<lambda>_.
     and_then (begin_tx Default) (\<lambda>_.
     and_then (stmt_try (insert_marker_stm (\<lambda>d. iam_user d = []) p)) (\<lambda>attempt.
     and_then (outcome_of attempt p) (\<lambda>out.
     case out of
       None \<Rightarrow> fail holds_rows
     | Some x \<Rightarrow> and_then commit (\<lambda>_. ok x))))))"

definition store_key_identity :: "key_identity_request \<Rightarrow> key_identity_outcome act" where
  "store_key_identity r =
     and_then (failing_call (record_key_identity r)) (\<lambda>out.
     and_then (emit (Finished (recorded_rows out))) (\<lambda>_. ok out))"

section \<open>The position of a page\<close>

record position =
  po_epoch :: int
  po_id :: string

definition token :: "position \<Rightarrow> string" where
  "token p = dec_int (po_epoch p) @ '':'' @ po_id p"

definition parse_digits :: "string \<Rightarrow> nat option" where
  "parse_digits s = (if s = [] \<or> \<not> list_all is_digit s then None
     else Some (foldl (\<lambda>a c. a * 10 + digit_value c) 0 s))"

text \<open>\<open>str::parse::<i64>\<close>: one optional sign, at least one digit, in range.\<close>

definition parse_i64 :: "string \<Rightarrow> int option" where
  "parse_i64 s =
     (let pos = (\<lambda>x. case parse_digits x of Some n \<Rightarrow> if n < 2 ^ 63 then Some (int n) else None | None \<Rightarrow> None);
          neg = (\<lambda>x. case parse_digits x of Some n \<Rightarrow> if n \<le> 2 ^ 63 then Some (- int n) else None | None \<Rightarrow> None) in
      case s of
        [] \<Rightarrow> None
      | c # cs \<Rightarrow> if c = CHR ''+'' then pos cs else if c = CHR ''-'' then neg cs else pos s)"

definition split_once :: "char \<Rightarrow> string \<Rightarrow> (string \<times> string) option" where
  "split_once c s = (case dropWhile (\<lambda>x. x \<noteq> c) s of
       [] \<Rightarrow> None | _ # rest \<Rightarrow> Some (takeWhile (\<lambda>x. x \<noteq> c) s, rest))"

definition parse :: "string \<Rightarrow> position result" where
  "parse s =
     (if s = [] then Inr \<lparr>po_epoch = -1, po_id = []\<rparr>
      else (case split_once (CHR '':'') s of
          None \<Rightarrow> Inl (Status INVALID_ARGUMENT ''page_token is not one this service issued'')
        | Some (a, b) \<Rightarrow> (case parse_i64 a of
            Some n \<Rightarrow> if 0 \<le> n then Inr \<lparr>po_epoch = n, po_id = b\<rparr>
                      else Inl (Status INVALID_ARGUMENT ''page_token is not one this service issued'')
          | None \<Rightarrow> Inl (Status INVALID_ARGUMENT ''page_token is not one this service issued''))))"

section \<open>ListKeyIdentityEvidence\<close>

record evidence_request =
  vr_page_size :: int
  vr_page_token :: string

record key_identity_evidence =
  ev_user_id :: string
  ev_external_id_ciphertext :: bytes
  ev_display_name_ciphertext :: bytes
  ev_external_id_blind_index :: bytes

record evidence_response =
  er_evidence :: "key_identity_evidence list"
  er_next_page_token :: string

text \<open>\<open>OLDEST_FIRST\<close>: by creation, then by id as the column orders it.\<close>

definition oldest_key :: "user_row \<Rightarrow> nat \<times> string" where
  "oldest_key u = (u_created_at u, text_key (u_id u))"

definition oldest_first :: "user_row list \<Rightarrow> user_row list" where
  "oldest_first us = sort_key oldest_key us"

definition after_position :: "position \<Rightarrow> user_row \<Rightarrow> bool" where
  "after_position p u \<longleftrightarrow> po_epoch p < int (u_created_at u) \<or>
     int (u_created_at u) = po_epoch p \<and> text_key (po_id p) < text_key (u_id u)"

definition evidence_rows :: "position \<Rightarrow> int \<Rightarrow> db \<Rightarrow> user_row list" where
  "evidence_rows p n d = take (nat n) (oldest_first (filter (after_position p) (iam_user d)))"

definition evidence_of :: "user_row \<Rightarrow> key_identity_evidence" where
  "evidence_of u = \<lparr>ev_user_id = u_id u, ev_external_id_ciphertext = u_external_ct u,
     ev_display_name_ciphertext = u_display_ct u, ev_external_id_blind_index = u_blind_index u\<rparr>"

definition position_of :: "user_row \<Rightarrow> position" where
  "position_of u = \<lparr>po_epoch = int (u_created_at u), po_id = u_id u\<rparr>"

definition evidence_token :: "int \<Rightarrow> user_row list \<Rightarrow> string" where
  "evidence_token n us = (if length us = nat n then (if us = [] then [] else token (position_of (last us))) else [])"

definition evidence_page :: "evidence_request \<Rightarrow> evidence_response act" where
  "evidence_page r = (case parse (vr_page_token r) of
     Inl s \<Rightarrow> fail s
   | Inr p \<Rightarrow>
       let n = page_limit (vr_page_size r) in
       and_then acquire (\<lambda>_.
       and_then (select (\<lambda>t d. evidence_rows p n d)) (\<lambda>us.
       ok \<lparr>er_evidence = map evidence_of us, er_next_page_token = evidence_token n us\<rparr>)))"

definition key_identity_evidence :: "evidence_request \<Rightarrow> evidence_response act" where
  "key_identity_evidence r =
     and_then (failing_call (evidence_page r)) (\<lambda>page.
     and_then (emit (Finished (as_u32 (length (er_evidence page))))) (\<lambda>_. ok page))"

section \<open>AdoptKeyIdentity\<close>

definition MAX_EVIDENCE :: nat where "MAX_EVIDENCE = 64"

record adopt_request =
  oq_fingerprint :: bytes
  oq_version :: nat
  oq_evidence_user_ids :: "string list"
  oq_idempotency :: "string option"

text \<open>\<open>same_row\<close>: the key under which two ids name one row.\<close>

definition same_row :: "string \<Rightarrow> string" where
  "same_row s = map lower_char (trim_end s)"

definition evidence :: "string list \<Rightarrow> unit act" where
  "evidence ids =
     (if ids = [] then fail (Status INVALID_ARGUMENT ''evidence_user_ids is empty; an adoption with no evidence asserts a key identity on none'')
      else if MAX_EVIDENCE < length ids then fail (Status INVALID_ARGUMENT ''evidence_user_ids holds more than 64 ids'')
      else if distinct (map same_row ids) then ok ()
      else fail (Status INVALID_ARGUMENT ''evidence_user_ids repeats an id''))"

definition are_oldest :: "string list \<Rightarrow> db \<Rightarrow> bool" where
  "are_oldest ids d \<longleftrightarrow>
     cnt (\<lambda>u. list_ex (\<lambda>x. sql_eq (u_id u) x) ids) (take (length ids) (oldest_first (iam_user d))) = length ids"

definition not_oldest :: status where
  "not_oldest = Status FAILED_PRECONDITION ''no marker is stored and evidence_user_ids are not exactly the oldest rows of this store; an adoption is recorded only on its oldest rows''"

definition record_adoption :: "adopt_request \<Rightarrow> key_identity_outcome act" where
  "record_adoption r =
     and_then (presented (oq_fingerprint r) (oq_version r)) (\<lambda>_.
     and_then (evidence (oq_evidence_user_ids r)) (\<lambda>_.
     let p = \<lparr>pr_fingerprint = oq_fingerprint r, pr_version = oq_version r, pr_key = key_of (oq_idempotency r)\<rparr> in
     and_then acquire (\<lambda>_.
     and_then (begin_tx Default) (\<lambda>_.
     and_then (stmt_try (insert_marker_stm (are_oldest (oq_evidence_user_ids r)) p)) (\<lambda>attempt.
     and_then (outcome_of attempt p) (\<lambda>out.
     case out of
       None \<Rightarrow> fail not_oldest
     | Some x \<Rightarrow> and_then commit (\<lambda>_. ok x)))))))"

definition adopt_marker :: "adopt_request \<Rightarrow> key_identity_outcome act" where
  "adopt_marker r =
     and_then (failing_call (record_adoption r)) (\<lambda>out.
     and_then (emit (Finished (recorded_rows out))) (\<lambda>_. ok out))"

section \<open>Guarantees\<close>

lemma keeps_marker [keeps_any]: "hist.keeps (\<lambda>_. True) (marker l) (\<lambda>_ _. True)"
  unfolding marker_def by (auto intro!: keeps_any)

lemma keeps_outcome_of [keeps_any]: "hist.keeps (\<lambda>_. True) (outcome_of a p) (\<lambda>_ _. True)"
  unfolding outcome_of_def against_the_stored_marker_def replayed_or_compared_def
  by (auto intro!: keeps_any split: sum.split sql_error.split option.split)

definition well_presented :: "bytes \<Rightarrow> nat \<Rightarrow> bool" where
  "well_presented fp v \<longleftrightarrow> fp \<noteq> [] \<and> length fp \<le> 255 \<and> 0 < v"

lemma presented_cases:
  "presented fp v = (if well_presented fp v then ok () else fail (Status INVALID_ARGUMENT
     (if fp = [] then ''key_fingerprint is empty; a marker with no key material would match itself for ever''
      else if 255 < length fp then ''key_fingerprint is wider than the column can hold''
      else ''derivation_version is zero; versions start at 1'')))"
  by (auto simp: presented_def well_presented_def MAX_KEY_FINGERPRINT_def)

lemma step_insert_marker:
  assumes "insert_marker_stm P p t d = Inr (n, d')" and "well_presented (pr_fingerprint p) (pr_version p)"
  shows "step_ok d d'"
  using assms
  by (auto simp: insert_marker_stm_def hist.R_refl well_presented_def marker_ok_def
      split: if_splits sum.splits dest!: step_ins_marker)

lemma keeps_presented_then:
  assumes "well_presented fp v \<Longrightarrow> hist.keeps (\<lambda>_. True) (f ()) (\<lambda>_ _. True)"
  shows "hist.keeps (\<lambda>_. True) (and_then (presented fp v) f) (\<lambda>_ _. True)"
  using assms by (simp add: presented_cases hist.keeps_def and_then_def fail_def ok_def)

lemma keeps_insert_marker:
  "well_presented (pr_fingerprint p) (pr_version p) \<Longrightarrow>
   hist.keeps (\<lambda>_. True) (stmt_try (insert_marker_stm P p)) (\<lambda>_ _. True)"
  by (rule keeps_stmt_try_any) (rule step_insert_marker)

lemma keeps_evidence [keeps_any]: "hist.keeps (\<lambda>_. True) (evidence ids) (\<lambda>_ _. True)"
  unfolding evidence_def by (auto intro!: keeps_any)

lemma keeps_store_key_identity [keeps_any]:
  "hist.keeps (\<lambda>_. True) (store_key_identity r) (\<lambda>_ _. True)"
proof -
  have "hist.keeps (\<lambda>_. True) (record_key_identity r) (\<lambda>_ _. True)"
    unfolding record_key_identity_def Let_def
    by (rule keeps_presented_then) (auto intro!: keeps_any keeps_insert_marker split: option.split)
  then show ?thesis unfolding store_key_identity_def by (auto intro!: keeps_any)
qed

lemma keeps_adopt_marker [keeps_any]: "hist.keeps (\<lambda>_. True) (adopt_marker r) (\<lambda>_ _. True)"
proof -
  have "hist.keeps (\<lambda>_. True) (record_adoption r) (\<lambda>_ _. True)"
    unfolding record_adoption_def Let_def
    by (rule keeps_presented_then) (auto intro!: keeps_any keeps_insert_marker split: option.split)
  then show ?thesis unfolding adopt_marker_def by (auto intro!: keeps_any)
qed

lemma keeps_key_identity [keeps_any]: "hist.keeps (\<lambda>_. True) (key_identity fp v) (\<lambda>_ _. True)"
  unfolding key_identity_def Let_def presented_def by (auto intro!: keeps_any)

lemma keeps_evidence_page [keeps_any]: "hist.keeps (\<lambda>_. True) (key_identity_evidence r) (\<lambda>_ _. True)"
  unfolding key_identity_evidence_def evidence_page_def Let_def by (auto intro!: keeps_any split: sum.split)

end
