(* ===== verification/Seam.thy ===== *)
theory Seam
  imports Credential Password Policy Enrolment Setting Sync KeyIdentity
begin

text \<open>
  The service's surface: the \<open>_as\<close> twin of every verb (\<open>src/src/service/seam.rs\<close>), the trait method
  that names its caller from the client certificate (\<open>src/src/service/handlers.rs\<close>), and the twenty
  verbs as one dispatcher \<open>serve\<close>. The reading of the certificate is not code of this repository; it
  is the argument \<open>caller_common_name\<close> of the trait methods.
\<close>

section \<open>Requests\<close>

record ('p, 'r) rpc_request =
  rpc_peer :: 'p
  rpc_request_id :: "string option"
  rpc_message :: 'r

section \<open>Twins\<close>

definition resolve_credential_as :: "string option \<Rightarrow> string option \<Rightarrow> resolve_request \<Rightarrow> resolve_response act" where
  "resolve_credential_as caller header r = twin ''ResolveCredential'' Read ([]) caller header (\<lambda>rid. resolve r)"

definition get_password_hash_as :: "string option \<Rightarrow> string option \<Rightarrow> bytes \<Rightarrow> password_hash_response act" where
  "get_password_hash_as caller header r = twin ''GetPasswordHash'' Read ([]) caller header (\<lambda>rid. password_hash r)"

definition set_password_as :: "string option \<Rightarrow> string option \<Rightarrow> set_password_request \<Rightarrow> unit act" where
  "set_password_as caller header r = twin ''SetPassword'' Write (sp_user_id r) caller header (\<lambda>rid. store_password r)"

definition create_credential_as :: "string option \<Rightarrow> string option \<Rightarrow> create_credential_request \<Rightarrow> string act" where
  "create_credential_as caller header r = twin ''CreateCredential'' Write (cq_user_id r) caller header (mint_credential r)"

definition revoke_credential_as :: "string option \<Rightarrow> string option \<Rightarrow> revoke_request \<Rightarrow> string act" where
  "revoke_credential_as caller header r = twin ''RevokeCredential'' Write ([]) caller header (revoke r)"

definition revoke_all_credentials_as :: "string option \<Rightarrow> string option \<Rightarrow> revoke_all_request \<Rightarrow> revoke_all_response act" where
  "revoke_all_credentials_as caller header r = twin ''RevokeAllCredentials'' Write (aq_user_id r) caller header (revoke_all r)"

definition create_user_as :: "string option \<Rightarrow> string option \<Rightarrow> create_user_request \<Rightarrow> meta act" where
  "create_user_as caller header r = twin ''CreateUser'' Write ([]) caller header (insert_user r)"

definition add_team_member_as :: "string option \<Rightarrow> string option \<Rightarrow> member_request \<Rightarrow> unit act" where
  "add_team_member_as caller header r = twin ''AddTeamMember'' Write (mq_user_id r) caller header (add_member r)"

definition remove_team_member_as :: "string option \<Rightarrow> string option \<Rightarrow> member_request \<Rightarrow> unit act" where
  "remove_team_member_as caller header r = twin ''RemoveTeamMember'' Write (mq_user_id r) caller header (remove_member r)"

definition create_enrolment_as :: "string option \<Rightarrow> string option \<Rightarrow> create_enrolment_request \<Rightarrow> string act" where
  "create_enrolment_as caller header r = twin ''CreateEnrolment'' Write (eq_user_id r) caller header (mint_enrolment r)"

definition redeem_enrolment_as :: "string option \<Rightarrow> string option \<Rightarrow> redeem_request \<Rightarrow> redeem_response act" where
  "redeem_enrolment_as caller header r = twin ''RedeemEnrolment'' Write ([]) caller header (\<lambda>rid. redeem r)"

definition list_credentials_as :: "string option \<Rightarrow> string option \<Rightarrow> list_credentials_request \<Rightarrow> list_credentials_response act" where
  "list_credentials_as caller header r = twin ''ListCredentials'' Read (lq_user_id r) caller header (\<lambda>rid. credential_page r)"

definition set_user_admin_as :: "string option \<Rightarrow> string option \<Rightarrow> set_admin_request \<Rightarrow> unit act" where
  "set_user_admin_as caller header r = twin ''SetUserAdmin'' Write (sa_user_id r) caller header (set_admin r)"

definition set_rate_limit_override_as :: "string option \<Rightarrow> string option \<Rightarrow> set_rate_limit_request \<Rightarrow> unit act" where
  "set_rate_limit_override_as caller header r = twin ''SetRateLimitOverride'' Write (sl_user_id r) caller header (set_rate_limit r)"

definition set_inherited_setting_as :: "string option \<Rightarrow> string option \<Rightarrow> setting_request \<Rightarrow> inherited_setting act" where
  "set_inherited_setting_as caller header r = twin ''SetInheritedSetting'' Write ([]) caller header (store_setting r)"

definition sync_declared_teams_as :: "string option \<Rightarrow> string option \<Rightarrow> declared_team list \<Rightarrow> sync_response act" where
  "sync_declared_teams_as caller header r = twin ''SyncTeams'' Write ([]) caller header (\<lambda>rid. sync_teams r)"

definition get_key_identity_as :: "string option \<Rightarrow> string option \<Rightarrow> bytes \<times> nat \<Rightarrow> key_identity_outcome act" where
  "get_key_identity_as caller header r = twin ''GetKeyIdentity'' Read ([]) caller header (\<lambda>rid. key_identity (fst r) (snd r))"

definition set_key_identity_as :: "string option \<Rightarrow> string option \<Rightarrow> key_identity_request \<Rightarrow> key_identity_outcome act" where
  "set_key_identity_as caller header r = twin ''SetKeyIdentity'' Write ([]) caller header (\<lambda>rid. store_key_identity r)"

definition list_key_identity_evidence_as :: "string option \<Rightarrow> string option \<Rightarrow> evidence_request \<Rightarrow> evidence_response act" where
  "list_key_identity_evidence_as caller header r = twin ''ListKeyIdentityEvidence'' Read ([]) caller header (\<lambda>rid. key_identity_evidence r)"

definition adopt_key_identity_as :: "string option \<Rightarrow> string option \<Rightarrow> adopt_request \<Rightarrow> key_identity_outcome act" where
  "adopt_key_identity_as caller header r = twin ''AdoptKeyIdentity'' Write ([]) caller header (\<lambda>rid. adopt_marker r)"

section \<open>Trait methods\<close>

definition resolve_credential :: "('p \<Rightarrow> string option) \<Rightarrow> ('p, resolve_request) rpc_request \<Rightarrow> resolve_response act" where
  "resolve_credential caller_common_name q =
     resolve_credential_as (caller_common_name (rpc_peer q)) (rpc_request_id q) (rpc_message q)"

definition get_password_hash :: "('p \<Rightarrow> string option) \<Rightarrow> ('p, bytes) rpc_request \<Rightarrow> password_hash_response act" where
  "get_password_hash caller_common_name q =
     get_password_hash_as (caller_common_name (rpc_peer q)) (rpc_request_id q) (rpc_message q)"

definition set_password :: "('p \<Rightarrow> string option) \<Rightarrow> ('p, set_password_request) rpc_request \<Rightarrow> unit act" where
  "set_password caller_common_name q =
     set_password_as (caller_common_name (rpc_peer q)) (rpc_request_id q) (rpc_message q)"

definition create_credential :: "('p \<Rightarrow> string option) \<Rightarrow> ('p, create_credential_request) rpc_request \<Rightarrow> string act" where
  "create_credential caller_common_name q =
     create_credential_as (caller_common_name (rpc_peer q)) (rpc_request_id q) (rpc_message q)"

definition revoke_credential :: "('p \<Rightarrow> string option) \<Rightarrow> ('p, revoke_request) rpc_request \<Rightarrow> string act" where
  "revoke_credential caller_common_name q =
     revoke_credential_as (caller_common_name (rpc_peer q)) (rpc_request_id q) (rpc_message q)"

definition revoke_all_credentials :: "('p \<Rightarrow> string option) \<Rightarrow> ('p, revoke_all_request) rpc_request \<Rightarrow> revoke_all_response act" where
  "revoke_all_credentials caller_common_name q =
     revoke_all_credentials_as (caller_common_name (rpc_peer q)) (rpc_request_id q) (rpc_message q)"

definition create_user :: "('p \<Rightarrow> string option) \<Rightarrow> ('p, create_user_request) rpc_request \<Rightarrow> meta act" where
  "create_user caller_common_name q =
     create_user_as (caller_common_name (rpc_peer q)) (rpc_request_id q) (rpc_message q)"

definition add_team_member :: "('p \<Rightarrow> string option) \<Rightarrow> ('p, member_request) rpc_request \<Rightarrow> unit act" where
  "add_team_member caller_common_name q =
     add_team_member_as (caller_common_name (rpc_peer q)) (rpc_request_id q) (rpc_message q)"

definition remove_team_member :: "('p \<Rightarrow> string option) \<Rightarrow> ('p, member_request) rpc_request \<Rightarrow> unit act" where
  "remove_team_member caller_common_name q =
     remove_team_member_as (caller_common_name (rpc_peer q)) (rpc_request_id q) (rpc_message q)"

definition create_enrolment :: "('p \<Rightarrow> string option) \<Rightarrow> ('p, create_enrolment_request) rpc_request \<Rightarrow> string act" where
  "create_enrolment caller_common_name q =
     create_enrolment_as (caller_common_name (rpc_peer q)) (rpc_request_id q) (rpc_message q)"

definition redeem_enrolment :: "('p \<Rightarrow> string option) \<Rightarrow> ('p, redeem_request) rpc_request \<Rightarrow> redeem_response act" where
  "redeem_enrolment caller_common_name q =
     redeem_enrolment_as (caller_common_name (rpc_peer q)) (rpc_request_id q) (rpc_message q)"

definition list_credentials :: "('p \<Rightarrow> string option) \<Rightarrow> ('p, list_credentials_request) rpc_request \<Rightarrow> list_credentials_response act" where
  "list_credentials caller_common_name q =
     list_credentials_as (caller_common_name (rpc_peer q)) (rpc_request_id q) (rpc_message q)"

definition set_user_admin :: "('p \<Rightarrow> string option) \<Rightarrow> ('p, set_admin_request) rpc_request \<Rightarrow> unit act" where
  "set_user_admin caller_common_name q =
     set_user_admin_as (caller_common_name (rpc_peer q)) (rpc_request_id q) (rpc_message q)"

definition set_rate_limit_override :: "('p \<Rightarrow> string option) \<Rightarrow> ('p, set_rate_limit_request) rpc_request \<Rightarrow> unit act" where
  "set_rate_limit_override caller_common_name q =
     set_rate_limit_override_as (caller_common_name (rpc_peer q)) (rpc_request_id q) (rpc_message q)"

definition set_inherited_setting :: "('p \<Rightarrow> string option) \<Rightarrow> ('p, setting_request) rpc_request \<Rightarrow> inherited_setting act" where
  "set_inherited_setting caller_common_name q =
     set_inherited_setting_as (caller_common_name (rpc_peer q)) (rpc_request_id q) (rpc_message q)"

definition sync_declared_teams :: "('p \<Rightarrow> string option) \<Rightarrow> ('p, declared_team list) rpc_request \<Rightarrow> sync_response act" where
  "sync_declared_teams caller_common_name q =
     sync_declared_teams_as (caller_common_name (rpc_peer q)) (rpc_request_id q) (rpc_message q)"

definition get_key_identity :: "('p \<Rightarrow> string option) \<Rightarrow> ('p, bytes \<times> nat) rpc_request \<Rightarrow> key_identity_outcome act" where
  "get_key_identity caller_common_name q =
     get_key_identity_as (caller_common_name (rpc_peer q)) (rpc_request_id q) (rpc_message q)"

definition set_key_identity :: "('p \<Rightarrow> string option) \<Rightarrow> ('p, key_identity_request) rpc_request \<Rightarrow> key_identity_outcome act" where
  "set_key_identity caller_common_name q =
     set_key_identity_as (caller_common_name (rpc_peer q)) (rpc_request_id q) (rpc_message q)"

definition list_key_identity_evidence :: "('p \<Rightarrow> string option) \<Rightarrow> ('p, evidence_request) rpc_request \<Rightarrow> evidence_response act" where
  "list_key_identity_evidence caller_common_name q =
     list_key_identity_evidence_as (caller_common_name (rpc_peer q)) (rpc_request_id q) (rpc_message q)"

definition adopt_key_identity :: "('p \<Rightarrow> string option) \<Rightarrow> ('p, adopt_request) rpc_request \<Rightarrow> key_identity_outcome act" where
  "adopt_key_identity caller_common_name q =
     adopt_key_identity_as (caller_common_name (rpc_peer q)) (rpc_request_id q) (rpc_message q)"

section \<open>The dispatcher\<close>

datatype request =
    ResolveCredential "resolve_request"
  | GetPasswordHash "bytes"
  | SetPassword "set_password_request"
  | CreateCredential "create_credential_request"
  | RevokeCredential "revoke_request"
  | RevokeAllCredentials "revoke_all_request"
  | CreateUser "create_user_request"
  | AddTeamMember "member_request"
  | RemoveTeamMember "member_request"
  | CreateEnrolment "create_enrolment_request"
  | RedeemEnrolment "redeem_request"
  | ListCredentials "list_credentials_request"
  | SetUserAdmin "set_admin_request"
  | SetRateLimitOverride "set_rate_limit_request"
  | SetInheritedSetting "setting_request"
  | SyncTeams "declared_team list"
  | GetKeyIdentity "bytes \<times> nat"
  | SetKeyIdentity "key_identity_request"
  | ListKeyIdentityEvidence "evidence_request"
  | AdoptKeyIdentity "adopt_request"

datatype reply =
    ResolveCredentialReply "resolve_response"
  | GetPasswordHashReply "password_hash_response"
  | SetPasswordReply "unit"
  | CreateCredentialReply "string"
  | RevokeCredentialReply "string"
  | RevokeAllCredentialsReply "revoke_all_response"
  | CreateUserReply "meta"
  | AddTeamMemberReply "unit"
  | RemoveTeamMemberReply "unit"
  | CreateEnrolmentReply "string"
  | RedeemEnrolmentReply "redeem_response"
  | ListCredentialsReply "list_credentials_response"
  | SetUserAdminReply "unit"
  | SetRateLimitOverrideReply "unit"
  | SetInheritedSettingReply "inherited_setting"
  | SyncTeamsReply "sync_response"
  | GetKeyIdentityReply "key_identity_outcome"
  | SetKeyIdentityReply "key_identity_outcome"
  | ListKeyIdentityEvidenceReply "evidence_response"
  | AdoptKeyIdentityReply "key_identity_outcome"

definition reply_with :: "('a \<Rightarrow> reply) \<Rightarrow> 'a act \<Rightarrow> reply act" where
  "reply_with f m = and_then m (\<lambda>x. ok (f x))"

fun serve :: "('p \<Rightarrow> string option) \<Rightarrow> 'p \<Rightarrow> string option \<Rightarrow> request \<Rightarrow> reply act" where
  "serve ccn p h (ResolveCredential r) = reply_with ResolveCredentialReply
     (resolve_credential ccn \<lparr>rpc_peer = p, rpc_request_id = h, rpc_message = r\<rparr>)"
| "serve ccn p h (GetPasswordHash r) = reply_with GetPasswordHashReply
     (get_password_hash ccn \<lparr>rpc_peer = p, rpc_request_id = h, rpc_message = r\<rparr>)"
| "serve ccn p h (SetPassword r) = reply_with SetPasswordReply
     (set_password ccn \<lparr>rpc_peer = p, rpc_request_id = h, rpc_message = r\<rparr>)"
| "serve ccn p h (CreateCredential r) = reply_with CreateCredentialReply
     (create_credential ccn \<lparr>rpc_peer = p, rpc_request_id = h, rpc_message = r\<rparr>)"
| "serve ccn p h (RevokeCredential r) = reply_with RevokeCredentialReply
     (revoke_credential ccn \<lparr>rpc_peer = p, rpc_request_id = h, rpc_message = r\<rparr>)"
| "serve ccn p h (RevokeAllCredentials r) = reply_with RevokeAllCredentialsReply
     (revoke_all_credentials ccn \<lparr>rpc_peer = p, rpc_request_id = h, rpc_message = r\<rparr>)"
| "serve ccn p h (CreateUser r) = reply_with CreateUserReply
     (create_user ccn \<lparr>rpc_peer = p, rpc_request_id = h, rpc_message = r\<rparr>)"
| "serve ccn p h (AddTeamMember r) = reply_with AddTeamMemberReply
     (add_team_member ccn \<lparr>rpc_peer = p, rpc_request_id = h, rpc_message = r\<rparr>)"
| "serve ccn p h (RemoveTeamMember r) = reply_with RemoveTeamMemberReply
     (remove_team_member ccn \<lparr>rpc_peer = p, rpc_request_id = h, rpc_message = r\<rparr>)"
| "serve ccn p h (CreateEnrolment r) = reply_with CreateEnrolmentReply
     (create_enrolment ccn \<lparr>rpc_peer = p, rpc_request_id = h, rpc_message = r\<rparr>)"
| "serve ccn p h (RedeemEnrolment r) = reply_with RedeemEnrolmentReply
     (redeem_enrolment ccn \<lparr>rpc_peer = p, rpc_request_id = h, rpc_message = r\<rparr>)"
| "serve ccn p h (ListCredentials r) = reply_with ListCredentialsReply
     (list_credentials ccn \<lparr>rpc_peer = p, rpc_request_id = h, rpc_message = r\<rparr>)"
| "serve ccn p h (SetUserAdmin r) = reply_with SetUserAdminReply
     (set_user_admin ccn \<lparr>rpc_peer = p, rpc_request_id = h, rpc_message = r\<rparr>)"
| "serve ccn p h (SetRateLimitOverride r) = reply_with SetRateLimitOverrideReply
     (set_rate_limit_override ccn \<lparr>rpc_peer = p, rpc_request_id = h, rpc_message = r\<rparr>)"
| "serve ccn p h (SetInheritedSetting r) = reply_with SetInheritedSettingReply
     (set_inherited_setting ccn \<lparr>rpc_peer = p, rpc_request_id = h, rpc_message = r\<rparr>)"
| "serve ccn p h (SyncTeams r) = reply_with SyncTeamsReply
     (sync_declared_teams ccn \<lparr>rpc_peer = p, rpc_request_id = h, rpc_message = r\<rparr>)"
| "serve ccn p h (GetKeyIdentity r) = reply_with GetKeyIdentityReply
     (get_key_identity ccn \<lparr>rpc_peer = p, rpc_request_id = h, rpc_message = r\<rparr>)"
| "serve ccn p h (SetKeyIdentity r) = reply_with SetKeyIdentityReply
     (set_key_identity ccn \<lparr>rpc_peer = p, rpc_request_id = h, rpc_message = r\<rparr>)"
| "serve ccn p h (ListKeyIdentityEvidence r) = reply_with ListKeyIdentityEvidenceReply
     (list_key_identity_evidence ccn \<lparr>rpc_peer = p, rpc_request_id = h, rpc_message = r\<rparr>)"
| "serve ccn p h (AdoptKeyIdentity r) = reply_with AdoptKeyIdentityReply
     (adopt_key_identity ccn \<lparr>rpc_peer = p, rpc_request_id = h, rpc_message = r\<rparr>)"

text \<open>The name and the kind every verb's record carries.\<close>

fun rpc_name :: "request \<Rightarrow> string" where
  "rpc_name (ResolveCredential r) = ''ResolveCredential''"
| "rpc_name (GetPasswordHash r) = ''GetPasswordHash''"
| "rpc_name (SetPassword r) = ''SetPassword''"
| "rpc_name (CreateCredential r) = ''CreateCredential''"
| "rpc_name (RevokeCredential r) = ''RevokeCredential''"
| "rpc_name (RevokeAllCredentials r) = ''RevokeAllCredentials''"
| "rpc_name (CreateUser r) = ''CreateUser''"
| "rpc_name (AddTeamMember r) = ''AddTeamMember''"
| "rpc_name (RemoveTeamMember r) = ''RemoveTeamMember''"
| "rpc_name (CreateEnrolment r) = ''CreateEnrolment''"
| "rpc_name (RedeemEnrolment r) = ''RedeemEnrolment''"
| "rpc_name (ListCredentials r) = ''ListCredentials''"
| "rpc_name (SetUserAdmin r) = ''SetUserAdmin''"
| "rpc_name (SetRateLimitOverride r) = ''SetRateLimitOverride''"
| "rpc_name (SetInheritedSetting r) = ''SetInheritedSetting''"
| "rpc_name (SyncTeams r) = ''SyncTeams''"
| "rpc_name (GetKeyIdentity r) = ''GetKeyIdentity''"
| "rpc_name (SetKeyIdentity r) = ''SetKeyIdentity''"
| "rpc_name (ListKeyIdentityEvidence r) = ''ListKeyIdentityEvidence''"
| "rpc_name (AdoptKeyIdentity r) = ''AdoptKeyIdentity''"

fun rpc_kind :: "request \<Rightarrow> kind" where
  "rpc_kind (ResolveCredential r) = Read"
| "rpc_kind (GetPasswordHash r) = Read"
| "rpc_kind (SetPassword r) = Write"
| "rpc_kind (CreateCredential r) = Write"
| "rpc_kind (RevokeCredential r) = Write"
| "rpc_kind (RevokeAllCredentials r) = Write"
| "rpc_kind (CreateUser r) = Write"
| "rpc_kind (AddTeamMember r) = Write"
| "rpc_kind (RemoveTeamMember r) = Write"
| "rpc_kind (CreateEnrolment r) = Write"
| "rpc_kind (RedeemEnrolment r) = Write"
| "rpc_kind (ListCredentials r) = Read"
| "rpc_kind (SetUserAdmin r) = Write"
| "rpc_kind (SetRateLimitOverride r) = Write"
| "rpc_kind (SetInheritedSetting r) = Write"
| "rpc_kind (SyncTeams r) = Write"
| "rpc_kind (GetKeyIdentity r) = Read"
| "rpc_kind (SetKeyIdentity r) = Write"
| "rpc_kind (ListKeyIdentityEvidence r) = Read"
| "rpc_kind (AdoptKeyIdentity r) = Write"

fun rpc_user :: "request \<Rightarrow> string" where
  "rpc_user (ResolveCredential r) = []"
| "rpc_user (GetPasswordHash r) = []"
| "rpc_user (SetPassword r) = sp_user_id r"
| "rpc_user (CreateCredential r) = cq_user_id r"
| "rpc_user (RevokeCredential r) = []"
| "rpc_user (RevokeAllCredentials r) = aq_user_id r"
| "rpc_user (CreateUser r) = []"
| "rpc_user (AddTeamMember r) = mq_user_id r"
| "rpc_user (RemoveTeamMember r) = mq_user_id r"
| "rpc_user (CreateEnrolment r) = eq_user_id r"
| "rpc_user (RedeemEnrolment r) = []"
| "rpc_user (ListCredentials r) = lq_user_id r"
| "rpc_user (SetUserAdmin r) = sa_user_id r"
| "rpc_user (SetRateLimitOverride r) = sl_user_id r"
| "rpc_user (SetInheritedSetting r) = []"
| "rpc_user (SyncTeams r) = []"
| "rpc_user (GetKeyIdentity r) = []"
| "rpc_user (SetKeyIdentity r) = []"
| "rpc_user (ListKeyIdentityEvidence r) = []"
| "rpc_user (AdoptKeyIdentity r) = []"

lemmas twin_defs =
  resolve_credential_as_def get_password_hash_as_def set_password_as_def create_credential_as_def revoke_credential_as_def revoke_all_credentials_as_def create_user_as_def add_team_member_as_def remove_team_member_as_def create_enrolment_as_def redeem_enrolment_as_def list_credentials_as_def set_user_admin_as_def set_rate_limit_override_as_def set_inherited_setting_as_def sync_declared_teams_as_def get_key_identity_as_def set_key_identity_as_def list_key_identity_evidence_as_def adopt_key_identity_as_def
lemmas method_defs =
  resolve_credential_def get_password_hash_def set_password_def create_credential_def revoke_credential_def revoke_all_credentials_def create_user_def add_team_member_def remove_team_member_def create_enrolment_def redeem_enrolment_def list_credentials_def set_user_admin_def set_rate_limit_override_def set_inherited_setting_def sync_declared_teams_def get_key_identity_def set_key_identity_def list_key_identity_evidence_def adopt_key_identity_def

section \<open>Lemmas\<close>

text \<open>Every verb is the gated twin of some operation, and every operation keeps the guarantee.\<close>

lemma twin_reply:
  "reply_with f (twin rpc k u c h op) = twin rpc k u c h (\<lambda>rid. reply_with f (op rid))"
  by (auto simp: reply_with_def twin_def ask_def and_then_def Let_def fun_eq_iff split: sum.splits prod.splits)

lemma gated:
  assumes "\<And>rid. hist.keeps (\<lambda>_. True) (op rid) (\<lambda>_ _. True)"
  shows "\<exists>op'. reply_with f (twin rpc k u c h op) = twin rpc k u c h op' \<and>
     (\<forall>rid. hist.keeps (\<lambda>_. True) (op' rid) (\<lambda>_ _. True))"
proof -
  have "hist.keeps (\<lambda>_. True) (reply_with f (op rid)) (\<lambda>_ _. True)" for rid
    unfolding reply_with_def using assms by (auto intro!: keeps_any)
  then show ?thesis unfolding twin_reply by blast
qed

lemma serve_is_gated:
  "\<exists>op. serve ccn p h q = twin (rpc_name q) (rpc_kind q) (rpc_user q) (ccn p) h op \<and>
     (\<forall>rid. hist.keeps (\<lambda>_. True) (op rid) (\<lambda>_ _. True))"
  by (cases q; simp only: serve.simps method_defs twin_defs rpc_name.simps rpc_kind.simps rpc_user.simps
      rpc_request.select_convs; rule gated; rule keeps_any)

lemma keeps_serve: "hist.keeps (\<lambda>_. True) (serve ccn p h q) (\<lambda>_ _. True)"
  using serve_is_gated [of ccn p h q] keeps_twin by metis

end
