(* ===== verification/Alone.thy ===== *)
theory Alone
  imports Guarantee
begin

text \<open>
  A transaction without company: no other session moves, and every statement can still be refused
  by the engine or lose its reply. \<open>inner\<close> is the triple of a step inside a transaction, whose effect
  stays on the copy; \<open>atomic\<close> is the triple of the rest of a transaction up to its commit, which
  publishes the copy whole or not at all, also when the reply to the commit is lost.
\<close>

definition alone :: "env \<Rightarrow> bool" where
  "alone e \<longleftrightarrow> (\<forall>n L d. others e n L d = d)"

definition inner :: "(db \<Rightarrow> bool) \<Rightarrow> 'a act \<Rightarrow> ('a \<Rightarrow> db \<Rightarrow> bool) \<Rightarrow> bool" where
  "inner P m Q \<longleftrightarrow> (\<forall>e w. alone e \<longrightarrow> tx w \<noteq> None \<longrightarrow> P (cur w) \<longrightarrow>
     committed (snd (m e w)) = committed w \<and>
     (\<forall>x w'. m e w = (Inr x, w') \<longrightarrow> tx w' \<noteq> None \<and> Q x (cur w')))"

definition atomic :: "(db \<Rightarrow> bool) \<Rightarrow> 'a act \<Rightarrow> ('a \<Rightarrow> db \<Rightarrow> bool) \<Rightarrow> bool" where
  "atomic P m Q \<longleftrightarrow> (\<forall>e w r w'. alone e \<longrightarrow> tx w \<noteq> None \<longrightarrow> P (cur w) \<longrightarrow> m e w = (r, w') \<longrightarrow>
     (\<not> is_ok r \<and> committed w' = committed w) \<or> (\<exists>x. Q x (committed w') \<and> (\<forall>y. r = Inr y \<longrightarrow> y = x)))"

lemma alone_calm: "calm e \<Longrightarrow> alone e"
  by (simp add: calm_def alone_def)

lemma alone_drift [simp]: "alone e \<Longrightarrow> drift e w d = d"
  by (simp add: alone_def drift_def)

lemma alone_settle [simp]:
  assumes "alone e"
  shows "tx (settle e w) = tx w" and "cur (settle e w) = cur w"
  using assms by (simp_all add: settle_tx cur_settle split: option.split)

lemma put_cur_in_tx:
  "tx w \<noteq> None \<Longrightarrow> tx (put_cur d w) \<noteq> None \<and> committed (put_cur d w) = committed w"
  by (auto simp: put_cur_def split: option.split)

lemma put_cur_sel [simp]: "tx w \<noteq> None \<Longrightarrow> tx (put_cur d w) \<noteq> None"
  "tx w \<noteq> None \<Longrightarrow> committed (put_cur d w) = committed w"
  using put_cur_in_tx [of w d] by auto

lemma hold_sel [simp]: "committed (hold L w) = committed w" "tx (hold L w) = None \<longleftrightarrow> tx w = None"
  by (simp_all add: hold_def)

lemma inner_ok: "(\<And>d. P d \<Longrightarrow> Q x d) \<Longrightarrow> inner P (ok x) Q"
  by (simp add: inner_def ok_def)

lemma inner_fail: "inner P (fail s) Q"
  by (simp add: inner_def fail_def)

lemma inner_then:
  assumes "inner P m Q" and "\<And>x. inner (Q x) (f x) S"
  shows "inner P (and_then m f) S"
  unfolding inner_def
proof (intro allI impI)
  fix e w
  assume *: "alone e" "tx w \<noteq> None" "P (cur w)"
  obtain r w1 where m: "m e w = (r, w1)" by fastforce
  from assms(1) * have c: "committed w1 = committed w"
      and q: "\<And>x. r = Inr x \<Longrightarrow> tx w1 \<noteq> None \<and> Q x (cur w1)"
    unfolding inner_def by (metis m snd_conv, metis m)
  show "committed (snd (and_then m f e w)) = committed w \<and>
     (\<forall>x w'. and_then m f e w = (Inr x, w') \<longrightarrow> tx w' \<noteq> None \<and> S x (cur w'))"
  proof (cases r)
    case (Inl s)
    then show ?thesis using m c by (simp add: and_then_def)
  next
    case (Inr x)
    with q have "tx w1 \<noteq> None" "Q x (cur w1)" by auto
    with assms(2) [of x] *(1) c m Inr show ?thesis by (simp add: and_then_def inner_def)
  qed
qed

lemma inner_stmt:
  assumes "\<And>t d x d'. P d \<Longrightarrow> s t d = Inr (x, d') \<Longrightarrow> Q x d'"
  shows "inner P (stmt s) Q"
  unfolding inner_def
proof (intro allI impI conjI)
  fix e w
  assume *: "alone e" "tx w \<noteq> None" "P (cur w)"
  then show "committed (snd (stmt s e w)) = committed w"
    by (simp add: stmt_def stmt_map_def exec_def Let_def split: fault.splits sum.splits prod.splits)
  fix x w'
  assume "stmt s e w = (Inr x, w')"
  with * assms show "tx w' \<noteq> None" and "Q x (cur w')" by (auto dest!: stmt_Inr)
qed

lemma inner_hold:
  assumes "inner P (m :: 'a act) Q"
  shows "inner P (\<lambda>e w. case m e w of (Inl s, w') \<Rightarrow> (Inl s, w') | (Inr x, w') \<Rightarrow> (Inr x, hold L w')) Q"
  unfolding inner_def
proof (intro allI impI)
  fix e w
  assume *: "alone e" "tx w \<noteq> None" "P (cur w)"
  obtain r w1 where m: "m e w = (r, w1)" by fastforce
  with assms * show "committed (snd (case m e w of (Inl s, w') \<Rightarrow> (Inl s, w') | (Inr x, w') \<Rightarrow> (Inr x, hold L w')))
      = committed w \<and> (\<forall>x w'. (case m e w of (Inl s, w') \<Rightarrow> (Inl s, w') | (Inr x, w') \<Rightarrow> (Inr x, hold L w')) = (Inr x, w')
      \<longrightarrow> tx w' \<noteq> None \<and> Q x (cur w'))"
    by (cases r) (fastforce simp: inner_def)+
qed

lemma inner_stmt_lock:
  "(\<And>t d x d'. P d \<Longrightarrow> s t d = Inr (x, d') \<Longrightarrow> Q x d') \<Longrightarrow> inner P (stmt_lock L s) Q"
  unfolding stmt_lock_def [abs_def] by (rule inner_hold [OF inner_stmt])

lemma inner_select: "(\<And>t d. P d \<Longrightarrow> Q (q t d) d) \<Longrightarrow> inner P (select q) Q"
  unfolding select_def by (rule inner_stmt) auto

lemma inner_select_lock: "(\<And>t d. P d \<Longrightarrow> Q (q t d) d) \<Longrightarrow> inner P (select_lock L q) Q"
  unfolding select_lock_def [abs_def] by (rule inner_hold [OF inner_select])

lemma inner_fetch_one: "(\<And>d x. P d \<Longrightarrow> q d = Some x \<Longrightarrow> Q x d) \<Longrightarrow> inner P (fetch_one q) Q"
  unfolding fetch_one_def by (rule inner_stmt) (auto split: option.splits)

lemma atomic_fail: "atomic P (fail s) Q"
  by (simp add: atomic_def fail_def)

lemma atomic_then:
  assumes "inner P m Q" and "\<And>x. atomic (Q x) (f x) S"
  shows "atomic P (and_then m f) S"
  unfolding atomic_def
proof (intro allI impI)
  fix e w r w'
  assume *: "alone e" "tx w \<noteq> None" "P (cur w)" "and_then m f e w = (r, w')"
  obtain r1 w1 where m: "m e w = (r1, w1)" by fastforce
  from assms(1) * have c: "committed w1 = committed w"
      and q: "\<And>x. r1 = Inr x \<Longrightarrow> tx w1 \<noteq> None \<and> Q x (cur w1)"
    unfolding inner_def by (metis m snd_conv, metis m)
  show "(\<not> is_ok r \<and> committed w' = committed w) \<or> (\<exists>x. S x (committed w') \<and> (\<forall>y. r = Inr y \<longrightarrow> y = x))"
  proof (cases r1)
    case (Inl s)
    then show ?thesis using m c *(4) by (auto simp: and_then_def)
  next
    case (Inr x)
    with m *(4) have "f x e w1 = (r, w')" by (simp add: and_then_def)
    with assms(2) [of x] *(1) c q [OF Inr] show ?thesis unfolding atomic_def by metis
  qed
qed

lemma atomic_commit:
  assumes "\<And>d. P d \<Longrightarrow> Q x d"
  shows "atomic P (and_then commit (\<lambda>_. and_then (emit v) (\<lambda>_. ok x))) Q"
  using assms
  by (auto simp: atomic_def and_then_def commit_def emit_def ok_def Let_def split: fault.splits)

lemma atomic_ex:
  assumes "\<And>y. atomic (P y) m Q" shows "atomic (\<lambda>d. \<exists>y. P y d) m Q"
  unfolding atomic_def
proof (intro allI impI, elim exE)
  fix e w r w' y
  assume "alone e" "tx w \<noteq> None" "P y (cur w)" "m e w = (r, w')"
  with assms [of y] show "(\<not> is_ok r \<and> committed w' = committed w) \<or>
      (\<exists>x. Q x (committed w') \<and> (\<forall>y. r = Inr y \<longrightarrow> y = x))"
    unfolding atomic_def by simp
qed

lemma atomic_pure: "(b \<Longrightarrow> atomic P m Q) \<Longrightarrow> atomic (\<lambda>d. b \<and> P d) m Q"
  unfolding atomic_def by blast

lemma atomic_seq:
  assumes "inner P m Q" and "\<And>x d. Q x d \<Longrightarrow> atomic (\<lambda>y. y = d) (f x) S"
  shows "atomic P (and_then m f) S"
proof (rule atomic_then [OF assms(1)])
  fix x
  from assms(2) have "atomic (\<lambda>y. \<exists>d. Q x d \<and> y = d) (f x) S" by (intro atomic_ex atomic_pure)
  then show "atomic (Q x) (f x) S" by simp
qed

lemma inner_any:
  assumes "inner (\<lambda>_. True) m (\<lambda>_ _. True)"
    and "\<And>e w x w'. alone e \<Longrightarrow> P (cur w) \<Longrightarrow> m e w = (Inr x, w') \<Longrightarrow> Q x (cur w')"
  shows "inner P m Q"
  using assms unfolding inner_def by blast

lemmas inner_free = inner_ok inner_fail inner_stmt inner_stmt_lock inner_select inner_select_lock inner_fetch_one
  inner_then [where Q = "\<lambda>_ _. True"]

lemma inner_weaken: "inner P m Q \<Longrightarrow> (\<And>d. P' d \<Longrightarrow> P d) \<Longrightarrow> inner P' m Q"
  unfolding inner_def by blast

lemma inner_pure: "(b \<Longrightarrow> inner P m Q) \<Longrightarrow> inner (\<lambda>d. b \<and> P d) m Q"
  unfolding inner_def by blast

text \<open>A whole request: the store it started from, or what the committed transaction made of it.\<close>

lemma begin_tx_alone:
  assumes "alone e" and "tx w = None" and "begin_tx i e w = (r, w')"
  shows "committed w' = committed w \<and> (\<forall>x. r = Inr x \<longrightarrow> tx w' \<noteq> None \<and> cur w' = committed w)"
proof -
  have s: "committed (snd (stmt (\<lambda>_ d. Inr ((), d)) e w)) = committed w \<and>
      tx (snd (stmt (\<lambda>_ d. Inr ((), d)) e w)) = None" if "tx w = None" for w
    using that assms(1) by (auto simp: stmt_def stmt_map_def exec_def cur_def Let_def split: fault.splits)
  have si: "committed (snd (set_isolation i e w)) = committed w \<and> tx (snd (set_isolation i e w)) = None"
    using s [OF assms(2)] assms(2) by (cases i) (simp_all add: set_isolation_def ok_def)
  obtain r1 w1 where 1: "set_isolation i e w = (r1, w1)" by fastforce
  obtain r2 w2 where 2: "stmt (\<lambda>_ d. Inr ((), d)) e w1 = (r2, w2)" by fastforce
  from si 1 have w1: "committed w1 = committed w" "tx w1 = None" by simp_all
  from s [OF w1(2)] 2 w1 have w2: "committed w2 = committed w" "tx w2 = None" by simp_all
  from assms(3) 1 2 w1 w2 show ?thesis
    by (cases r1; cases r2) (auto simp: begin_tx_def and_then_def open_tx_def)
qed

lemma atomic_request:
  assumes "alone e" and "tx w = None" and "atomic (\<lambda>x. x = committed w) body Q"
    and "and_then acquire (\<lambda>_. and_then (begin_tx i) (\<lambda>_. body)) e w = (res, w')"
  shows "(\<not> is_ok res \<and> committed w' = committed w) \<or> (\<exists>x. Q x (committed w') \<and> (\<forall>y. res = Inr y \<longrightarrow> y = x))"
proof -
  obtain a where a: "acquire e w = (a, w)"
    by (cases "acquire e w") (auto simp: acquire_def Let_def split: if_splits sum.splits)
  obtain b w1 where b: "begin_tx i e w = (b, w1)" by fastforce
  from begin_tx_alone [OF assms(1,2) b] have w1: "committed w1 = committed w"
      "\<And>x. b = Inr x \<Longrightarrow> tx w1 \<noteq> None \<and> cur w1 = committed w" by auto
  obtain r w2 where body: "body e w1 = (r, w2)" by fastforce
  have "(\<not> is_ok r \<and> committed w2 = committed w) \<or> (\<exists>x. Q x (committed w2) \<and> (\<forall>y. r = Inr y \<longrightarrow> y = x))" if "b = Inr ()"
    using assms(1,3) body w1(1) w1(2) [OF that] unfolding atomic_def by metis
  with assms(4) a b body w1(1) show ?thesis
    by (cases a; cases b) (auto simp: and_then_def)
qed

lemma atomic_run:
  assumes "alone e" and "atomic (\<lambda>x. x = d) body Q"
    and "run (and_then acquire (\<lambda>_. and_then (begin_tx i) (\<lambda>_. body))) e d = (res, d', ev)"
  shows "(\<not> is_ok res \<and> d' = d) \<or> (\<exists>x. Q x d' \<and> (\<forall>y. res = Inr y \<longrightarrow> y = x))"
  using atomic_request [OF assms(1), of "\<lparr>committed = d, tx = None, steps = 0, events = []\<rparr>" body Q i] assms(2,3)
  by (auto simp: run_def split: prod.splits)

end
