(* ===== verification/Sample.thy ===== *)
theory Sample
  imports Store
begin

text \<open>
  A small store the properties are evaluated on: two people, Alice with a password, a live and a
  revoked credential and an open enrolment, and Bob, a fresh administrator with nothing; two teams
  and the members, limits and settings that hang off them.
\<close>

definition alice :: string where "alice = ''yadgar:user:0192f3c4-1a2b-7c3d-8e4f-0123456789ab''"
definition bob :: string where "bob = ''yadgar:user:0192f3c4-1a2b-7c3d-8e4f-0123456789cd''"

definition alice_row :: user_row where
  "alice_row = \<lparr>u_id = alice, u_version = 1, u_created_by = ''system'', u_updated_by = ''system'',
     u_created_at = 10, u_deleted_at = None, u_blind_index = [1], u_external_ct = [11],
     u_display_ct = [12], u_is_admin = False, u_epoch = 3\<rparr>"

definition bob_row :: user_row where
  "bob_row = \<lparr>u_id = bob, u_version = 1, u_created_by = ''system'', u_updated_by = ''system'',
     u_created_at = 20, u_deleted_at = None, u_blind_index = [2], u_external_ct = [21],
     u_display_ct = [22], u_is_admin = True, u_epoch = 0\<rparr>"

definition laptop :: credential_row where
  "laptop = \<lparr>c_id = ''yadgar:credential:1'', c_user_id = alice, c_token_hash = [7], c_label = ''laptop'',
     c_created_at = 30, c_expires_at = Some 5000, c_revoked_at = None\<rparr>"

definition phone :: credential_row where
  "phone = \<lparr>c_id = ''yadgar:credential:2'', c_user_id = alice, c_token_hash = [8], c_label = ''phone'',
     c_created_at = 31, c_expires_at = None, c_revoked_at = Some 40\<rparr>"

definition open_enrolment :: enrolment_row where
  "open_enrolment = \<lparr>e_id = ''yadgar:enrolment:1'', e_user_id = alice, e_secret_hash = [5],
     e_created_at = 50, e_expires_at = 9000, e_spent_at = None, e_revoke_existing = True,
     e_voided_at = None\<rparr>"

definition spent_enrolment :: enrolment_row where
  "spent_enrolment = \<lparr>e_id = ''yadgar:enrolment:0'', e_user_id = alice, e_secret_hash = [4],
     e_created_at = 25, e_expires_at = 9000, e_spent_at = Some 26, e_revoke_existing = False,
     e_voided_at = None\<rparr>"

definition sample_db :: db where
  "sample_db = initial_db\<lparr>
     iam_user := [alice_row, bob_row],
     iam_password := [\<lparr>p_user_id = alice, p_hash = ''argon-a''\<rparr>],
     iam_team := [\<lparr>t_id = ''yadgar:team:administrators'', t_version = 1, t_name = ''administrators'',
                    t_created_by = ''system'', t_updated_by = ''system'', t_deleted_at = None\<rparr>,
                  \<lparr>t_id = ''yadgar:team:ops'', t_version = 1, t_name = ''ops'',
                    t_created_by = ''system'', t_updated_by = ''system'', t_deleted_at = None\<rparr>],
     iam_team_member := [\<lparr>m_team_id = ''yadgar:team:ops'', m_user_id = alice, m_added_by = ''system''\<rparr>],
     iam_credential := [laptop, phone],
     iam_enrolment := [spent_enrolment, open_enrolment],
     iam_enrolment_redemption := [\<lparr>rd_key = ''key-1'', rd_secret_hash = [4],
        rd_enrolment_id = ''yadgar:enrolment:0'', rd_user_id = alice, rd_epoch = 2\<rparr>]\<rparr>"

text \<open>A fresh deployment: the declared team, nobody in it, Alice awaited; and the same once she is in.\<close>

definition fresh_db :: db where
  "fresh_db = initial_db\<lparr>
     iam_team := [\<lparr>t_id = ''yadgar:team:administrators'', t_version = 1, t_name = ''administrators'',
                    t_created_by = ''system'', t_updated_by = ''system'', t_deleted_at = None\<rparr>],
     iam_team_member_pending := [\<lparr>pd_team_id = ''yadgar:team:administrators'', pd_user_id = alice\<rparr>]\<rparr>"

definition declared_db :: db where
  "declared_db = fresh_db\<lparr>iam_user := [alice_row], iam_credential := [laptop],
     iam_team_member := [\<lparr>m_team_id = ''yadgar:team:administrators'', m_user_id = alice, m_added_by = ''system''\<rparr>],
     iam_team_member_pending := []\<rparr>"

text \<open>The comparison key of a text in lower case without trailing spaces is the text.\<close>

definition plain :: "string \<Rightarrow> bool" where
  "plain s \<longleftrightarrow> list_all (\<lambda>c. \<not> ((65::nat) \<le> of_char c \<and> of_char c \<le> (90::nat))) s \<and>
     (s = [] \<or> last s \<noteq> CHR '' '')"

lemma plain_key: "plain s \<Longrightarrow> text_key s = s"
  by (cases s rule: rev_cases)
     (auto simp: plain_def text_key_def trim_end_def lower_char_def list_all_iff Let_def intro!: map_idI)

lemma sample_keys [simp]:
  "text_key alice = alice" "text_key bob = bob"
  "text_key ''yadgar:credential:1'' = ''yadgar:credential:1''"
  "text_key ''yadgar:credential:2'' = ''yadgar:credential:2''"
  "text_key ''yadgar:enrolment:0'' = ''yadgar:enrolment:0''"
  "text_key ''yadgar:enrolment:1'' = ''yadgar:enrolment:1''"
  "text_key ''yadgar:team:administrators'' = ''yadgar:team:administrators''"
  "text_key ''yadgar:team:ops'' = ''yadgar:team:ops''"
  "text_key ''administrators'' = ''administrators''"
  "text_key ''ops'' = ''ops''"
  "text_key ''key-1'' = ''key-1''"
  "text_key ''key-2'' = ''key-2''"
  "text_key ''owner_reads_own_record'' = ''owner_reads_own_record''"
  by (rule plain_key, simp add: plain_def alice_def bob_def)+

lemma alice_bob [simp]: "alice \<noteq> bob" "bob \<noteq> alice" "alice \<noteq> []" "bob \<noteq> []"
  by (simp_all add: alice_def bob_def)

lemmas sample_defs = sample_db_def fresh_db_def declared_db_def initial_db_def alice_row_def bob_row_def laptop_def phone_def
  open_enrolment_def spent_enrolment_def

lemma store_ok_samples: "store_ok sample_db" "store_ok fresh_db" "store_ok declared_db"
  by (simp_all add: store_ok_def users_ok_def credentials_ok_def enrolments_ok_def redemptions_ok_def
      teams_ok_def members_ok_def passwords_ok_def rate_limits_ok_def settings_ok_def
      setting_writes_ok_def marker_ok_def pending_ok_def user_keys_def team_keys_def
      spent_as_def epoch_reached_def sample_defs)

lemmas store_ok_sample_db = store_ok_samples(1)

end
