(* ===== verification/Redemption.thy ===== *)
theory Redemption
  imports Enrolment Alone Sample
begin

text \<open>
  What a redemption does to the store, as one function of it, and the proof that
  \<open>RedeemEnrolment\<close> (\<open>src/src/service/enrolment/redeem.rs\<close>) does all of it or none of it: whichever
  of its statements the engine refuses and whichever reply is lost.
\<close>

section \<open>The specification\<close>

definition spend_one :: "enrolment_row \<Rightarrow> time \<Rightarrow> db \<Rightarrow> db" where
  "spend_one n t d = d\<lparr>iam_enrolment := upd (\<lambda>m. m = n) (\<lambda>m. m\<lparr>e_spent_at := Some t\<rparr>) (iam_enrolment d)\<rparr>"

definition next_epoch :: "string \<Rightarrow> db \<Rightarrow> db" where
  "next_epoch x d = d\<lparr>iam_user := upd (\<lambda>u. sql_eq (u_id u) x) (\<lambda>u. u\<lparr>u_epoch := u_epoch u + 1\<rparr>) (iam_user d)\<rparr>"

definition held_open :: "string \<Rightarrow> enrolment_row \<Rightarrow> bool" where
  "held_open x n \<longleftrightarrow> sql_eq (e_user_id n) x \<and> e_spent_at n = None \<and> e_voided_at n = None"

definition end_all :: "string \<Rightarrow> time \<Rightarrow> time \<Rightarrow> db \<Rightarrow> db" where
  "end_all x t t' d = d\<lparr>
     iam_credential := upd (\<lambda>c. sql_eq (c_user_id c) x \<and> c_revoked_at c = None)
       (\<lambda>c. c\<lparr>c_revoked_at := Some t\<rparr>) (iam_credential d),
     iam_enrolment := upd (held_open x) (\<lambda>n. n\<lparr>e_voided_at := Some t'\<rparr>) (iam_enrolment d)\<rparr>"

definition set_hash :: "string \<Rightarrow> string \<Rightarrow> db \<Rightarrow> db" where
  "set_hash x h d = d\<lparr>iam_password := snd (upsert (\<lambda>p. sql_eq (p_user_id p) x) \<lparr>p_user_id = x, p_hash = h\<rparr>
     (\<lambda>p. p\<lparr>p_hash := h\<rparr>) (iam_password d))\<rparr>"

definition log_redemption :: "string \<Rightarrow> enrolment_row \<Rightarrow> nat \<Rightarrow> db \<Rightarrow> db" where
  "log_redemption k n q d = (if k = [] then d
     else d\<lparr>iam_enrolment_redemption := iam_enrolment_redemption d @ [\<lparr>rd_key = k,
       rd_secret_hash = e_secret_hash n, rd_enrolment_id = e_id n, rd_user_id = e_user_id n, rd_epoch = q\<rparr>]\<rparr>)"

definition redemption ::
  "string \<Rightarrow> string \<Rightarrow> enrolment_row \<Rightarrow> user_row \<Rightarrow> time \<Rightarrow> time \<Rightarrow> time \<Rightarrow> db \<Rightarrow> db" where
  "redemption k h n u t t' t'' d =
     log_redemption k n (u_epoch u + 1) (set_hash (e_user_id n) h
       ((if e_revoke_existing n then end_all (e_user_id n) t' t'' else (\<lambda>d. d))
         (next_epoch (e_user_id n) (spend_one n t d))))"

text \<open>An open, unexpired enrolment of a live person, and what the caller is told of its redemption.\<close>

definition redeemable :: "bytes \<Rightarrow> time \<Rightarrow> db \<Rightarrow> enrolment_row \<Rightarrow> user_row \<Rightarrow> bool" where
  "redeemable h t d n u \<longleftrightarrow> n \<in> set (iam_enrolment d) \<and> e_secret_hash n = h \<and> t < e_expires_at n \<and>
     e_spent_at n = None \<and> e_voided_at n = None \<and>
     u \<in> set (iam_user d) \<and> sql_eq (u_id u) (e_user_id n) \<and> u_deleted_at u = None"

definition redeem_answer :: "enrolment_row \<Rightarrow> user_row \<Rightarrow> db \<Rightarrow> redeem_response" where
  "redeem_answer n u d = \<lparr>xr_outcome = Redeemed, xr_user_id = e_user_id n, xr_enrolment_id = e_id n,
     xr_external_id_ciphertext = u_external_ct u, xr_revoked_existing_credentials = e_revoke_existing n,
     xr_credential_epoch = u_epoch u + 1,
     xr_voided_enrolments = (if e_revoke_existing n
       then sat_u32 (cnt (\<lambda>m. held_open (e_user_id n) m \<and> m \<noteq> n) (iam_enrolment d)) else 0)\<rparr>"

definition replay_answer :: "string \<Rightarrow> bytes \<Rightarrow> db \<Rightarrow> redeem_response option" where
  "replay_answer k h d = (case find_redemption k d of
     None \<Rightarrow> None
   | Some p \<Rightarrow> if rd_secret_hash p \<noteq> h then None
       else (case (find_user d (rd_user_id p), find_enrolment (rd_enrolment_id p) d) of
           (Some u, Some n) \<Rightarrow> Some \<lparr>xr_outcome = Redeemed, xr_user_id = rd_user_id p,
             xr_enrolment_id = rd_enrolment_id p, xr_external_id_ciphertext = u_external_ct u,
             xr_revoked_existing_credentials = e_revoke_existing n, xr_credential_epoch = rd_epoch p,
             xr_voided_enrolments = 0\<rparr>
         | _ \<Rightarrow> None))"

definition redeem_key :: "redeem_request \<Rightarrow> string" where
  "redeem_key r = (case xq_idempotency r of None \<Rightarrow> [] | Some k \<Rightarrow> k)"

definition redeem_result :: "redeem_request \<Rightarrow> db \<Rightarrow> redeem_response \<Rightarrow> db \<Rightarrow> bool" where
  "redeem_result r d resp d' \<longleftrightarrow>
     (d' = d \<and> (xr_outcome resp \<noteq> Redeemed \<or> replay_answer (redeem_key r) (xq_secret_hash r) d = Some resp)) \<or>
     (\<exists>n u t t' t''. redeemable (xq_secret_hash r) t d n u \<and> resp = redeem_answer n u d \<and>
        d' = redemption (redeem_key r) (xq_argon2id_hash r) n u t t' t'' d)"

section \<open>Each statement does its part\<close>

lemma spend_stm_one:
  assumes "store_ok d" and "spend_stm h t d = Inr (m, d1)"
  shows "if m = 0 then d1 = d else \<exists>n u. redeemable h t d n u \<and> d1 = spend_one n t d"
proof (cases "m = 0")
  let ?P = "\<lambda>n. spendable h t d n \<and> e_spent_at n = None \<and> e_voided_at n = None"
  have d1: "d1 = d\<lparr>iam_enrolment := upd ?P (\<lambda>n. n\<lparr>e_spent_at := Some t\<rparr>) (iam_enrolment d)\<rparr>"
      and m: "m = cnt ?P (iam_enrolment d)"
    using assms(2) by (auto simp: spend_stm_def Let_def)
  {
    case True
    with m have "upd ?P (\<lambda>n. n\<lparr>e_spent_at := Some t\<rparr>) (iam_enrolment d) = iam_enrolment d"
      by (intro upd_none) (simp add: cnt_0)
    with d1 True show ?thesis by simp
  next
    case False
    with m have "0 < cnt ?P (iam_enrolment d)" by simp
    then obtain n where n: "n \<in> set (iam_enrolment d)" "?P n" unfolding cnt_pos by blast
    then obtain u where "redeemable h t d n u"
      by (auto simp: spendable_def redeemable_def list_ex_iff)
    moreover have "?P m \<longleftrightarrow> m = n" if "m \<in> set (iam_enrolment d)" for m
      using that n secret_unique [OF assms(1)] by (auto simp: spendable_def)
    then have "d1 = spend_one n t d" unfolding d1 spend_one_def upd_def by simp
    ultimately show ?thesis using False by auto
  }
qed

lemma spend_one_row:
  assumes "store_ok d" and "redeemable h t d n u" and "redeemed_row h (spend_one n t d) = Some (n', u')"
  shows "n' = n\<lparr>e_spent_at := Some t\<rparr> \<and> u' = u"
proof -
  from assms(3) have r: "n' \<in> set (iam_enrolment (spend_one n t d))" "u' \<in> set (iam_user d)"
      "sql_eq (u_id u') (e_user_id n')" "e_secret_hash n' = h"
    unfolding redeemed_row_def by (auto dest!: fetch_optional_filter simp: spend_one_def)
  then obtain m where "m \<in> set (iam_enrolment d)" "n' = (if m = n then m\<lparr>e_spent_at := Some t\<rparr> else m)"
    by (auto simp: spend_one_def set_upd)
  moreover from this r(4) have "m = n"
    using secret_unique [OF assms(1)] assms(2) by (auto simp: redeemable_def split: if_splits)
  ultimately have n': "n' = n\<lparr>e_spent_at := Some t\<rparr>" by simp
  with r(2,3) assms(2) have "u' = u"
    by (intro same_user [OF assms(1)]) (auto simp: redeemable_def)
  with n' show ?thesis by simp
qed

lemma bump_stm_next: "bump_stm (\<lambda>u. sql_eq (u_id u) x) t d = Inr (n, d') \<Longrightarrow> d' = next_epoch x d"
  by (auto simp: bump_stm_def next_epoch_def split: if_splits)

lemma epoch_next:
  assumes "store_ok d" and "redeemable h t d n u" and "epoch_at (next_epoch (e_user_id n) (spend_one n t d)) (e_user_id n) = Some q"
  shows "q = u_epoch u + 1"
proof -
  let ?us = "upd (\<lambda>u. sql_eq (u_id u) (e_user_id n)) (\<lambda>u. u\<lparr>u_epoch := u_epoch u + 1\<rparr>) (iam_user d)"
  have u: "u \<in> set (iam_user d)" "sql_eq (u_id u) (e_user_id n)" using assms(2) by (auto simp: redeemable_def)
  from assms(3) obtain v where "v \<in> set ?us" "sql_eq (u_id v) (e_user_id n)" "u_epoch v = q"
    using find_user_in by (fastforce simp: epoch_at_def next_epoch_def spend_one_def)
  then obtain w where "w \<in> set (iam_user d)" "sql_eq (u_id w) (e_user_id n)" "q = u_epoch w + 1"
    by (auto simp: set_upd split: if_splits)
  moreover from this u have "w = u" using same_user [OF assms(1)] by blast
  ultimately show ?thesis by simp
qed

lemma revoke_void_end:
  assumes "revoke_stm x t d = Inr (m, d1)" and "void_stm x t' d1 = Inr (v, d2)"
  shows "d2 = end_all x t t' d \<and> v = cnt (held_open x) (iam_enrolment d)"
proof -
  have h: "held_open x = (\<lambda>n. sql_eq (e_user_id n) x \<and> e_spent_at n = None \<and> e_voided_at n = None)"
    by (simp add: held_open_def fun_eq_iff)
  show ?thesis using assms by (auto simp: revoke_stm_def void_stm_def end_all_def Let_def h)
qed

lemma ups_password_set: "ups_password_stm x h t d = Inr (n, d') \<Longrightarrow> d' = set_hash x h d"
  by (auto simp: ups_password_stm_def ups_password_def set_hash_def Let_def split: if_splits prod.splits)

lemma ledger_logs:
  "ledger_stm k (e_secret_hash n) (e_id n) (e_user_id n) q t d = Inr (y, d') \<Longrightarrow> k \<noteq> [] \<Longrightarrow> d' = log_redemption k n q d"
  by (auto simp: ledger_stm_def ins_redemption_def log_redemption_def split: if_splits)

lemma voided_others:
  assumes "redeemable h t d n u"
  shows "cnt (held_open x) (iam_enrolment (next_epoch y (spend_one n t d))) = cnt (\<lambda>m. held_open x m \<and> m \<noteq> n) (iam_enrolment d)"
proof -
  have "cnt (held_open x) (upd (\<lambda>m. m = n) (\<lambda>m. m\<lparr>e_spent_at := Some t\<rparr>) ns) = cnt (\<lambda>m. held_open x m \<and> m \<noteq> n) ns" for ns
    by (induction ns) (auto simp: cnt_def held_open_def)
  then show ?thesis by (simp add: next_epoch_def spend_one_def)
qed

section \<open>The transaction\<close>

lemma inner_replay:
  "inner (\<lambda>x. x = d) (replay k h l) (\<lambda>y x. x = d \<and> (\<forall>resp. y = Some resp \<longrightarrow> replay_answer k h d = Some resp))"
proof (rule inner_any)
  show "inner (\<lambda>_. True) (replay k h l) (\<lambda>_ _. True)"
    unfolding replay_def by (auto intro!: inner_free split: option.split)
  fix e w x w'
  assume *: "alone e" "cur w = d" "replay k h l e w = (Inr x, w')"
  then show "cur w' = d \<and> (\<forall>resp. x = Some resp \<longrightarrow> replay_answer k h d = Some resp)"
    by (auto simp: replay_def replay_answer_def and_then_Inr ok_def fail_def
        dest!: select_lock_Inr fetch_one_Inr split: option.splits if_splits)
qed

lemma inner_replay_if:
  "inner (\<lambda>x. x = d) (if k \<noteq> [] then replay k h l else ok None)
     (\<lambda>y x. x = d \<and> (\<forall>resp. y = Some resp \<longrightarrow> replay_answer k h d = Some resp))"
  using inner_replay by (auto intro: inner_ok)

lemma inner_unredeemable:
  "inner (\<lambda>x. x = d) (unredeemable h) (\<lambda>out x. x = d \<and> out \<noteq> Redeemed)"
  unfolding unredeemable_def
  by (rule inner_then [OF inner_select [where Q = "\<lambda>_ x. x = d"]], assumption, rule inner_ok)
     (auto split: option.splits)

lemma atomic_unspent: "atomic (\<lambda>x. x = d) (unspent (redeem_key r) r) (redeem_result r d)"
  unfolding unspent_def
proof (rule atomic_then [OF inner_replay_if])
  fix y
  let ?P = "\<lambda>x. x = d \<and> (\<forall>resp. y = Some resp \<longrightarrow> replay_answer (redeem_key r) (xq_secret_hash r) d = Some resp)"
  have none: "atomic ?P (and_then (unredeemable (xq_secret_hash r)) (\<lambda>out.
      and_then commit (\<lambda>_. and_then (emit (Finished 0)) (\<lambda>_. ok (refused_redeem out))))) (redeem_result r d)"
  proof (rule atomic_then)
    show "inner ?P (unredeemable (xq_secret_hash r)) (\<lambda>out x. x = d \<and> out \<noteq> Redeemed)"
      by (rule inner_weaken [OF inner_unredeemable]) simp
  qed (auto intro!: atomic_commit simp: redeem_result_def refused_redeem_def)
  show "atomic ?P (case y of
       Some resp \<Rightarrow> and_then commit (\<lambda>_. and_then (emit (Finished 0)) (\<lambda>_. ok resp))
     | None \<Rightarrow> and_then (unredeemable (xq_secret_hash r)) (\<lambda>out.
         and_then commit (\<lambda>_. and_then (emit (Finished 0)) (\<lambda>_. ok (refused_redeem out))))) (redeem_result r d)"
    using none by (auto split: option.split intro!: atomic_commit simp: redeem_result_def)
qed

lemma inner_end_all:
  assumes "find_user A x \<noteq> None"
  shows "inner (\<lambda>y. y = A) (if b then and_then (revoke_every x) (\<lambda>_. void x) else ok 0)
     (\<lambda>v y. \<exists>t t'. v = (if b then sat_u32 (cnt (held_open x) (iam_enrolment A)) else 0) \<and>
        y = (if b then end_all x t t' A else A))"
proof (rule inner_any)
  show "inner (\<lambda>_. True) (if b then and_then (revoke_every x) (\<lambda>_. void x) else ok 0) (\<lambda>_ _. True)"
    unfolding revoke_every_def void_def by (auto intro!: inner_free split: option.split)
  fix e w v w'
  assume *: "alone e" "cur w = A" "(if b then and_then (revoke_every x) (\<lambda>_. void x) else ok 0) e w = (Inr v, w')"
  show "\<exists>t t'. v = (if b then sat_u32 (cnt (held_open x) (iam_enrolment A)) else 0) \<and>
        cur w' = (if b then end_all x t t' A else A)"
  proof (cases b)
    case True
    with * assms obtain t t' n d1 m where "revoke_stm x t A = Inr (n, d1)" "void_stm x t' d1 = Inr (m, cur w')"
        "v = sat_u32 m"
      by (auto simp: revoke_every_def void_def and_then_Inr ok_def dest!: select_lock_Inr stmt_Inr split: option.splits)
    with True revoke_void_end [of x t A n d1 t' m "cur w'"] show ?thesis by auto
  next
    case False
    with * show ?thesis by (simp add: ok_def)
  qed
qed

lemma atomic_redeemed:
  assumes "store_ok d" and "redeemable (xq_secret_hash r) t d n u"
  shows "atomic (\<lambda>x. x = spend_one n t d) (redeemed (redeem_key r) r) (redeem_result r d)"
proof -
  let ?x = "e_user_id n"
  let ?A = "next_epoch ?x (spend_one n t d)"
  let ?n = "n\<lparr>e_spent_at := Some t\<rparr>"
  let ?B = "\<lambda>t t'. if e_revoke_existing n then end_all ?x t t' ?A else ?A"
  let ?v = "if e_revoke_existing n then sat_u32 (cnt (held_open ?x) (iam_enrolment ?A)) else 0"
  have row: "inner (\<lambda>x. x = spend_one n t d) (fetch_one (redeemed_row (xq_secret_hash r)))
      (\<lambda>p x. p = (?n, u) \<and> x = spend_one n t d)"
    by (rule inner_fetch_one) (use spend_one_row [OF assms] in auto)
  have bump: "inner (\<lambda>x. x = spend_one n t d) (bump ?x) (\<lambda>_ x. x = ?A)"
    unfolding bump_def by (rule inner_stmt_lock) (auto dest: bump_stm_next)
  have cur: "inner (\<lambda>x. x = ?A) (current ?x) (\<lambda>q x. (q = u_epoch u + 1 \<and> find_user ?A ?x \<noteq> None) \<and> x = ?A)"
    unfolding current_def by (rule inner_fetch_one) (use epoch_next [OF assms] in \<open>auto simp: epoch_at_def\<close>)
  have pw: "inner (\<lambda>x. x = B) (stmt (ups_password_stm ?x h)) (\<lambda>_ x. x = set_hash ?x h B)" for B h
    by (rule inner_stmt) (auto dest: ups_password_set)
  have led: "inner (\<lambda>x. x = B) (if k \<noteq> [] then stmt (ledger_stm k (xq_secret_hash r) (e_id n) ?x q) else ok ())
      (\<lambda>_ x. x = log_redemption k n q B)" for B k q
  proof (cases "k = []")
    case True
    then show ?thesis by (auto intro!: inner_ok simp: log_redemption_def)
  next
    case False
    have "xq_secret_hash r = e_secret_hash n" using assms(2) by (simp add: redeemable_def)
    with False show ?thesis by (auto intro!: inner_stmt dest: ledger_logs)
  qed
  have fin: "redeem_result r d (redeem_answer n u d)
      (log_redemption (redeem_key r) n (u_epoch u + 1) (set_hash ?x (xq_argon2id_hash r) (?B t1 t2)))" for t1 t2
    using assms(2) unfolding redeem_result_def redemption_def by fastforce
  have n: "e_user_id ?n = e_user_id n" "e_id ?n = e_id n" "e_revoke_existing ?n = e_revoke_existing n"
    by simp_all
  show ?thesis unfolding redeemed_def
    apply (rule atomic_then [OF row], rule atomic_pure, simp only: split n)
    apply (rule atomic_then [OF bump], rule atomic_then [OF cur], rule atomic_pure, elim conjE, simp only:)
    apply (rule atomic_then [OF inner_end_all], assumption)
    apply (rule atomic_ex, rule atomic_ex, rule atomic_pure, simp only:)
    apply (rule atomic_then [OF pw], rule atomic_then [OF led])
    apply (rule atomic_commit)
    using fin voided_others [OF assms(2)] apply (simp add: redeem_answer_def cong: if_cong)
    done
qed

lemma inner_fits: "inner P (fits_password_column h) (\<lambda>_. P)"
  unfolding fits_password_column_def by (auto intro!: inner_ok inner_fail)

lemma inner_lock_owner: "inner (\<lambda>x. x = d) (lock_owner h) (\<lambda>_ x. x = d)"
  unfolding lock_owner_def
  by (rule inner_then [OF inner_select [where Q = "\<lambda>_ x. x = d"]], assumption)
     (auto intro!: inner_ok inner_then [OF inner_select_lock [where Q = "\<lambda>_ x. x = d"]] split: option.split)

lemma inner_spend:
  assumes "store_ok d"
  shows "inner (\<lambda>x. x = d) (spend h) (\<lambda>m x. \<exists>n u t. (m = 0 \<or> redeemable h t d n u) \<and> x = (if m = 0 then d else spend_one n t d))"
  unfolding spend_def by (rule inner_stmt) (use spend_stm_one [OF assms] in \<open>fastforce split: if_splits\<close>)

lemma atomic_redeem:
  assumes "store_ok d"
  shows "atomic (\<lambda>x. x = d) (and_then (if redeem_key r \<noteq> [] then replay (redeem_key r) (xq_secret_hash r) NoLock else ok None) (\<lambda>replayed.
     case replayed of
       Some resp \<Rightarrow> and_then commit (\<lambda>_. and_then (emit (Finished 0)) (\<lambda>_. ok resp))
     | None \<Rightarrow>
         and_then (fits_password_column (xq_argon2id_hash r)) (\<lambda>_.
         and_then (lock_owner (xq_secret_hash r)) (\<lambda>_.
         and_then (spend (xq_secret_hash r)) (\<lambda>n.
         if n = 0 then unspent (redeem_key r) r else redeemed (redeem_key r) r))))) (redeem_result r d)"
proof (rule atomic_then [OF inner_replay_if])
  fix y
  let ?P = "\<lambda>x. x = d \<and> (\<forall>resp. y = Some resp \<longrightarrow> replay_answer (redeem_key r) (xq_secret_hash r) d = Some resp)"
  have go: "atomic (\<lambda>x. \<exists>n u t. (m = 0 \<or> redeemable (xq_secret_hash r) t d n u) \<and> x = (if m = 0 then d else spend_one n t d))
      (if m = 0 then unspent (redeem_key r) r else redeemed (redeem_key r) r) (redeem_result r d)" for m :: nat
    by (intro atomic_ex atomic_pure, cases "m = 0") (simp_all add: atomic_unspent atomic_redeemed [OF assms])
  have "atomic (\<lambda>x. x = d) (and_then (fits_password_column (xq_argon2id_hash r)) (\<lambda>_.
         and_then (lock_owner (xq_secret_hash r)) (\<lambda>_. and_then (spend (xq_secret_hash r)) (\<lambda>n.
         if n = 0 then unspent (redeem_key r) r else redeemed (redeem_key r) r)))) (redeem_result r d)"
    by (rule atomic_then [OF inner_fits], rule atomic_then [OF inner_lock_owner],
        rule atomic_then [OF inner_spend [OF assms]], rule go)
  then show "atomic ?P (case y of
       Some resp \<Rightarrow> and_then commit (\<lambda>_. and_then (emit (Finished 0)) (\<lambda>_. ok resp))
     | None \<Rightarrow>
         and_then (fits_password_column (xq_argon2id_hash r)) (\<lambda>_.
         and_then (lock_owner (xq_secret_hash r)) (\<lambda>_.
         and_then (spend (xq_secret_hash r)) (\<lambda>n.
         if n = 0 then unspent (redeem_key r) r else redeemed (redeem_key r) r)))) (redeem_result r d)"
    by (auto split: option.split intro!: atomic_commit simp: redeem_result_def)
qed

lemma redeem_outcome_of:
  assumes "alone e" and "store_ok d" and "run (redeem r) e d = (res, d', ev)"
  shows "(\<not> is_ok res \<and> d' = d) \<or> (\<exists>resp. redeem_result r d resp d' \<and> (\<forall>y. res = Inr y \<longrightarrow> y = resp))"
  by (rule atomic_run [OF assms(1) atomic_redeem [OF assms(2)]
        assms(3) [unfolded redeem_def Let_def, folded redeem_key_def]])

section \<open>A second delivery\<close>

lemma relies_alone: "alone e \<Longrightarrow> hist.relies e"
  by (simp add: alone_def hist.relies_def hist.R_refl)

lemma redeem_step:
  assumes "alone e" and "store_ok d" and "run (redeem r) e d = (res, d', ev)"
  shows "step_ok d d' \<and> store_ok d'"
  using hist.keeps_run [OF keeps_redeem relies_alone [OF assms(1)] assms(2,3)] .

lemma find_enrolment_unique:
  assumes "store_ok d" and "n \<in> set (iam_enrolment d)" shows "find_enrolment (e_id n) d = Some n"
proof -
  from assms(1) have "distinct (map (\<lambda>n. text_key (e_id n)) (iam_enrolment d))"
    by (simp add: store_ok_def enrolments_ok_def)
  from spent.lookup_unique [OF this assms(2)] show ?thesis by (simp add: find_enrolment_def)
qed

lemma find_redemption_unique:
  assumes "store_ok d" and "p \<in> set (iam_enrolment_redemption d)" and "sql_eq (rd_key p) k"
  shows "find_redemption k d = Some p"
proof -
  from assms(1) have "distinct (map (\<lambda>p. text_key (rd_key p)) (iam_enrolment_redemption d))"
    by (simp add: store_ok_def redemptions_ok_def)
  from filter_key_unique [OF this assms(2)] assms(3) show ?thesis by (simp add: find_redemption_def)
qed

lemma redemption_replays:
  assumes d': "d' = redemption k h n u t t' t'' d" and "store_ok d'" and "redeemable s t d n u" and "k \<noteq> []"
  shows "replay_answer k s d' = Some ((redeem_answer n u d)\<lparr>xr_voided_enrolments := 0\<rparr>)"
proof -
  let ?p = "\<lparr>rd_key = k, rd_secret_hash = e_secret_hash n, rd_enrolment_id = e_id n, rd_user_id = e_user_id n,
      rd_epoch = u_epoch u + 1\<rparr>"
  let ?u = "u\<lparr>u_epoch := u_epoch u + 1\<rparr>" and ?n = "n\<lparr>e_spent_at := Some t\<rparr>"
  have "?p \<in> set (iam_enrolment_redemption d')"
    using assms(4) by (simp add: d' redemption_def log_redemption_def set_hash_def)
  then have p: "find_redemption k d' = Some ?p"
    using find_redemption_unique [OF assms(2), of ?p] by simp
  have "iam_user d' = iam_user (next_epoch (e_user_id n) d)"
    by (simp add: d' redemption_def log_redemption_def set_hash_def end_all_def next_epoch_def spend_one_def)
  then have "?u \<in> set (iam_user d')"
    using assms(3) by (auto simp: redeemable_def next_epoch_def set_upd intro!: image_eqI [of _ _ u])
  then have u: "find_user d' (e_user_id n) = Some ?u"
    using find_user_unique [OF assms(2), of ?u] assms(3) by (simp add: redeemable_def)
  have "?n \<in> set (iam_enrolment (spend_one n t d))"
    using assms(3) by (auto simp: redeemable_def spend_one_def set_upd intro!: image_eqI [of _ _ n])
  then have "?n \<in> set (iam_enrolment d')"
    by (auto simp: d' redemption_def log_redemption_def set_hash_def end_all_def next_epoch_def held_open_def
        set_upd intro!: image_eqI [of _ _ ?n])
  then have "find_enrolment (e_id n) d' = Some ?n"
    using find_enrolment_unique [OF assms(2), of ?n] by simp
  with p u assms(3) show ?thesis by (simp add: replay_answer_def redeem_answer_def redeemable_def)
qed

lemma calm_replay:
  assumes "calm e" and "replay_answer (redeem_key r) (xq_secret_hash r) d = Some resp" and "redeem_key r \<noteq> []"
  shows "run (redeem r) e d = (Inr resp, d, [Finished 0])"
proof -
  from assms(2) obtain p u n where "find_redemption (redeem_key r) d = Some p" "rd_secret_hash p = xq_secret_hash r"
      "find_user d (rd_user_id p) = Some u" "find_enrolment (rd_enrolment_id p) d = Some n"
      "resp = \<lparr>xr_outcome = Redeemed, xr_user_id = rd_user_id p, xr_enrolment_id = rd_enrolment_id p,
         xr_external_id_ciphertext = u_external_ct u, xr_revoked_existing_credentials = e_revoke_existing n,
         xr_credential_epoch = rd_epoch p, xr_voided_enrolments = 0\<rparr>"
    by (auto simp: replay_answer_def split: option.splits if_splits)
  with assms(1,3) show ?thesis
    by (simp add: redeem_def replay_def locked_if_def calm_run redeem_key_def [symmetric] Let_def)
qed

section \<open>Properties\<close>

text \<open>A redemption of Alice's open enrolment under a key of its own.\<close>

definition sample_redeem :: redeem_request where
  "sample_redeem = \<lparr>xq_secret_hash = [5], xq_argon2id_hash = ''argon-b'', xq_idempotency = Some ''key-2''\<rparr>"

lemma sample_redeem_moves:
  "length (iam_enrolment_redemption (fst (snd (run (redeem sample_redeem) calm_env sample_db)))) = 2"
  by (simp add: sample_redeem_def redeem_def calm_run calm_calm_env replay_def find_redemption_def locked_if_def
      fits_password_column_def MAX_ARGON2ID_HASH_def lock_owner_def by_secret_def find_user_def spend_def spend_stm_def
      spendable_def cnt_def redeemed_def redeemed_row_def bump_def bump_stm_def incr64_def current_def revoke_every_def
      revoke_stm_def void_def void_stm_def ups_password_stm_def ups_password_def has_user_def upsert_def
      ledger_stm_def ins_redemption_def has_enrolment_def Let_def sample_defs
      calm_env_def [THEN arg_cong [where f = clock]])

text \<open>C9. With no other session at work, a redemption is all or nothing: whichever statement the engine refuses and whichever reply,
  the commit's included, is lost, the store is the one the call found, or the one in which an open
  and unexpired enrolment of a live person is spent, their epoch is one further, their password is
  the new one, everything else they held is ended where the enrolment says so, and the ledger has
  the call's row. What is answered is what happened.\<close>

theorem redeem_all_or_nothing:
  assumes "alone e" and "store_ok d" and "run (redeem r) e d = (res, d', ev)"
  shows "(d' = d \<and> (\<forall>y. res = Inr y \<longrightarrow> xr_outcome y = Redeemed \<longrightarrow>
             replay_answer (redeem_key r) (xq_secret_hash r) d = Some y)) \<or>
     (\<exists>n u t t' t''. redeemable (xq_secret_hash r) t d n u \<and>
        d' = redemption (redeem_key r) (xq_argon2id_hash r) n u t t' t'' d \<and>
        (\<forall>y. res = Inr y \<longrightarrow> y = redeem_answer n u d))"
proof -
  from redeem_outcome_of [OF assms] consider (refused) "\<not> is_ok res" "d' = d"
    | (answered) resp where "d' = d" "xr_outcome resp \<noteq> Redeemed \<or> replay_answer (redeem_key r) (xq_secret_hash r) d = Some resp"
        "\<forall>y. res = Inr y \<longrightarrow> y = resp"
    | (redeemed) n u t t' t'' where "redeemable (xq_secret_hash r) t d n u"
        "d' = redemption (redeem_key r) (xq_argon2id_hash r) n u t t' t'' d" "\<forall>y. res = Inr y \<longrightarrow> y = redeem_answer n u d"
    unfolding redeem_result_def by metis
  then show ?thesis
  proof cases
    case redeemed
    then show ?thesis by blast
  qed auto
qed

theorem redeem_all_or_nothing_witness:
  "\<exists>n u t t' t''. redeemable [5] t sample_db n u \<and>
     fst (snd (run (redeem sample_redeem) calm_env sample_db)) = redemption ''key-2'' ''argon-b'' n u t t' t'' sample_db"
proof -
  obtain res d' ev where r: "run (redeem sample_redeem) calm_env sample_db = (res, d', ev)"
    by (metis prod.exhaust)
  have "d' \<noteq> sample_db" using sample_redeem_moves r by (auto simp: sample_defs)
  with redeem_all_or_nothing [OF alone_calm [OF calm_calm_env] store_ok_sample_db r]
  have "\<exists>n u t t' t''. redeemable [5] t sample_db n u \<and> d' = redemption ''key-2'' ''argon-b'' n u t t' t'' sample_db"
    unfolding sample_redeem_def redeem_key_def redeem_request.select_convs option.case by blast
  with r show ?thesis by simp
qed



end
