(* ===== verification/Locking.thy ===== *)
theory Locking
  imports Credential Sample
begin

text \<open>
  Why a revoke-all is complete while other sessions work. The user row is locked exclusively before
  the first write, and every writer that adds a credential or an enrolment for a person takes that
  row first (\<open>src/src/service/enrolment/revoke.rs\<close>): while the lock is held, others can end what the
  person holds and cannot add to it. \<open>heeds_locks\<close> states that discipline of the environment.
\<close>

section \<open>What a person holds\<close>

definition live_of :: "string \<Rightarrow> db \<Rightarrow> credential_row set" where
  "live_of x d = {c \<in> set (iam_credential d). sql_eq (c_user_id c) x \<and> c_revoked_at c = None}"

definition open_of :: "string \<Rightarrow> db \<Rightarrow> enrolment_row set" where
  "open_of x d = {n \<in> set (iam_enrolment d). sql_eq (e_user_id n) x \<and> e_spent_at n = None \<and> e_voided_at n = None}"

definition heeds_locks :: "env \<Rightarrow> bool" where
  "heeds_locks e \<longleftrightarrow> (\<forall>n L d x. Exclusive (UserRow (text_key x)) \<in> set L \<longrightarrow>
     live_of x (others e n L d) \<subseteq> live_of x d \<and> open_of x (others e n L d) \<subseteq> open_of x d)"

definition locked :: "string \<Rightarrow> world \<Rightarrow> bool" where
  "locked x w \<longleftrightarrow> (\<exists>t. tx w = Some t \<and> Exclusive (UserRow (text_key x)) \<in> set (held t))"

section \<open>Lemmas\<close>

lemma locked_settle:
  assumes "heeds_locks e" and "locked x w"
  shows "locked x (settle e w) \<and> live_of x (cur (settle e w)) \<subseteq> live_of x (cur w) \<and>
     open_of x (cur (settle e w)) \<subseteq> open_of x (cur w)"
proof -
  from assms(2) obtain t where t: "tx w = Some t" "Exclusive (UserRow (text_key x)) \<in> set (held t)"
    by (auto simp: locked_def)
  with assms(1) have "live_of x (others e (steps w) (held t) (work t)) \<subseteq> live_of x (work t)"
      "open_of x (others e (steps w) (held t) (work t)) \<subseteq> open_of x (work t)"
    unfolding heeds_locks_def by blast+
  with t show ?thesis by (simp add: locked_def settle_tx cur_def drift_def locks_of_def)
qed

lemma locked_put_cur [simp]: "locked x (put_cur d w) = locked x w"
  by (cases "tx w") (auto simp: locked_def put_cur_def)

lemma locked_hold: "locked x w \<Longrightarrow> locked x (hold L w)"
  by (auto simp: locked_def hold_def)

lemma hold_locks: "tx w \<noteq> None \<Longrightarrow> locked x (hold [Exclusive (UserRow (text_key x))] w)"
  by (auto simp: locked_def hold_def)

lemma tx_settle: "tx w \<noteq> None \<Longrightarrow> tx (settle e w) \<noteq> None"
  by (auto simp: settle_tx)

lemma revoke_stm_clears: "revoke_stm x t d = Inr (n, d') \<Longrightarrow> live_of x d' = {}"
  by (auto simp: revoke_stm_def Let_def live_of_def set_upd)

lemma void_stm_clears:
  assumes "void_stm x t d = Inr (n, d')" shows "open_of x d' = {} \<and> live_of x d' = live_of x d"
proof -
  from assms have "d' = d\<lparr>iam_enrolment := upd (\<lambda>n. sql_eq (e_user_id n) x \<and> e_spent_at n = None \<and>
      e_voided_at n = None) (\<lambda>n. n\<lparr>e_voided_at := Some t\<rparr>) (iam_enrolment d)\<rparr>"
    by (simp add: void_stm_def Let_def)
  then show ?thesis by (auto simp: open_of_def live_of_def set_upd)
qed

lemma bump_stm_holds: "bump_stm P t d = Inr (n, d') \<Longrightarrow> live_of x d' = live_of x d \<and> open_of x d' = open_of x d"
  by (auto simp: bump_stm_def live_of_def open_of_def split: if_splits)

lemma revoke_every_clears:
  assumes "heeds_locks e" and "tx w \<noteq> None" and "revoke_every x e w = (Inr (Some n), w')"
  shows "locked x w' \<and> live_of x (cur w') = {}"
proof -
  from assms(3) obtain u w1 where w1: "select_lock [Exclusive (UserRow (text_key x))] (\<lambda>t d. find_user d x) e w = (Inr u, w1)"
      and w': "stmt (revoke_stm x) e w1 = (Inr n, w')"
    by (auto simp: revoke_every_def and_then_Inr ok_def split: option.splits)
  from select_lock_Inr [OF w1] assms(2) have "locked x w1" by (auto intro!: hold_locks tx_settle)
  with locked_settle assms(1) have "locked x (settle e w1)" by blast
  with stmt_Inr [OF w'] revoke_stm_clears show ?thesis by auto
qed

lemma bump_holds:
  assumes "heeds_locks e" and "locked x w" and "bump x e w = (Inr n, w')"
  shows "locked x w' \<and> live_of x (cur w') \<subseteq> live_of x (cur w) \<and> open_of x (cur w') \<subseteq> open_of x (cur w)"
proof -
  from stmt_lock_Inr [OF assms(3) [unfolded bump_def]] obtain d where
      d: "bump_stm (\<lambda>u. sql_eq (u_id u) x) (clock e (steps w)) (cur (settle e w)) = Inr (n, d)"
      "w' = hold [Exclusive (UserRow (text_key x))] (put_cur d (settle e w))" by blast
  with locked_settle [OF assms(1,2)] bump_stm_holds [OF d(1), of x] show ?thesis
    by (auto intro: locked_hold)
qed

lemma void_clears:
  assumes "heeds_locks e" and "locked x w" and "live_of x (cur w) = {}" and "void x e w = (Inr n, w')"
  shows "locked x w' \<and> live_of x (cur w') = {} \<and> open_of x (cur w') = {}"
proof -
  from assms(4) obtain m where "stmt (void_stm x) e w = (Inr m, w')"
    by (auto simp: void_def and_then_Inr ok_def)
  from stmt_Inr [OF this] obtain d where d: "void_stm x (clock e (steps w)) (cur (settle e w)) = Inr (m, d)"
      "w' = put_cur d (settle e w)" by blast
  with locked_settle [OF assms(1,2)] void_stm_clears [OF d(1)] assms(3) show ?thesis by auto
qed

lemma commit_holds:
  assumes "heeds_locks e" and "locked x w" and "commit e w = (Inr u, w')"
  shows "live_of x (committed w') \<subseteq> live_of x (cur w) \<and> open_of x (committed w') \<subseteq> open_of x (cur w)"
  using commit_Inr [OF assms(3)] locked_settle [OF assms(1,2)] by simp

lemma heeds_locks_calm: "calm e \<Longrightarrow> heeds_locks e"
  by (simp add: calm_def heeds_locks_def)

lemma sample_revoke_all:
  "is_ok (fst (run (revoke_all \<lparr>aq_user_id = alice, aq_actor = None\<rparr> []) calm_env sample_db))"
  by (simp add: revoke_all_def calm_run calm_calm_env record_actor_def revoke_every_def bump_def void_def
      find_user_def bump_stm_def revoke_stm_def void_stm_def incr64_def Let_def sample_defs)

text \<open>C8. A revoke-all that answers leaves the person no live credential and no open enrolment,
  whatever sessions that respect the lock on the user row did during the call.\<close>

theorem revoke_all_complete:
  assumes "heeds_locks e" and "run (revoke_all r rid) e d = (Inr resp, d', ev)"
  shows "live_of (aq_user_id r) d' = {} \<and> open_of (aq_user_id r) d' = {}"
proof -
  let ?x = "aq_user_id r"
  obtain w where "revoke_all r rid e \<lparr>committed = d, tx = None, steps = 0, events = []\<rparr> = (Inr resp, w)"
      and d': "d' = committed w"
    using assms(2) by (auto simp: run_def split: prod.splits)
  then obtain w0 w1 n w2 m w3 v w4 w5 where tx: "begin_tx Default e w0 = (Inr (), w1)"
      and rev: "revoke_every ?x e w1 = (Inr (Some n), w2)" and bump: "bump ?x e w2 = (Inr m, w3)"
      and void: "void ?x e w3 = (Inr v, w4)" and com: "commit e w4 = (Inr (), w5)"
      and w: "committed w = committed w5"
    by (auto simp: revoke_all_def ask_def and_then_Inr refuse_call_def fail_def emit_def ok_def split: option.splits)
  have "tx w1 \<noteq> None" using begin_tx_open [OF tx] by auto
  from revoke_every_clears [OF assms(1) this rev] have w2: "locked ?x w2" "live_of ?x (cur w2) = {}" by auto
  from bump_holds [OF assms(1) w2(1) bump] w2(2) have w3: "locked ?x w3" "live_of ?x (cur w3) = {}" by auto
  from void_clears [OF assms(1) w3 void] have "locked ?x w4" "live_of ?x (cur w4) = {}" "open_of ?x (cur w4) = {}"
    by auto
  with commit_holds [OF assms(1) _ com, of ?x] show ?thesis using d' w by auto
qed

theorem revoke_all_complete_witness:
  "\<exists>resp d' ev. run (revoke_all \<lparr>aq_user_id = alice, aq_actor = None\<rparr> []) calm_env sample_db = (Inr resp, d', ev) \<and>
     live_of alice d' = {} \<and> open_of alice d' = {}"
proof -
  from sample_revoke_all obtain resp d' ev where
    r: "run (revoke_all \<lparr>aq_user_id = alice, aq_actor = None\<rparr> []) calm_env sample_db = (Inr resp, d', ev)"
    by (rule run_answers)
  with revoke_all_complete [OF heeds_locks_calm [OF calm_calm_env] r] show ?thesis by simp
qed

end
