(* ===== verification/Revocation.thy ===== *)
theory Revocation
  imports Redemption Password Locking
begin

text \<open>
  What the epoch is for, across the components that read it: an epoch a caller was told, by a login
  or by a redemption, is never ahead of the store, so a revoke-all that ran since then refuses the
  mint that carries it. And what a spent enrolment is good for: nothing.
\<close>

section \<open>Epochs a caller was told\<close>

lemma ledger_epoch:
  assumes "store_ok d" and "find_redemption k d = Some p"
  shows "epoch_from (rd_user_id p) (rd_epoch p) d"
proof -
  from assms(2) have "p \<in> set (iam_enrolment_redemption d)"
    unfolding find_redemption_def by (auto dest: fetch_optional_filter)
  with assms(1) have "epoch_reached (iam_user d) p" by (simp add: store_ok_def redemptions_ok_def)
  then obtain u where u: "u \<in> set (iam_user d)" "sql_eq (u_id u) (rd_user_id p)" "rd_epoch p \<le> u_epoch u"
    by (auto simp: epoch_reached_def)
  with find_user_unique [OF assms(1) u(1,2)] show ?thesis by (simp add: epoch_from_def epoch_at_def)
qed

definition told :: "redeem_response \<Rightarrow> db \<Rightarrow> bool" where
  "told resp d \<longleftrightarrow> (xr_outcome resp = Redeemed \<longrightarrow> epoch_from (xr_user_id resp) (xr_credential_epoch resp) d)"

lemma stable_told: "hist.stable (told resp)"
  using stable_epoch_from unfolding told_def hist.stable_def by blast

lemma keeps_replay_told:
  "hist.keeps (\<lambda>_. True) (replay k h l) (\<lambda>y d. \<forall>resp. y = Some resp \<longrightarrow> told resp d)"
proof -
  let ?Q = "\<lambda>p d. \<forall>q. p = Some q \<longrightarrow> epoch_from (rd_user_id q) (rd_epoch q) d"
  have row: "hist.keeps (\<lambda>_. True) (select_lock L (\<lambda>t d. find_redemption k d)) ?Q" for L
    by (rule hist.keeps_select_lock [OF hist.stable_True]) (auto dest: ledger_epoch)
  show ?thesis unfolding replay_def
  proof (rule hist.keeps_and_then [OF row])
    fix p
    show "hist.keeps (?Q p) (case p of None \<Rightarrow> ok None
     | Some p \<Rightarrow> if rd_secret_hash p \<noteq> h then fail different_secret
         else and_then (fetch_one (\<lambda>d. map_option u_external_ct (find_user d (rd_user_id p)))) (\<lambda>ct.
           and_then (fetch_one (\<lambda>d. map_option e_revoke_existing (find_enrolment (rd_enrolment_id p) d))) (\<lambda>revoked.
           ok (Some \<lparr>xr_outcome = Redeemed, xr_user_id = rd_user_id p,
               xr_enrolment_id = rd_enrolment_id p, xr_external_id_ciphertext = ct,
               xr_revoked_existing_credentials = revoked, xr_credential_epoch = rd_epoch p,
               xr_voided_enrolments = 0\<rparr>))))
      (\<lambda>y d. \<forall>resp. y = Some resp \<longrightarrow> told resp d)"
      by (cases p) (auto intro!: hist.keeps_ok hist.keeps_fail hist.keeps_and_then
          [OF hist.keeps_fetch_one [OF stable_epoch_from, where Q = "\<lambda>_. epoch_from (rd_user_id (the p)) (rd_epoch (the p))"]]
          simp: told_def)
  qed
qed

lemma keeps_replay_if_told:
  "hist.keeps (\<lambda>_. True) (if k \<noteq> [] then replay k h l else ok None) (\<lambda>y d. \<forall>resp. y = Some resp \<longrightarrow> told resp d)"
  using keeps_replay_told by (auto intro!: hist.keeps_ok)

lemma keeps_answer_told:
  "hist.keeps (told resp) (and_then commit (\<lambda>_. and_then (emit v) (\<lambda>_. ok resp))) told"
  by (intro hist.keeps_and_then [OF hist.keeps_commit_stable [OF stable_told]]
      hist.keeps_and_then [OF hist.keeps_emit] hist.keeps_ok) simp

lemma keeps_unredeemable: "hist.keeps (\<lambda>_. True) (unredeemable h) (\<lambda>out _. out \<noteq> Redeemed)"
  unfolding unredeemable_def
  by (intro hist.keeps_and_then [OF hist.keeps_select [OF hist.stable_True, where Q = "\<lambda>_ _. True"]] hist.keeps_ok)
     (auto split: option.splits)

lemma keeps_unredeemable_told:
  "hist.keeps (\<lambda>_. True) (and_then (unredeemable h) (\<lambda>out.
     and_then commit (\<lambda>_. and_then (emit v) (\<lambda>_. ok (refused_redeem out))))) told"
proof -
  have "told (refused_redeem out) d" if "out \<noteq> Redeemed" for out d
    using that by (simp add: told_def refused_redeem_def)
  then show ?thesis
    by (auto intro!: hist.keeps_and_then [OF keeps_unredeemable] intro: hist.keeps_weaken [OF keeps_answer_told])
qed

lemma keeps_replayed_told:
  assumes "hist.keeps (\<lambda>_. True) m told"
  shows "hist.keeps (\<lambda>_. True) (and_then (if k \<noteq> [] then replay k h l else ok None) (\<lambda>y. case y of
     Some resp \<Rightarrow> and_then commit (\<lambda>_. and_then (emit v) (\<lambda>_. ok resp)) | None \<Rightarrow> m)) told"
  by (rule hist.keeps_and_then [OF keeps_replay_if_told])
     (auto split: option.split intro: hist.keeps_weaken [OF keeps_answer_told] hist.keeps_weaken [OF assms])

lemma keeps_unspent_told: "hist.keeps (\<lambda>_. True) (unspent k r) told"
  unfolding unspent_def by (rule keeps_replayed_told [OF keeps_unredeemable_told])

lemma starts_redeem: "hist.starts (\<lambda>_. True) (redeem r) told"
proof -
  let ?h = "xq_secret_hash r"
  have redeemed: "hist.keeps (spent_in ?h) (redeemed k r) told" if "length (xq_argon2id_hash r) \<le> 255" for k
    by (rule hist.keeps_weaken [OF keeps_redeemed [OF that]]) (simp_all add: told_def)
  have "hist.keeps (\<lambda>d. n \<noteq> 0 \<longrightarrow> spent_in ?h d) (if n = 0 then unspent k r else redeemed k r) told"
    if "length (xq_argon2id_hash r) \<le> 255" for k and n :: nat
    using hist.keeps_weaken [OF keeps_unspent_told] hist.keeps_weaken [OF redeemed [OF that]]
    by (cases "n = 0") simp_all
  note go = this
  have "hist.keeps (\<lambda>_. True) (and_then (fits_password_column (xq_argon2id_hash r)) (\<lambda>_.
      and_then (lock_owner ?h) (\<lambda>_. and_then (spend ?h) (\<lambda>n. if n = 0 then unspent k r else redeemed k r)))) told" for k
  proof (cases "length (xq_argon2id_hash r) \<le> 255")
    case True
    then show ?thesis
      by (intro hist.keeps_and_then [OF keeps_fits_any] hist.keeps_and_then [OF keeps_lock_owner]
          hist.keeps_and_then [OF keeps_spend] go)
  next
    case False
    then show ?thesis
      by (simp add: fits_password_column_def MAX_ARGON2ID_HASH_def hist.keeps_def and_then_def fail_def)
  qed
  then show ?thesis unfolding redeem_def Let_def
    by (intro hist.starts_and_then [OF hist.keeps_acquire shut_acquire] hist.starts_begin_tx [OF hist.stable_True]
        keeps_replayed_told)
qed

lemma closes_answer: "closes (and_then commit (\<lambda>_. and_then (emit v) (\<lambda>_. ok x)))"
  by (intro closed_then [OF closes_commit] shut_then shut_emit shut_ok)

lemma closes_redeem: "closes (redeem r)"
  unfolding redeem_def unspent_def redeemed_def Let_def
  by (auto intro!: closes_then closes_answer closed_then [OF closes_commit] shut_then shut_emit shut_ok split: option.split)

lemma redeem_told:
  assumes "hist.relies e" and "store_ok d" and "run (redeem r) e d = (Inr resp, d', ev)"
  shows "told resp d'"
  by (rule hist.starts_run [OF starts_redeem closes_shut [OF closes_redeem] assms(1,2) TrueI assms(3)])

text \<open>The read of a login: the hash and the epoch come from one statement.\<close>

lemma hash_row_epoch:
  assumes "store_ok d" and "fetch_optional (hash_rows b d) = Some (u, p)"
  shows "epoch_from (u_id u) (u_epoch u) d"
proof -
  from assms(2) have "u \<in> set (iam_user d)" unfolding hash_rows_def by (auto dest!: fetch_optional_filter)
  with find_user_unique [OF assms(1) this, of "u_id u"] show ?thesis by (simp add: epoch_from_def epoch_at_def)
qed

lemma keeps_password_hash_epoch:
  "hist.keeps (\<lambda>_. True) (password_hash b)
     (\<lambda>resp d. gr_user_id resp \<noteq> [] \<longrightarrow> epoch_from (gr_user_id resp) (gr_credential_epoch resp) d)"
  unfolding password_hash_def Let_def
proof (rule hist.keeps_and_then [OF hist.keeps_acquire], rule hist.keeps_and_then)
  show "hist.keeps (\<lambda>_. True) (select (\<lambda>t d. fetch_optional (hash_rows b d)))
      (\<lambda>row d. \<forall>u p. row = Some (u, p) \<longrightarrow> epoch_from (u_id u) (u_epoch u) d)"
    by (rule hist.keeps_select [OF hist.stable_True]) (auto dest: hash_row_epoch)
qed (auto intro!: hist.keeps_and_then [OF hist.keeps_emit] hist.keeps_ok simp: empty_password_hash_def split: option.split)

lemma shut_password_hash: "shut (password_hash b)"
  unfolding password_hash_def Let_def by (auto intro!: shut_then shut_acquire shut_select shut_emit shut_ok)

lemma login_epoch:
  assumes "hist.relies e" and "store_ok d" and "run (password_hash b) e d = (Inr resp, d', ev)"
    and "gr_user_id resp \<noteq> []"
  shows "epoch_from (gr_user_id resp) (gr_credential_epoch resp) d'"
  using hist.starts_run [OF hist.starts_keeps [OF keeps_password_hash_epoch] shut_password_hash assms(1,2) TrueI assms(3)]
    assms(4) by simp

text \<open>The race both callers can lose: whatever happens between the three calls.\<close>

lemma epoch_from_step: "epoch_from x n d \<Longrightarrow> step_ok d d' \<Longrightarrow> store_ok d \<Longrightarrow> epoch_from x n d'"
  using stableD [OF stable_epoch_from] by blast

lemma revoked_since:
  assumes "store_ok d" and "epoch_from x n d" and "step_ok d d2"
    and "hist.relies e" and "run (revoke_all a rid) e d2 = (Inr resp, d3, ev)" and "aq_user_id a = x"
    and "step_ok d3 d4" and "hist.relies e'" and "cq_user_id c = x" and "cq_expected_epoch c = Some n"
  shows "\<not> is_ok (fst (run (mint_credential c rid') e' d4))"
proof -
  have ok2: "store_ok d2" using assms(1,3) by (simp add: step_ok_def)
  have "epoch_from x n d2" by (rule epoch_from_step [OF assms(2,3,1)])
  then have e3: "epoch_from x (n + 1) d3" using revoke_all_epoch [OF assms(4) ok2 _ assms(5)] assms(6) by simp
  have ok3: "store_ok d3" using hist.keeps_run [OF keeps_revoke_all assms(4) ok2 assms(5)] by simp
  have "epoch_from x (n + 1) d4" by (rule epoch_from_step [OF e3 assms(7) ok3])
  moreover have "store_ok d4" using assms(7) ok3 by (simp add: step_ok_def)
  ultimately show ?thesis using mint_never_answers [OF assms(8) _ _ assms(10)] assms(9) by simp
qed

section \<open>A spent enrolment\<close>

lemma spend_spent:
  assumes "store_ok d" and "spent_in h d" shows "spend_stm h t d = Inr (0, d)"
proof -
  let ?P = "\<lambda>n. spendable h t d n \<and> e_spent_at n = None \<and> e_voided_at n = None"
  have "\<not> ?P n" if "n \<in> set (iam_enrolment d)" for n
    using that assms(2) secret_unique [OF assms(1)] unfolding spent_in_def spendable_def by metis
  then have "cnt ?P (iam_enrolment d) = 0" "upd ?P (\<lambda>n. n\<lparr>e_spent_at := Some t\<rparr>) (iam_enrolment d) = iam_enrolment d"
    unfolding cnt_0 by (blast, intro upd_none) blast
  then show ?thesis by (simp add: spend_stm_def Let_def)
qed

lemma keeps_spend_spent: "hist.keeps (spent_in h) (spend h) (\<lambda>n _. n = 0)"
  unfolding spend_def by (rule hist.keeps_stmt [OF stable_spent_in]) (use spend_spent hist.R_refl in auto)

lemma keeps_lock_owner_stable:
  assumes "hist.stable P" shows "hist.keeps P (lock_owner h) (\<lambda>_. P)"
  unfolding lock_owner_def
  by (intro hist.keeps_and_then [OF hist.keeps_select [OF assms, where Q = "\<lambda>_. P"]])
     (auto intro!: hist.keeps_ok hist.keeps_and_then [OF hist.keeps_select_lock [OF assms, where Q = "\<lambda>_. P"]]
       split: option.split)

lemma starts_redeem_spent:
  assumes "redeem_key r = []"
  shows "hist.starts (spent_in (xq_secret_hash r)) (redeem r) (\<lambda>resp _. xr_outcome resp \<noteq> Redeemed)"
proof -
  let ?h = "xq_secret_hash r"
  have un: "hist.keeps (\<lambda>_. True) (unspent [] r) (\<lambda>resp _. xr_outcome resp \<noteq> Redeemed)"
    unfolding unspent_def
    by (auto simp: refused_redeem_def intro!: hist.keeps_and_then [where Q = "\<lambda>y _. y = None"] hist.keeps_ok
        hist.keeps_and_then [OF hist.keeps_weaken [OF keeps_unredeemable]] hist.keeps_and_then [OF hist.keeps_commit_stable [OF hist.stable_pure]]
        hist.keeps_and_then [OF hist.keeps_emit] split: option.split)
  have go: "hist.keeps (\<lambda>_. n = 0) (if n = 0 then unspent [] r else redeemed [] r) (\<lambda>resp _. xr_outcome resp \<noteq> Redeemed)"
    for n :: nat
  proof (cases "n = 0")
    case True
    with un show ?thesis by simp
  next
    case False
    then show ?thesis by (simp add: hist.keeps_def)
  qed
  have fits: "hist.keeps (spent_in ?h) (fits_password_column (xq_argon2id_hash r)) (\<lambda>_. spent_in ?h)"
    by (rule hist.keeps_weaken [OF keeps_fits [where P = "spent_in ?h"]]) auto
  have none: "and_then (ok x) f = f x" for x :: "'c" and f :: "'c \<Rightarrow> 'd act"
    by (simp add: and_then_def ok_def fun_eq_iff)
  show ?thesis unfolding redeem_def Let_def redeem_key_def [symmetric] assms
    by (intro hist.starts_and_then [OF hist.keeps_acquire shut_acquire] hist.starts_begin_tx [OF stable_spent_in])
       (simp only: simp_thms if_False none option.case,
        intro hist.keeps_and_then [OF fits] hist.keeps_and_then [OF keeps_lock_owner_stable [OF stable_spent_in]]
          hist.keeps_and_then [OF keeps_spend_spent] go)
qed

section \<open>Properties\<close>

text \<open>C11. A secret is good for one redemption: once its enrolment is spent, a delivery without an
  idempotency key is never answered \<open>REDEEMED\<close> again, whoever else is at work.\<close>

theorem secret_is_single_use:
  assumes "hist.relies e" and "store_ok d" and "n \<in> set (iam_enrolment d)" and "e_spent_at n \<noteq> None"
    and "xq_secret_hash r = e_secret_hash n" and "redeem_key r = []"
    and "run (redeem r) e d = (Inr resp, d', ev)"
  shows "xr_outcome resp \<noteq> Redeemed"
proof -
  have "spent_in (xq_secret_hash r) d" using assms(3-5) by (auto simp: spent_in_def)
  then show ?thesis by (rule hist.starts_answer [OF starts_redeem_spent [OF assms(6)] assms(1,2) _ assms(7)])
qed

theorem secret_is_single_use_witness:
  "\<exists>resp. fst (run (redeem \<lparr>xq_secret_hash = [4], xq_argon2id_hash = ''argon-c'', xq_idempotency = None\<rparr>) calm_env sample_db)
     = Inr resp \<and> xr_outcome resp \<noteq> Redeemed"
proof -
  let ?r = "\<lparr>xq_secret_hash = [4], xq_argon2id_hash = ''argon-c'', xq_idempotency = None\<rparr>"
  have "is_ok (fst (run (redeem ?r) calm_env sample_db))"
    by (simp add: redeem_def calm_run calm_calm_env fits_password_column_def MAX_ARGON2ID_HASH_def lock_owner_def
        by_secret_def find_user_def spend_def spend_stm_def cnt_def spendable_def unspent_def unredeemable_def
        unredeemable_rows_def Let_def sample_defs)
  then obtain resp d' ev where r: "run (redeem ?r) calm_env sample_db = (Inr resp, d', ev)" by (rule run_answers)
  have "spent_enrolment \<in> set (iam_enrolment sample_db)" "e_spent_at spent_enrolment \<noteq> None"
      "xq_secret_hash ?r = e_secret_hash spent_enrolment" "redeem_key ?r = []"
    by (simp_all add: sample_defs redeem_key_def)
  from secret_is_single_use [OF relies_alone [OF alone_calm [OF calm_calm_env]] store_ok_sample_db this r] r
  show ?thesis by simp
qed

text \<open>C12. A revoke-all beats a redemption that came first: the epoch a redemption answered, first
  delivery or replay, mints nothing after a revoke-all of that person, whatever else happened in
  between, before and after.\<close>

theorem revoke_all_beats_redemption:
  assumes "hist.relies e" and "store_ok d" and "run (redeem r) e d = (Inr resp, d1, ev)"
    and "xr_outcome resp = Redeemed" and "step_ok d1 d2"
    and "hist.relies e'" and "run (revoke_all a rid) e' d2 = (Inr all, d3, ev')" and "aq_user_id a = xr_user_id resp"
    and "step_ok d3 d4" and "hist.relies e''"
    and "cq_user_id c = xr_user_id resp" and "cq_expected_epoch c = Some (xr_credential_epoch resp)"
  shows "\<not> is_ok (fst (run (mint_credential c rid') e'' d4))"
proof -
  have "epoch_from (xr_user_id resp) (xr_credential_epoch resp) d1"
    using redeem_told [OF assms(1-3)] assms(4) by (simp add: told_def)
  moreover have "store_ok d1" using hist.keeps_run [OF keeps_redeem assms(1-3)] by simp
  ultimately show ?thesis using revoked_since assms(5-12) by blast
qed

theorem revoke_all_beats_redemption_witness:
  "\<not> is_ok (fst (run (mint_credential \<lparr>cq_user_id = alice, cq_token_hash = [9], cq_label = [], cq_expires_at = None,
     cq_expected_epoch = Some 2, cq_actor = None\<rparr> []) calm_env
     (fst (snd (run (revoke_all \<lparr>aq_user_id = alice, aq_actor = None\<rparr> []) calm_env sample_db)))))"
proof -
  let ?r = "\<lparr>xq_secret_hash = [4], xq_argon2id_hash = ''argon-c'', xq_idempotency = Some ''key-1''\<rparr>"
  let ?resp = "\<lparr>xr_outcome = Redeemed, xr_user_id = alice, xr_enrolment_id = ''yadgar:enrolment:0'',
     xr_external_id_ciphertext = [11], xr_revoked_existing_credentials = False, xr_credential_epoch = 2,
     xr_voided_enrolments = 0\<rparr>"
  note relies = relies_alone [OF alone_calm [OF calm_calm_env]]
  have "replay_answer (redeem_key ?r) (xq_secret_hash ?r) sample_db = Some ?resp"
    by (simp add: replay_answer_def redeem_key_def find_redemption_def find_user_def find_enrolment_def sample_defs)
  from calm_replay [OF calm_calm_env this] have r: "run (redeem ?r) calm_env sample_db = (Inr ?resp, sample_db, [Finished 0])"
    by (simp add: redeem_key_def)
  from sample_revoke_all obtain all d3 ev where
    a: "run (revoke_all \<lparr>aq_user_id = alice, aq_actor = None\<rparr> []) calm_env sample_db = (Inr all, d3, ev)"
    by (rule run_answers)
  from revoke_all_beats_redemption [OF relies store_ok_sample_db r _ hist.R_refl relies a _ hist.R_refl relies] a
  show ?thesis by simp
qed

text \<open>C13. The same for a login: the epoch read with the hash mints nothing after a revoke-all.\<close>

theorem revoke_all_beats_login:
  assumes "hist.relies e" and "store_ok d" and "run (password_hash b) e d = (Inr resp, d1, ev)"
    and "gr_user_id resp \<noteq> []" and "step_ok d1 d2"
    and "hist.relies e'" and "run (revoke_all a rid) e' d2 = (Inr all, d3, ev')" and "aq_user_id a = gr_user_id resp"
    and "step_ok d3 d4" and "hist.relies e''"
    and "cq_user_id c = gr_user_id resp" and "cq_expected_epoch c = Some (gr_credential_epoch resp)"
  shows "\<not> is_ok (fst (run (mint_credential c rid') e'' d4))"
proof -
  have "store_ok d1" using hist.keeps_run [OF keeps_password_hash assms(1-3)] by simp
  then show ?thesis using revoked_since [OF _ login_epoch [OF assms(1-4)]] assms(5-12) by blast
qed

theorem revoke_all_beats_login_witness:
  "\<not> is_ok (fst (run (mint_credential \<lparr>cq_user_id = alice, cq_token_hash = [9], cq_label = [], cq_expires_at = None,
     cq_expected_epoch = Some 3, cq_actor = None\<rparr> []) calm_env
     (fst (snd (run (revoke_all \<lparr>aq_user_id = alice, aq_actor = None\<rparr> []) calm_env sample_db)))))"
proof -
  note relies = relies_alone [OF alone_calm [OF calm_calm_env]]
  have r: "run (password_hash [1]) calm_env sample_db =
      (Inr \<lparr>gr_user_id = alice, gr_argon2id_hash = ''argon-a'', gr_credential_epoch = 3\<rparr>, sample_db, [Finished 0])"
    by (simp add: password_hash_def calm_run calm_calm_env hash_rows_def Let_def sample_defs)
  from sample_revoke_all obtain all d3 ev where
    a: "run (revoke_all \<lparr>aq_user_id = alice, aq_actor = None\<rparr> []) calm_env sample_db = (Inr all, d3, ev)"
    by (rule run_answers)
  from revoke_all_beats_login [OF relies store_ok_sample_db r _ hist.R_refl relies a _ hist.R_refl relies] a
  show ?thesis by simp
qed

end
