(* ===== verification/Bootstrap.thy ===== *)
theory Bootstrap
  imports Identity Revocation
begin

text \<open>
  The two doors a fresh deployment is entered through: the bootstrap demand of \<open>CreateEnrolment\<close>,
  by the administrator flag or by the declared team, and the bootstrap \<open>CreateUser\<close>. What each
  decides, and that the demand closes behind the person it let in; \<open>Door\<close> says it of the creation.
\<close>

section \<open>The demand\<close>

text \<open>A credential row of any liveness, which no call ever removes.\<close>

definition ever_held :: "string \<Rightarrow> db \<Rightarrow> bool" where
  "ever_held x d \<longleftrightarrow> (\<exists>c \<in> set (iam_credential d). sql_eq (c_user_id c) x)"

lemma stable_ever_held: "hist.stable (ever_held x)"
proof -
  have "ever_held x b" if "step_ok a b" and "ever_held x a" for a b
    using that unfolding ever_held_def step_ok_def evolves_def rows_evolve_def credential_evolves_def by metis
  then show ?thesis by (simp add: hist.stable_def)
qed

lemma demand_insert_none:
  assumes "ever_held (eq_user_id r) d"
  shows "DEMAND_INSERT e eid r secs t d = Inr (0, d)"
proof -
  have "\<not> zero_credential_admin (eq_user_id r) d u" for u
    using assms unfolding zero_credential_admin_def ever_held_def live_row_def list_ex_iff by metis
  then have "filter (zero_credential_admin (eq_user_id r) d) (iam_user d) = []" by (simp add: filter_empty_conv)
  then show ?thesis by (simp add: DEMAND_INSERT_def insert_for_def)
qed

lemma keeps_stmt_map_sensor:
  "hist.keeps P (idempotency_sensor r) (\<lambda>_. P)"
  unfolding idempotency_sensor_def by (auto intro!: hist.keeps_emit hist.keeps_ok split: option.split)

lemma keeps_demand_never:
  assumes "eq_require_zero_credential_admin r" and "\<not> eq_admin_from_team r"
  shows "hist.keeps (ever_held (eq_user_id r)) (mint_enrolment r rid) (\<lambda>_ _. False)"
proof -
  let ?P = "ever_held (eq_user_id r)"
  have ins: "hist.keeps ?P (stmt_map secret_conflict (DEMAND_INSERT e eid r secs)) (\<lambda>n _. n = 0)" for e eid secs
    by (rule hist.keeps_stmt_map [OF stable_ever_held]) (simp add: demand_insert_none hist.R_refl)
  have none: "hist.keeps (\<lambda>_. rows = 0) (if rows = 0
       then and_then (live_user select (eq_user_id r)) (\<lambda>_.
              and_then (demand_refuse (eq_user_id r)) (\<lambda>s. refuse_call s (code_of s)))
       else ok ()) (\<lambda>_ _. False)" for rows :: nat
    by (cases "rows = 0")
       (auto intro!: hist.keeps_ok hist.keeps_refuse hist.keeps_and_then [OF keeps_live_user [OF hist.stable_True]]
         hist.keeps_and_then [OF keeps_demand_refuse])
  have tail: "hist.keeps (\<lambda>_. False) m (\<lambda>_ _. False)" for m :: "string act"
    by (simp add: hist.keeps_def)
  show ?thesis using assms unfolding mint_enrolment_def Let_def
    by (intro hist.keeps_ask hist.keeps_and_then [OF keeps_record_actor] hist.keeps_and_then [OF keeps_stmt_map_sensor])
       (auto simp: statement_def split: option.split sum.split intro!: hist.keeps_fail hist.keeps_refuse
         hist.keeps_and_then [OF hist.keeps_acquire] hist.keeps_and_then [OF ins] hist.keeps_and_then [OF none] tail)
qed

text \<open>What the insert statements derive their row from: one live person, by the unique id.\<close>

lemma fetch_the_one:
  assumes "u \<in> set rs" and "P u" and "\<And>v. v \<in> set rs \<Longrightarrow> P v \<Longrightarrow> v = u"
  shows "fetch_optional (filter P rs) = Some u"
proof (cases "fetch_optional (filter P rs)")
  case None
  with assms(1,2) show ?thesis by (auto simp: filter_empty_conv)
next
  case (Some v)
  with assms(3) show ?thesis by (auto dest: fetch_optional_filter)
qed

definition secret_free :: "create_enrolment_request \<Rightarrow> string \<Rightarrow> db \<Rightarrow> bool" where
  "secret_free r eid d \<longleftrightarrow> \<not> has_enrolment d eid \<and> (\<forall>n \<in> set (iam_enrolment d). e_secret_hash n \<noteq> eq_secret_hash r)"

definition with_enrolment :: "create_enrolment_request \<Rightarrow> string \<Rightarrow> user_row \<Rightarrow> time \<Rightarrow> time \<Rightarrow> bool \<Rightarrow> db \<Rightarrow> db" where
  "with_enrolment r eid u t x b d = d\<lparr>iam_enrolment := iam_enrolment d @ [\<lparr>e_id = eid, e_user_id = u_id u,
     e_secret_hash = eq_secret_hash r, e_created_at = t, e_expires_at = x, e_spent_at = None,
     e_revoke_existing = b, e_voided_at = None\<rparr>]\<rparr>"

lemma insert_for_decides:
  assumes "store_ok d" and "find_live_user d (eq_user_id r) = Some u"
    and "\<And>v. P d v \<Longrightarrow> live_row (eq_user_id r) v" and "secret_free r eid d" and "from_unixtime e secs = Some x"
  shows "insert_for P b e eid r secs t d =
     Inr (if P d u then (1, with_enrolment r eid u t x b d) else (0, d))"
proof -
  from find_live_user_in [OF assms(2)] have u: "u \<in> set (iam_user d)" "sql_eq (u_id u) (eq_user_id r)" by auto
  have one: "v = u" if "v \<in> set (iam_user d)" "P d v" for v
    using same_user [OF assms(1) that(1) u(1)] assms(3) [OF that(2)] u(2) by (simp add: live_row_def)
  show ?thesis
  proof (cases "P d u")
    case True
    with one u(1) have "fetch_optional (filter (P d) (iam_user d)) = Some u" by (intro fetch_the_one)
    moreover have "has_user d (u_id u)" using u by (auto simp: has_user_def list_ex_iff)
    ultimately show ?thesis using assms(4,5) True
      by (simp add: insert_for_def new_enrolment_def ins_enrolment_def secret_free_def list_ex_iff with_enrolment_def)
  next
    case False
    with one have "filter (P d) (iam_user d) = []" by (auto simp: filter_empty_conv)
    with False show ?thesis by (simp add: insert_for_def)
  qed
qed

lemma demand_decides_rows:
  assumes "calm e" and "store_ok d" and "find_live_user d (eq_user_id r) = Some u"
    and "eq_require_zero_credential_admin r" and "\<not> eq_admin_from_team r" and "\<not> eq_revoke_existing_credentials r"
    and "eq_expires_at r = Some secs" and "from_unixtime e secs = Some x"
    and "secret_free r (''yadgar:enrolment:'' @ now_v7 e) d"
  shows "\<exists>ev. run (mint_enrolment r rid) e d =
     (if zero_credential_admin (eq_user_id r) d u
      then (Inr (''yadgar:enrolment:'' @ now_v7 e), with_enrolment r (''yadgar:enrolment:'' @ now_v7 e) u (clock e 0) x False d, ev)
      else (Inl (Status PERMISSION_DENIED DEMAND_REFUSAL), d, ev))"
proof -
  let ?eid = "''yadgar:enrolment:'' @ now_v7 e"
  have ins: "DEMAND_INSERT e ?eid r secs t d = Inr (if zero_credential_admin (eq_user_id r) d u
      then (1, with_enrolment r ?eid u t x False d) else (0, d))" for t
    unfolding DEMAND_INSERT_def
    by (rule insert_for_decides [OF assms(2,3) _ assms(9,8)]) (simp add: zero_credential_admin_def)
  show ?thesis using assms(1,3-7) ins
    by (auto simp: mint_enrolment_def compatible_def statement_def calm_run record_actor_def Let_def live_user_def
        demand_refuse_def idempotency_sensor_def split: option.split)
qed

lemma demand_nobody:
  assumes "calm e" and "find_live_user d (eq_user_id r) = None"
    and "eq_require_zero_credential_admin r" and "\<not> eq_admin_from_team r" and "eq_expires_at r = Some secs"
    and "\<not> eq_revoke_existing_credentials r"
  shows "\<exists>ev. run (mint_enrolment r rid) e d = (Inl (Status NOT_FOUND ''no such live user''), d, ev)"
proof -
  have "\<not> live_row (eq_user_id r) u" if "u \<in> set (iam_user d)" for u
    using assms(2) that by (auto simp: find_live_user_def filter_empty_conv live_row_def)
  then have "filter (zero_credential_admin (eq_user_id r) d) (iam_user d) = []"
    by (auto simp: filter_empty_conv zero_credential_admin_def)
  then have "DEMAND_INSERT e eid r secs t d = Inr (0, d)" for eid t
    by (simp add: DEMAND_INSERT_def insert_for_def)
  with assms show ?thesis
    by (auto simp: mint_enrolment_def compatible_def statement_def calm_run record_actor_def Let_def live_user_def
        idempotency_sensor_def split: option.split)
qed

section \<open>The declared arm\<close>

definition declared_admin :: "string \<Rightarrow> db \<Rightarrow> bool" where
  "declared_admin x d \<longleftrightarrow> administrators_row d = Some True \<and> find_live_user d x \<noteq> None \<and> is_admin_member x d"

lemma declared_decides_rows:
  assumes "calm e" and "store_ok d"
    and "eq_require_zero_credential_admin r" and "eq_admin_from_team r"
    and "eq_expires_at r = Some secs" and "from_unixtime e secs = Some x"
    and "secret_free r (''yadgar:enrolment:'' @ now_v7 e) d"
  shows "\<exists>ev u t. run (mint_enrolment r rid) e d =
     (if declared_admin (eq_user_id r) d
      then (Inr (''yadgar:enrolment:'' @ now_v7 e),
            with_enrolment r (''yadgar:enrolment:'' @ now_v7 e) u t x (eq_revoke_existing_credentials r) d, ev)
      else (Inl (Status PERMISSION_DENIED DEMAND_REFUSAL), d, ev)) \<and>
     (declared_admin (eq_user_id r) d \<longrightarrow> find_live_user d (eq_user_id r) = Some u)"
proof (cases "declared_admin (eq_user_id r) d")
  case True
  let ?eid = "''yadgar:enrolment:'' @ now_v7 e"
  let ?ins = "if eq_revoke_existing_credentials r then REVOKE_INSERT else ORDINARY"
  from True obtain u where u: "find_live_user d (eq_user_id r) = Some u" by (auto simp: declared_admin_def)
  then have live: "live_row (eq_user_id r) u" using find_live_user_in by (simp add: live_row_def)
  have "?ins e ?eid r secs t d = Inr (1, with_enrolment r ?eid u t x (eq_revoke_existing_credentials r) d)" for t
    using insert_for_decides [OF assms(2) u _ assms(7,6), of "\<lambda>_. live_row (eq_user_id r)"] live
    by (simp add: REVOKE_INSERT_def ORDINARY_def)
  with True u assms(1,3-5) show ?thesis
    by (auto simp: mint_enrolment_def declared_issue_def declared_mint_def declared_predicate_def declared_admin_def
        lock_administrators_def calm_run record_actor_def idempotency_sensor_def Let_def split: option.split)
next
  case False
  with assms(1,3-5) show ?thesis
    by (auto simp: mint_enrolment_def declared_issue_def declared_mint_def declared_predicate_def declared_admin_def
        lock_administrators_def calm_run record_actor_def idempotency_sensor_def Let_def split: option.split)
qed

section \<open>The bootstrap creation\<close>

definition bootstrap_open :: "string \<Rightarrow> db \<Rightarrow> bool" where
  "bootstrap_open x d \<longleftrightarrow> administrators_row d = Some True \<and> live_admin_rows d = [] \<and>
     find_user d x = None \<and> pending_for x d \<noteq> None"

definition bootstrap_status :: "string \<Rightarrow> db \<Rightarrow> status" where
  "bootstrap_status x d = (if administrators_row d = Some True \<and> live_admin_rows d = [] \<and> find_user d x \<noteq> None
     then Status ALREADY_EXISTS USER_ID_TAKEN else Status PERMISSION_DENIED CREATE_REFUSAL)"

definition with_administrator :: "create_user_request \<Rightarrow> time \<Rightarrow> db \<Rightarrow> db" where
  "with_administrator r t d = d\<lparr>iam_user := iam_user d @ [new_user r (nq_user_id r) False t],
     iam_team_member := iam_team_member d @ [\<lparr>m_team_id = ADMINISTRATORS, m_user_id = nq_user_id r, m_added_by = ''system''\<rparr>],
     iam_team_member_pending := del (\<lambda>p. sql_eq (pd_team_id p) ADMINISTRATORS) (iam_team_member_pending d)\<rparr>"

lemma no_member_without_user:
  assumes "store_ok d" and "find_user d x = None"
  shows "\<not> list_ex (\<lambda>v. sql_eq (m_team_id v) y \<and> sql_eq (m_user_id v) x) (iam_team_member d)"
proof -
  from assms(2) have "text_key x \<notin> user_keys d"
    by (auto simp: find_user_def filter_empty_conv user_keys_def image_iff)
  then show ?thesis using assms(1) by (auto simp: store_ok_def members_ok_def list_ex_iff)
qed

lemma administrators_has_team: "administrators_row d = Some b \<Longrightarrow> has_team d ADMINISTRATORS"
  unfolding administrators_row_def has_team_def list_ex_iff by (auto dest!: fetch_optional_filter)

lemma bootstrap_shut:
  assumes "calm e" and "nq_user_id r \<noteq> []" and "canonical_user_id (nq_user_id r)"
    and "\<not> bootstrap_open (nq_user_id r) d"
  shows "\<exists>ev. run (insert_user r rid) e d = (Inl (bootstrap_status (nq_user_id r) d), d, ev)"
  using assms
  by (auto simp: insert_user_def insert_declared_user_def bootstrap_predicate_def bootstrap_open_def lock_administrators_def
      live_administrators_def calm_run record_actor_def bootstrap_refuse_def bootstrap_status_def Let_def)

lemma bootstrap_name_taken:
  assumes "calm e" and "nq_user_id r \<noteq> []" and "canonical_user_id (nq_user_id r)"
    and "bootstrap_open (nq_user_id r) d" and "u \<in> set (iam_user d)" and "u_blind_index u = nq_blind_index r"
  shows "\<exists>ev. run (insert_user r rid) e d = (Inl (Status ALREADY_EXISTS ''a user with that name already exists''), d, ev)"
proof -
  have free: "\<not> has_user d (nq_user_id r)"
    using assms(4) by (auto simp: bootstrap_open_def find_user_def filter_empty_conv has_user_def list_ex_iff)
  have "insert_user_stm r (nq_user_id r) False t d = Inl (UniqueViolation Uq_iam_user_blind_index)" for t
    using free assms(5,6) by (auto simp: insert_user_stm_def ins_user_def new_user_def list_ex_iff)
  then show ?thesis using assms(1-4)
    by (auto simp: insert_user_def insert_declared_user_def bootstrap_predicate_def bootstrap_open_def lock_administrators_def
        live_administrators_def calm_run record_actor_def user_conflict_def Let_def)
qed

lemma bootstrap_decides_rows:
  assumes "calm e" and "store_ok d" and "nq_user_id r \<noteq> []" and "canonical_user_id (nq_user_id r)"
    and "\<forall>u \<in> set (iam_user d). u_blind_index u \<noteq> nq_blind_index r"
  shows "\<exists>ev t. run (insert_user r rid) e d =
     (if bootstrap_open (nq_user_id r) d
      then (Inr \<lparr>mt_id = nq_user_id r, mt_version = 1\<rparr>, with_administrator r t d, ev)
      else (Inl (bootstrap_status (nq_user_id r) d), d, ev))"
proof (cases "bootstrap_open (nq_user_id r) d")
  case True
  then have free: "\<not> has_user d (nq_user_id r)"
    by (auto simp: bootstrap_open_def find_user_def filter_empty_conv has_user_def list_ex_iff)
  have ins: "insert_user_stm r (nq_user_id r) False t d = Inr ((), d\<lparr>iam_user := iam_user d @ [new_user r (nq_user_id r) False t]\<rparr>)" for t
    using free assms(5) by (simp add: insert_user_stm_def ins_user_def new_user_def list_ex_iff)
  have team: "has_team d ADMINISTRATORS"
    using True administrators_has_team by (auto simp: bootstrap_open_def)
  have mem: "add_admin_stm (nq_user_id r) s (d\<lparr>iam_user := iam_user d @ [new_user r (nq_user_id r) False t]\<rparr>) =
      Inr ((), d\<lparr>iam_user := iam_user d @ [new_user r (nq_user_id r) False t],
        iam_team_member := iam_team_member d @ [\<lparr>m_team_id = ADMINISTRATORS, m_user_id = nq_user_id r, m_added_by = ''system''\<rparr>]\<rparr>)" for s t
    using True no_member_without_user [OF assms(2)] team
    by (simp add: add_admin_stm_def ins_member_def bootstrap_open_def has_team_def has_user_def new_user_def)
  show ?thesis using True assms(1,3,4) ins mem
    by (auto simp: insert_user_def insert_declared_user_def bootstrap_predicate_def bootstrap_open_def lock_administrators_def
        live_administrators_def calm_run record_actor_def clear_pending_stm_def Let_def with_administrator_def)
next
  case False
  with bootstrap_shut [OF assms(1,3,4) this, of rid] show ?thesis by auto
qed

section \<open>Properties\<close>

text \<open>C14. The demand by the zero-credential predicate, that is one that does not ask for the declared arm
  (\<open>admin_from_team\<close>), closes for good: a person who ever held a credential, revoked and expired ones included,
  is never enrolled through it again, in any later state and whatever fails or other sessions do meanwhile, as long
  as those sessions keep the store's constraints and history. The declared arm does enrol such a person (C16).\<close>

theorem demand_closes_for_good:
  assumes "store_ok d" and "c \<in> set (iam_credential d)" and "sql_eq (c_user_id c) (eq_user_id r)"
    and "step_ok d d'" and "hist.relies e"
    and "eq_require_zero_credential_admin r" and "\<not> eq_admin_from_team r"
  shows "\<not> is_ok (fst (run (mint_enrolment r rid) e d'))"
proof
  assume "is_ok (fst (run (mint_enrolment r rid) e d'))"
  then obtain x d'' ev where r: "run (mint_enrolment r rid) e d' = (Inr x, d'', ev)" by (rule run_answers)
  have "ever_held (eq_user_id r) d" using assms(2,3) by (auto simp: ever_held_def)
  then have "ever_held (eq_user_id r) d'" using stableD [OF stable_ever_held assms(4,1)] by blast
  moreover have "store_ok d'" using assms(1,4) by (simp add: step_ok_def)
  ultimately show False
    using hist.starts_answer [OF hist.starts_keeps [OF keeps_demand_never [OF assms(6,7)]] assms(5) _ _ r] by blast
qed

theorem demand_closes_for_good_witness:
  "\<not> is_ok (fst (run (mint_enrolment \<lparr>eq_user_id = alice, eq_secret_hash = [6], eq_expires_at = Some 9000,
     eq_require_zero_credential_admin = True, eq_revoke_existing_credentials = False, eq_admin_from_team = False,
     eq_idempotency = None, eq_actor = None\<rparr> []) calm_env sample_db))"
  by (rule demand_closes_for_good [OF store_ok_sample_db _ _ hist.R_refl relies_alone [OF alone_calm [OF calm_calm_env]],
        of phone]) (simp_all add: sample_defs)

text \<open>C15. What the demand by the zero-credential predicate decides, in a call on its own, with an unused secret
  and an expiry the engine can represent. With the revoke flag it is answered INVALID_ARGUMENT, and for a person who
  is not live, unknown or soft-deleted, NOT_FOUND. A live administrator with no password and no credential of any
  kind gets exactly the one enrolment asked for; any other live person is answered PERMISSION_DENIED with the one
  sentence. Nothing is written but that enrolment.\<close>

theorem demand_decides:
  assumes "calm e" and "store_ok d"
    and "eq_require_zero_credential_admin r" and "\<not> eq_admin_from_team r"
    and "eq_expires_at r = Some secs" and "from_unixtime e secs = Some x"
    and "secret_free r (''yadgar:enrolment:'' @ now_v7 e) d"
  shows "\<exists>ev. run (mint_enrolment r rid) e d =
     (if eq_revoke_existing_credentials r
      then (Inl (Status INVALID_ARGUMENT
        ''`revoke_existing_credentials` cannot be combined with `require_zero_credential_admin`''), d, ev)
      else case find_live_user d (eq_user_id r) of
        None \<Rightarrow> (Inl (Status NOT_FOUND ''no such live user''), d, ev)
      | Some u \<Rightarrow>
          if u_is_admin u \<and> (\<forall>p \<in> set (iam_password d). \<not> sql_eq (p_user_id p) (eq_user_id r)) \<and>
             (\<forall>c \<in> set (iam_credential d). \<not> sql_eq (c_user_id c) (eq_user_id r))
          then (Inr (''yadgar:enrolment:'' @ now_v7 e),
            with_enrolment r (''yadgar:enrolment:'' @ now_v7 e) u (clock e 0) x False d, ev)
          else (Inl (Status PERMISSION_DENIED DEMAND_REFUSAL), d, ev))"
proof (cases "eq_revoke_existing_credentials r")
  case True
  then show ?thesis using assms(1,3-5)
    by (auto simp: mint_enrolment_def compatible_def calm_run record_actor_def idempotency_sensor_def split: option.split)
next
  case False
  show ?thesis
  proof (cases "find_live_user d (eq_user_id r)")
    case None
    with False demand_nobody [OF assms(1) None assms(3-5) False] show ?thesis by simp
  next
    case (Some u)
    from find_live_user_in [OF Some] have "zero_credential_admin (eq_user_id r) d u \<longleftrightarrow>
        u_is_admin u \<and> (\<forall>p \<in> set (iam_password d). \<not> sql_eq (p_user_id p) (eq_user_id r)) \<and>
             (\<forall>c \<in> set (iam_credential d). \<not> sql_eq (c_user_id c) (eq_user_id r))"
      by (auto simp: zero_credential_admin_def live_row_def list_ex_iff)
    with demand_decides_rows [OF assms(1,2) Some assms(3,4) False assms(5-7)] False Some show ?thesis by simp
  qed
qed

theorem demand_decides_witness:
  "fst (run (mint_enrolment \<lparr>eq_user_id = bob, eq_secret_hash = [6], eq_expires_at = Some 9000,
     eq_require_zero_credential_admin = True, eq_revoke_existing_credentials = False, eq_admin_from_team = False,
     eq_idempotency = None, eq_actor = None\<rparr> []) calm_env sample_db) = Inr (''yadgar:enrolment:'' @ now_v7 calm_env)"
proof -
  let ?r = "\<lparr>eq_user_id = bob, eq_secret_hash = [6], eq_expires_at = Some 9000,
     eq_require_zero_credential_admin = True, eq_revoke_existing_credentials = False, eq_admin_from_team = False,
     eq_idempotency = None, eq_actor = None\<rparr>"
  have u: "find_live_user sample_db (eq_user_id ?r) = Some bob_row"
    by (simp add: find_live_user_def live_row_def sample_defs)
  have eid: "text_key (''yadgar:enrolment:'' @ now_v7 calm_env) = ''yadgar:enrolment:'' @ now_v7 calm_env"
    by (rule plain_key) (simp add: plain_def calm_env_def)
  have free: "secret_free ?r (''yadgar:enrolment:'' @ now_v7 calm_env) sample_db"
    unfolding secret_free_def has_enrolment_def eid by (simp add: sample_defs calm_env_def)
  have "from_unixtime calm_env 9000 = Some 9000" by (simp add: calm_env_def)
  from demand_decides [OF calm_calm_env store_ok_sample_db _ _ _ this free, of "[]"] u show ?thesis
    by (auto simp: sample_defs)
qed

text \<open>C16. What the declared arm decides, in a call on its own: a live member of a live
  \<open>administrators\<close> is enrolled whatever credentials they hold, carrying the revoke flag asked for,
  and anybody else gets the same refusal as the demand's and nothing is written.\<close>

theorem declared_decides:
  assumes "calm e" and "store_ok d"
    and "eq_require_zero_credential_admin r" and "eq_admin_from_team r"
    and "eq_expires_at r = Some secs" and "from_unixtime e secs = Some x"
    and "secret_free r (''yadgar:enrolment:'' @ now_v7 e) d"
  shows "\<exists>ev t. run (mint_enrolment r rid) e d =
     (case if administrators_row d = Some True \<and> is_admin_member (eq_user_id r) d
           then find_live_user d (eq_user_id r) else None of
        Some u \<Rightarrow> (Inr (''yadgar:enrolment:'' @ now_v7 e),
            with_enrolment r (''yadgar:enrolment:'' @ now_v7 e) u t x (eq_revoke_existing_credentials r) d, ev)
      | None \<Rightarrow> (Inl (Status PERMISSION_DENIED DEMAND_REFUSAL), d, ev))"
  using declared_decides_rows [OF assms, of rid] unfolding declared_admin_def by (fastforce split: option.split)

theorem declared_decides_witness:
  "\<exists>ev t. run (mint_enrolment \<lparr>eq_user_id = alice, eq_secret_hash = [6], eq_expires_at = Some 9000,
     eq_require_zero_credential_admin = True, eq_revoke_existing_credentials = True, eq_admin_from_team = True,
     eq_idempotency = None, eq_actor = None\<rparr> []) calm_env declared_db
   = (Inr (''yadgar:enrolment:'' @ now_v7 calm_env), t, ev)"
proof -
  let ?r = "\<lparr>eq_user_id = alice, eq_secret_hash = [6], eq_expires_at = Some 9000,
     eq_require_zero_credential_admin = True, eq_revoke_existing_credentials = True, eq_admin_from_team = True,
     eq_idempotency = None, eq_actor = None\<rparr>"
  have free: "secret_free ?r (''yadgar:enrolment:'' @ now_v7 calm_env) declared_db"
    by (simp add: secret_free_def has_enrolment_def sample_defs)
  have x: "from_unixtime calm_env 9000 = Some 9000" by (simp add: calm_env_def)
  have row: "administrators_row declared_db = Some True" "is_admin_member alice declared_db"
      "find_live_user declared_db alice = Some alice_row"
    by (simp_all add: administrators_row_def ADMINISTRATORS_def is_admin_member_def find_live_user_def live_row_def sample_defs)
  from declared_decides [OF calm_calm_env store_ok_samples(3) _ _ _ x free, of "[]"] row show ?thesis by auto
qed

text \<open>C17. The bootstrap creation, in a call on its own. An id not in the canonical form is answered
  INVALID_ARGUMENT. Otherwise, when \<open>administrators\<close> is live and has no live member, the id is free and is one of
  the awaited ones, the person, the membership and the end of the awaited list are written together, unless another
  person has that name already, which is answered ALREADY_EXISTS. When those four do not all hold, a taken id of an
  open team is answered ALREADY_EXISTS and everything else PERMISSION_DENIED with the one sentence. Every refusal
  leaves the store as it was.\<close>

theorem bootstrap_create_decides:
  assumes "calm e" and "store_ok d" and "nq_user_id r \<noteq> []"
  shows "\<exists>ev t. run (insert_user r rid) e d =
     (if \<not> canonical_user_id (nq_user_id r)
      then (Inl (Status INVALID_ARGUMENT
        (''user_id must be '' @ debug_str USER_PREFIX @ '' followed by a lowercase canonical uuidv7'')), d, ev)
      else if administrators_row d = Some True \<and> live_admin_rows d = [] \<and> find_user d (nq_user_id r) = None \<and>
         pending_for (nq_user_id r) d \<noteq> None
      then if \<exists>u \<in> set (iam_user d). u_blind_index u = nq_blind_index r
           then (Inl (Status ALREADY_EXISTS ''a user with that name already exists''), d, ev)
           else (Inr \<lparr>mt_id = nq_user_id r, mt_version = 1\<rparr>, with_administrator r t d, ev)
      else (Inl (if administrators_row d = Some True \<and> live_admin_rows d = [] \<and> find_user d (nq_user_id r) \<noteq> None
          then Status ALREADY_EXISTS USER_ID_TAKEN else Status PERMISSION_DENIED CREATE_REFUSAL), d, ev))"
proof (cases "canonical_user_id (nq_user_id r)")
  case False
  then show ?thesis using assms(1,3)
    by (auto simp: insert_user_def insert_declared_user_def calm_run record_actor_def)
next
  case True
  note rows = bootstrap_decides_rows [OF assms True, of rid]
    and taken = bootstrap_name_taken [OF assms(1,3) True, of d _ rid]
    and shut = bootstrap_shut [OF assms(1,3) True, of d rid]
  show ?thesis
    using True rows taken shut
    by (cases "bootstrap_open (nq_user_id r) d"; cases "\<exists>u \<in> set (iam_user d). u_blind_index u = nq_blind_index r")
       (auto simp: bootstrap_open_def bootstrap_status_def)
qed

definition sample_create :: create_user_request where
  "sample_create = \<lparr>nq_user_id = alice, nq_blind_index = [1], nq_external_ct = [11], nq_display_ct = [12],
     nq_is_admin = False, nq_actor = None\<rparr>"

lemma sample_open: "bootstrap_open alice fresh_db" "canonical_user_id alice"
  by (simp_all add: bootstrap_open_def administrators_row_def live_admin_rows_def ADMINISTRATORS_def find_user_def
      pending_for_def sample_defs)
     (simp add: canonical_user_id_def strip_prefix_def USER_PREFIX_def alice_def upt_rec uuid_char_def is_lower_hex_def is_digit_def)

theorem bootstrap_create_decides_witness:
  "\<exists>ev t. run (insert_user sample_create []) calm_env fresh_db =
     (Inr \<lparr>mt_id = alice, mt_version = 1\<rparr>, with_administrator sample_create t fresh_db, ev)"
proof -
  have "nq_user_id sample_create = alice" "nq_blind_index sample_create = [1]" by (simp_all add: sample_create_def)
  moreover have "iam_user fresh_db = []" by (simp add: sample_defs)
  ultimately show ?thesis
    using bootstrap_create_decides [OF calm_calm_env store_ok_samples(2), of sample_create "[]"] sample_open
    by (simp add: bootstrap_open_def alice_def)
qed

end
