(* ===== verification/Door.thy ===== *)
theory Door
  imports Bootstrap
begin

text \<open>
  The bootstrap creation opens once. \<open>quiet\<close> is what the other sessions leave alone: they keep the
  constraints and the history, soft-delete nobody (no verb does), and leave \<open>administrators\<close> a live
  member while it has one. \<open>heeds_administrators\<close> is the discipline of its row lock: every writer of
  that team's membership takes it first. Under both, whoever races, at most one creation gets in.
\<close>

section \<open>Who administers\<close>

definition live_admin_keys :: "db \<Rightarrow> string set" where
  "live_admin_keys d = (\<lambda>(m, t, u). text_key (u_id u)) ` set (live_admin_rows d)"

definition staffed :: "db \<Rightarrow> bool" where
  "staffed d \<longleftrightarrow> live_admin_keys d \<noteq> {}"

definition live_keys :: "db \<Rightarrow> string set" where
  "live_keys d = (\<lambda>u. text_key (u_id u)) ` {u \<in> set (iam_user d). u_deleted_at u = None}"

definition quiet :: "db \<Rightarrow> db \<Rightarrow> bool" where
  "quiet a b \<longleftrightarrow> step_ok a b \<and> live_keys a \<subseteq> live_keys b \<and> (staffed a \<longrightarrow> staffed b)"

definition heeds_administrators :: "env \<Rightarrow> bool" where
  "heeds_administrators e \<longleftrightarrow> (\<forall>n L d. Exclusive (TeamRow (text_key ADMINISTRATORS)) \<in> set L \<longrightarrow>
     administrators_row (others e n L d) = administrators_row d \<and> live_admin_keys (others e n L d) = live_admin_keys d)"

interpretation door: guarantee quiet store_ok
  by unfold_locales (auto simp: quiet_def hist.R_refl intro: hist.R_trans dest: hist.R_inv)

lemma quiet_step: "quiet a b \<Longrightarrow> step_ok a b"
  by (simp add: quiet_def)

lemma door_hist: "door.relies e \<Longrightarrow> hist.relies e"
  by (simp add: door.relies_def hist.relies_def quiet_def)

lemma door_alone: "alone e \<Longrightarrow> door.relies e"
  by (simp add: door.relies_def alone_def door.R_refl)

lemma stable_staffed: "door.stable staffed"
  by (simp add: door.stable_def quiet_def)

lemma staffed_rows: "staffed d \<longleftrightarrow> live_admin_rows d \<noteq> []"
  by (simp add: staffed_def live_admin_keys_def)

section \<open>A closed door\<close>

lemma keeps_predicate_closed:
  "door.keeps staffed (bootstrap_predicate x) (\<lambda>v _. \<exists>s. v = Inl s)"
proof -
  have lock: "door.keeps staffed lock_administrators (\<lambda>_. staffed)"
    unfolding lock_administrators_def by (rule door.keeps_select_lock [OF stable_staffed])
  have none: "door.keeps staffed live_administrators (\<lambda>n d. staffed d \<and> 0 < n)"
    unfolding live_administrators_def by (rule door.keeps_select [OF stable_staffed]) (simp add: staffed_rows)
  have inl: "door.keeps P (ok (Inl s)) (\<lambda>v _. \<exists>s. v = Inl s)" for P and s :: step
    by (rule door.keeps_ok) simp
  have never: "door.keeps (\<lambda>_. False) m Q" for m :: "(step + unit) act" and Q
    by (simp add: door.keeps_def)
  have rest: "door.keeps (\<lambda>d. staffed d \<and> 0 < n) (if 0 < n then ok (Inl StepAdministratorExists) else m)
      (\<lambda>v _. \<exists>s. v = Inl s)" for n :: nat and m :: "(step + unit) act"
    by (cases "0 < n") (auto intro: inl never)
  show ?thesis unfolding bootstrap_predicate_def
    by (rule door.keeps_and_then [OF lock]) (auto intro!: inl door.keeps_and_then [OF none] rest)
qed

lemma keeps_closed:
  assumes "nq_user_id r \<noteq> []"
  shows "door.starts staffed (insert_user r rid) (\<lambda>_ _. False)"
proof -
  have refused: "door.keeps P (and_then drop_tx (\<lambda>_. bootstrap_refuse s)) Q" for P Q s
    unfolding bootstrap_refuse_def
    by (intro door.keeps_and_then [OF door.keeps_drop_tx] door.keeps_and_then [OF door.keeps_emit] door.keeps_refuse)
  have never: "door.keeps (\<lambda>_. False) m Q" for m :: "meta act" and Q
    by (simp add: door.keeps_def)
  have after: "door.keeps (\<lambda>_. \<exists>s. v = Inl s) (case v of Inl s \<Rightarrow> and_then drop_tx (\<lambda>_. bootstrap_refuse s) | Inr _ \<Rightarrow> m) (\<lambda>_ _. False)"
    for v and m :: "meta act"
    by (cases v) (auto intro: refused door.keeps_weaken [OF never])
  have act: "door.keeps staffed (record_actor rid a v t) (\<lambda>_. staffed)" for a v t
    unfolding record_actor_def by (intro door.keeps_ask door.keeps_emit)
  have shut: "shut (record_actor rid a v t)" for a v t
    unfolding record_actor_def by (intro shut_ask shut_emit)
  from assms have "insert_user r rid = insert_declared_user r rid" by (simp add: insert_user_def)
  then show ?thesis unfolding insert_declared_user_def
    by (simp only:) (intro door.starts_ask door.starts_and_then [OF act shut],
      auto intro!: door.starts_keeps [OF door.keeps_refuse] door.starts_and_then [OF door.keeps_acquire shut_acquire]
        door.starts_begin_tx [OF stable_staffed] door.keeps_and_then [OF keeps_predicate_closed] after)
qed

lemma closed_never_answers:
  assumes "door.relies e" and "store_ok d" and "staffed d" and "nq_user_id r \<noteq> []"
  shows "\<not> is_ok (fst (run (insert_user r rid) e d))"
proof
  assume "is_ok (fst (run (insert_user r rid) e d))"
  then obtain x d' ev where "run (insert_user r rid) e d = (Inr x, d', ev)" by (rule run_answers)
  from door.starts_answer [OF keeps_closed [OF assms(4)] assms(1-3) this] show False .
qed

text \<open>Without company it writes nothing either, whatever is refused and whichever reply is lost.\<close>

lemma inner_predicate_closed:
  assumes "staffed d"
  shows "inner (\<lambda>x. x = d) (bootstrap_predicate x) (\<lambda>v _. \<exists>s. v = Inl s)"
proof -
  have lock: "inner (\<lambda>x. x = d) lock_administrators (\<lambda>_ x. x = d)"
    unfolding lock_administrators_def by (rule inner_select_lock)
  have none: "inner (\<lambda>x. x = d) live_administrators (\<lambda>n x. 0 < n \<and> x = d)"
    unfolding live_administrators_def by (rule inner_select) (use assms in \<open>simp add: staffed_rows\<close>)
  have tail: "inner (\<lambda>x. x = d) (and_then live_administrators (\<lambda>n.
      if 0 < n then ok (Inl StepAdministratorExists) else m)) (\<lambda>v _. \<exists>s. v = Inl s)" for m :: "(step + unit) act"
    by (rule inner_then [OF none], rule inner_pure) (auto intro: inner_ok)
  show ?thesis unfolding bootstrap_predicate_def
    by (rule inner_then [OF lock]) (auto intro: inner_ok tail)
qed

lemma closed_writes_nothing:
  assumes "alone e" and "staffed d" and "nq_user_id r \<noteq> []"
  shows "fst (snd (run (insert_user r rid) e d)) = d"
proof -
  have refuse: "atomic P (and_then drop_tx (\<lambda>_. bootstrap_refuse s)) Q" for P Q s
    by (auto simp: atomic_def and_then_def drop_tx_def bootstrap_refuse_def emit_def refuse_call_def fail_def)
  have after: "atomic (\<lambda>_. \<exists>s. v = Inl s) (case v of Inl s \<Rightarrow> and_then drop_tx (\<lambda>_. bootstrap_refuse s) | Inr _ \<Rightarrow> m) (\<lambda>_ _. False)"
    for v :: "step + unit" and m :: "meta act"
    by (cases v) (simp_all add: refuse, simp add: atomic_def)
  let ?body = "and_then (bootstrap_predicate (nq_user_id r)) (\<lambda>verdict.
       case verdict of
         Inl s \<Rightarrow> and_then drop_tx (\<lambda>_. bootstrap_refuse s)
       | Inr _ \<Rightarrow>
           and_then (stmt_map user_conflict (insert_user_stm r (nq_user_id r) False)) (\<lambda>_.
           and_then (stmt (add_admin_stm (nq_user_id r))) (\<lambda>_.
           and_then (stmt clear_pending_stm) (\<lambda>_.
           and_then commit (\<lambda>_.
           and_then (emit (Finished 1)) (\<lambda>_.
           ok \<lparr>mt_id = nq_user_id r, mt_version = 1\<rparr>))))))"
  have body: "atomic (\<lambda>x. x = d) ?body (\<lambda>_ _. False)"
    by (rule atomic_then [OF inner_predicate_closed [OF assms(2)]]) (rule after)
  let ?w = "\<lparr>committed = d, tx = None, steps = 0, events = [Actor rid (actor_name e (nq_actor r)) ''CreateUser'' (seg e (nq_user_id r))]\<rparr>"
  obtain res w' where w': "and_then acquire (\<lambda>_. and_then (begin_tx ReadCommitted) (\<lambda>_. ?body)) e ?w = (res, w')" by fastforce
  from body have "atomic (\<lambda>x. x = committed ?w) ?body (\<lambda>_ _. False)" by (simp only: world.select_convs)
  from atomic_request [OF assms(1) _ this w'] have "committed w' = d" by simp
  with w' assms(3) show ?thesis
    by (simp add: run_def insert_user_def insert_declared_user_def ask_def record_actor_def and_then_def [of "emit v" for v]
        and_then_def [of "ask f" for f] emit_def refuse_call_def fail_def del: One_nat_def)
qed

section \<open>An opened door\<close>

definition door_held :: "world \<Rightarrow> bool" where
  "door_held w \<longleftrightarrow> (\<exists>t. tx w = Some t \<and> Exclusive (TeamRow (text_key ADMINISTRATORS)) \<in> set (held t)) \<and>
     administrators_row (cur w) = Some True"

lemma held_row: "door_held w \<Longrightarrow> administrators_row (cur w) = Some True"
  by (simp add: door_held_def)

lemma held_settle:
  assumes "heeds_administrators e" and "door_held w"
  shows "door_held (settle e w) \<and> live_admin_keys (cur (settle e w)) = live_admin_keys (cur w)"
proof -
  from assms(2) obtain t where t: "tx w = Some t" "Exclusive (TeamRow (text_key ADMINISTRATORS)) \<in> set (held t)"
      "administrators_row (work t) = Some True" by (auto simp: door_held_def cur_def)
  with assms(1) have "administrators_row (others e (steps w) (held t) (work t)) = Some True"
      "live_admin_keys (others e (steps w) (held t) (work t)) = live_admin_keys (work t)"
    unfolding heeds_administrators_def by auto
  with t show ?thesis by (simp add: door_held_def settle_tx cur_def drift_def locks_of_def)
qed

lemma held_put:
  assumes "door_held w" and "administrators_row d = Some True" shows "door_held (put_cur d w)"
  using assms by (cases "tx w") (auto simp: door_held_def put_cur_def cur_def)

lemma inserted_user:
  assumes "insert_user_stm r x b t d = Inr (n, d')"
  shows "administrators_row d' = administrators_row d \<and> live_admin_keys d' \<subseteq> insert (text_key x) (live_admin_keys d) \<and>
     text_key x \<in> live_keys d'"
proof -
  from assms have d': "d' = d\<lparr>iam_user := iam_user d @ [new_user r x b t]\<rparr>"
    by (auto simp: insert_user_stm_def ins_user_def split: if_splits)
  have "live_admin_keys d' \<subseteq> insert (text_key x) (live_admin_keys d)"
    by (auto simp: d' live_admin_keys_def live_admin_rows_def new_user_def image_iff) force+
  moreover have "text_key x \<in> live_keys d'"
    unfolding live_keys_def by (rule image_eqI [of _ _ "new_user r x b t"]) (simp_all add: d' new_user_def)
  ultimately show ?thesis by (simp add: d' administrators_row_def)
qed

lemma added_admin:
  assumes "add_admin_stm x t d = Inr (n, d')" and "administrators_row d = Some True" and "text_key x \<in> live_keys d"
  shows "administrators_row d' = Some True \<and> live_admin_keys d' = insert (text_key x) (live_admin_keys d)"
proof -
  let ?m = "\<lparr>m_team_id = ADMINISTRATORS, m_user_id = x, m_added_by = ''system''\<rparr>"
  from assms(1) have d': "d' = d\<lparr>iam_team_member := iam_team_member d @ [?m]\<rparr>"
    by (auto simp: add_admin_stm_def ins_member_def split: if_splits)
  from assms(2) obtain v where v: "v \<in> set (iam_team d)" "sql_eq (t_id v) ADMINISTRATORS" "t_deleted_at v = None"
    unfolding administrators_row_def by (auto dest!: fetch_optional_filter)
  from assms(3) obtain u where u: "u \<in> set (iam_user d)" "u_deleted_at u = None" "sql_eq (u_id u) x"
    by (auto simp: live_keys_def)
  have "(?m, v, u) \<in> set (live_admin_rows d')" using u v by (simp add: d' live_admin_rows_def)
  then have "text_key x \<in> live_admin_keys d'" using u(3) unfolding live_admin_keys_def by force
  moreover have "live_admin_keys d \<subseteq> live_admin_keys d'"
    unfolding live_admin_keys_def by (rule image_mono) (auto simp: d' live_admin_rows_def)
  moreover have "live_admin_keys d' \<subseteq> insert (text_key x) (live_admin_keys d)"
    by (auto simp: d' live_admin_keys_def live_admin_rows_def image_iff) force+
  ultimately show ?thesis using assms(2) by (auto simp: d' administrators_row_def)
qed

lemma cleared_pending:
  assumes "clear_pending_stm t d = Inr (n, d')"
  shows "administrators_row d' = administrators_row d \<and> live_admin_keys d' = live_admin_keys d"
proof -
  from assms have "iam_team d' = iam_team d" "iam_team_member d' = iam_team_member d" "iam_user d' = iam_user d"
    by (auto simp: clear_pending_stm_def Let_def)
  then show ?thesis by (simp add: administrators_row_def live_admin_keys_def live_admin_rows_def)
qed

lemma created_alone_administers:
  assumes "door.relies e" and "heeds_administrators e" and "nq_user_id r \<noteq> []"
    and "run (insert_user r rid) e d = (Inr m, d', ev)"
  shows "live_admin_keys d' = {text_key (nq_user_id r)}"
proof -
  let ?x = "nq_user_id r"
  obtain w where "insert_user r rid e \<lparr>committed = d, tx = None, steps = 0, events = []\<rparr> = (Inr m, w)" and d': "d' = committed w"
    using assms(4) by (auto simp: run_def split: prod.splits)
  with assms(3) obtain w0 w1 v w2 y w3 y' w4 y'' w5 w6 where begun: "begin_tx ReadCommitted e w0 = (Inr (), w1)"
      and pred: "bootstrap_predicate ?x e w1 = (Inr (Inr v), w2)"
      and ins: "stmt_map user_conflict (insert_user_stm r ?x False) e w2 = (Inr y, w3)"
      and add: "stmt (add_admin_stm ?x) e w3 = (Inr y', w4)" and clear: "stmt clear_pending_stm e w4 = (Inr y'', w5)"
      and com: "commit e w5 = (Inr (), w6)" and w: "committed w = committed w6"
    by (auto simp: insert_user_def insert_declared_user_def ask_def and_then_Inr bootstrap_refuse_def refuse_call_def fail_def
        emit_def ok_def split: if_splits sum.splits) (metis sum.exhaust unit.exhaust)
  note go = held_settle [OF assms(2)]
  have w2: "door_held w2 \<and> live_admin_keys (cur w2) = {}"
  proof -
    from pred obtain u1 n u2 z u3 z' where lock: "lock_administrators e w1 = (Inr (Some True), u1)"
        and none: "live_administrators e u1 = (Inr n, u2)" "n = 0"
        and sel: "select (\<lambda>t d. find_user d ?x) e u2 = (Inr z, u3)" "select (\<lambda>t d. pending_for ?x d) e u3 = (Inr z', w2)"
      by (auto simp: bootstrap_predicate_def and_then_Inr ok_def fail_def split: if_splits)
    from begin_tx_open [OF begun] have "tx (settle e w1) \<noteq> None" by (auto simp: settle_tx)
    with select_lock_Inr [OF lock [unfolded lock_administrators_def]] have u1: "door_held u1"
      by (auto simp: door_held_def hold_def cur_def)
    from select_Inr [OF none(1) [unfolded live_administrators_def]] none(2) have
      u2: "u2 = settle e u1" "live_admin_keys (cur u2) = {}" by (auto simp: live_admin_keys_def)
    with go [OF u1] have "door_held u2" by simp
    with u2(2) go select_Inr [OF sel(1)] select_Inr [OF sel(2)] show ?thesis by metis
  qed
  from stmt_map_Inr [OF ins] obtain d1 where d1: "insert_user_stm r ?x False (clock e (steps w2)) (cur (settle e w2)) = Inr (y, d1)"
      "w3 = put_cur d1 (settle e w2)" by blast
  have s2: "door_held (settle e w2)" "live_admin_keys (cur (settle e w2)) = {}" using go w2 by auto
  note d1' = inserted_user [OF d1(1)]
  have w3: "door_held w3" using held_put [OF s2(1)] d1' held_row [OF s2(1)] d1(2) by simp
  have w3': "live_admin_keys (cur w3) \<subseteq> {text_key ?x}" "text_key ?x \<in> live_keys (cur w3)" using d1' s2(2) d1(2) by auto
  have "live_keys (cur w3) \<subseteq> live_keys (cur (settle e w3))"
    using door.relies_drift [OF assms(1)] by (auto simp: cur_settle quiet_def)
  with go [OF w3] w3' have s3: "door_held (settle e w3)" "live_admin_keys (cur (settle e w3)) \<subseteq> {text_key ?x}"
      "text_key ?x \<in> live_keys (cur (settle e w3))" by auto
  from stmt_Inr [OF add] obtain d2 where d2: "add_admin_stm ?x (clock e (steps w3)) (cur (settle e w3)) = Inr (y', d2)"
      "w4 = put_cur d2 (settle e w3)" by blast
  from added_admin [OF d2(1) held_row [OF s3(1)] s3(3)] s3(2) have "administrators_row d2 = Some True" "live_admin_keys d2 = {text_key ?x}"
    by auto
  with d2(2) held_put [OF s3(1)] have w4: "door_held w4" "live_admin_keys (cur w4) = {text_key ?x}" by auto
  from stmt_Inr [OF clear] obtain d3 where d3: "clear_pending_stm (clock e (steps w4)) (cur (settle e w4)) = Inr (y'', d3)"
      "w5 = put_cur d3 (settle e w4)" by blast
  note d3' = cleared_pending [OF d3(1)]
  from go [OF w4(1)] w4(2) have s4: "door_held (settle e w4)" "live_admin_keys (cur (settle e w4)) = {text_key ?x}" by auto
  have w5: "door_held w5" "live_admin_keys (cur w5) = {text_key ?x}"
    using held_put [OF s4(1)] d3' held_row [OF s4(1)] s4(2) d3(2) by simp_all
  from commit_Inr [OF com] go [OF w5(1)] w5(2) show ?thesis by (simp add: d' w)
qed

section \<open>Properties\<close>

text \<open>C18. The door opens once. Other sessions may race and statements may fail, as long as those sessions keep the
  store's constraints and history, respect the lock on the row of \<open>administrators\<close>, soft-delete nobody, and leave that
  team a live member while it has one. Then the person a bootstrap creation answered for is the only live
  administrator of the store it committed; and in every later state no bootstrap creation, whichever id it names, is
  ever answered, and without company none writes anything.\<close>

theorem bootstrap_create_once:
  assumes "door.relies e" and "heeds_administrators e" and "store_ok d" and "nq_user_id r \<noteq> []"
    and "run (insert_user r rid) e d = (Inr m, d', ev)"
    and "quiet d' later" and "door.relies e'" and "nq_user_id r' \<noteq> []"
  shows "live_admin_keys d' = {text_key (nq_user_id r)} \<and>
     \<not> is_ok (fst (run (insert_user r' rid') e' later)) \<and>
     (alone e' \<longrightarrow> fst (snd (run (insert_user r' rid') e' later)) = later)"
proof -
  have one: "live_admin_keys d' = {text_key (nq_user_id r)}" by (rule created_alone_administers [OF assms(1,2,4,5)])
  then have staffed: "staffed later" using assms(6) by (simp add: quiet_def staffed_def)
  have "store_ok d'" using hist.keeps_run [OF keeps_insert_user door_hist [OF assms(1)] assms(3,5)] by simp
  with assms(6) have "store_ok later" by (simp add: quiet_def step_ok_def)
  with closed_never_answers [OF assms(7) _ staffed assms(8)] closed_writes_nothing [OF _ staffed assms(8)] one show ?thesis by blast
qed

theorem bootstrap_create_once_witness:
  "\<exists>d'. fst (run (insert_user sample_create []) calm_env fresh_db) = Inr \<lparr>mt_id = alice, mt_version = 1\<rparr> \<and>
     live_admin_keys d' = {alice} \<and> \<not> is_ok (fst (run (insert_user (sample_create\<lparr>nq_user_id := bob\<rparr>) []) calm_env d')) \<and>
     fst (snd (run (insert_user (sample_create\<lparr>nq_user_id := bob\<rparr>) []) calm_env d')) = d'"
proof -
  obtain ev t where r: "run (insert_user sample_create []) calm_env fresh_db =
      (Inr \<lparr>mt_id = alice, mt_version = 1\<rparr>, with_administrator sample_create t fresh_db, ev)"
    using bootstrap_decides_rows [OF calm_calm_env store_ok_samples(2), of sample_create "[]"] sample_open
    by (auto simp: sample_create_def sample_defs)
  note alone = alone_calm [OF calm_calm_env]
  have "heeds_administrators calm_env" using calm_calm_env by (simp add: heeds_administrators_def calm_def)
  from bootstrap_create_once [OF door_alone [OF alone] this store_ok_samples(2) _ r door.R_refl door_alone [OF alone],
      of "sample_create\<lparr>nq_user_id := bob\<rparr>" "[]"] r alone show ?thesis
    by (auto simp: sample_create_def)
qed

end
