(* ===== verification/Inheritance.thy ===== *)
theory Inheritance
  imports Setting Alone Sample
begin

text \<open>
  What \<open>SetInheritedSetting\<close> accepts, what an accepted request does to the store, all of it or none,
  and what a repeated idempotency key is answered.
\<close>

section \<open>The specification\<close>

definition well_formed :: "setting_request \<Rightarrow> bool" where
  "well_formed r \<longleftrightarrow> iq_name r = OWNER_READS_OWN_RECORD \<and> iq_value r \<noteq> Some 0 \<and>
     (iq_scope r = 1 \<and> iq_team_id r = None \<and> iq_locked r \<noteq> None \<and> \<not> iq_clear r \<and> iq_value r \<noteq> None \<or>
      iq_scope r = 2 \<and> iq_team_id r \<notin> {None, Some []} \<and> iq_locked r = None \<and> (iq_clear r \<longleftrightarrow> iq_value r = None))"

definition setting_row :: "setting_request \<Rightarrow> org_setting_row" where
  "setting_row r = \<lparr>os_name = iq_name r, os_value = the (iq_value r), os_locked = the (iq_locked r)\<rparr>"

definition setting_written :: "setting_request \<Rightarrow> db \<Rightarrow> db option" where
  "setting_written r d =
     (if iq_scope r = 1
      then if the (iq_value r) \<in> {1, 2}
           then Some (d\<lparr>iam_org_setting := snd (upsert (\<lambda>v. sql_eq (os_name v) (iq_name r)) (setting_row r)
                  (\<lambda>v. v\<lparr>os_value := the (iq_value r), os_locked := the (iq_locked r)\<rparr>) (iam_org_setting d))\<rparr>)
           else None
      else if iq_clear r
      then Some (d\<lparr>iam_team_setting_override := del (override_row r) (iam_team_setting_override d)\<rparr>)
      else (case find_live_team d (the (iq_team_id r)) of
          None \<Rightarrow> None
        | Some tm \<Rightarrow> if the (iq_value r) \<in> {1, 2}
            then Some (d\<lparr>iam_team_setting_override := snd (upsert
                   (\<lambda>v. sql_eq (to_name v) (iq_name r) \<and> sql_eq (to_team_id v) (t_id tm))
                   \<lparr>to_name = iq_name r, to_team_id = t_id tm, to_value = the (iq_value r)\<rparr>
                   (\<lambda>v. v\<lparr>to_value := the (iq_value r)\<rparr>) (iam_team_setting_override d))\<rparr>)
            else None))"

definition setting_claimed :: "setting_request \<Rightarrow> db \<Rightarrow> db" where
  "setting_claimed r d = (if sw_key (claim_of r) = [] then d
     else d\<lparr>iam_inherited_setting_write := iam_inherited_setting_write d @ [claim_of r]\<rparr>)"

definition claim_before :: "setting_request \<Rightarrow> db \<Rightarrow> claim option" where
  "claim_before r d = (if sw_key (claim_of r) = [] then None else find_claim (sw_key (claim_of r)) d)"

section \<open>Lemmas\<close>

lemma check_accepts:
  "check_inherited_setting r = Inr s \<longleftrightarrow> well_formed r \<and> s = (if iq_scope r = 1 then ScopeOrg else ScopeTeam)"
  by (auto simp: check_inherited_setting_def check_level_def well_formed_def scope_of_def invalid_def
      split: option.splits setting_scope.splits if_splits)

lemma inner_already_recorded:
  "inner (\<lambda>x. x = d) (already_recorded (claim_of r)) (\<lambda>b x. (case claim_before r d of None \<Rightarrow> \<not> b
     | Some p \<Rightarrow> b \<and> payload (claim_of r) = payload p) \<and> x = d)"
proof (rule inner_any)
  show "inner (\<lambda>_. True) (already_recorded (claim_of r)) (\<lambda>_ _. True)"
    unfolding already_recorded_def recorded_def agrees_with_def by (auto intro!: inner_free split: option.split)
qed (auto simp: already_recorded_def recorded_def agrees_with_def claim_before_def and_then_Inr ok_def fail_def
      dest!: select_lock_Inr split: option.splits if_splits)

lemma org_stm_written:
  assumes "well_formed r" and "iq_scope r = 1" and "org_stm r t d = Inr (n, d')"
  shows "setting_written r d = Some d'"
  using assms by (auto simp: org_stm_def ups_org_setting_def setting_written_def setting_row_def Let_def
      split: if_splits prod.splits)

lemma set_override_written:
  assumes "iq_scope r \<noteq> 1" and "\<not> iq_clear r" and "set_override_stm r t d = Inr (n, d')"
  shows "if find_live_team d (team_id_of r) = None then d' = d \<and> n = 0 else setting_written r d = Some d'"
  using assms by (auto simp: set_override_stm_def ups_team_override_def setting_written_def team_id_of_def Let_def
      split: option.splits if_splits prod.splits)

lemma inner_set_override:
  assumes "iq_scope r \<noteq> 1" and "\<not> iq_clear r"
  shows "inner (\<lambda>x. x = d) (set_team_override r) (\<lambda>_ x. setting_written r d = Some x)"
proof (rule inner_any)
  show "inner (\<lambda>_. True) (set_team_override r) (\<lambda>_ _. True)"
    unfolding set_team_override_def live_team_def by (auto intro!: inner_free split: option.split)
  fix e w n w'
  assume *: "alone e" "cur w = d" "set_team_override r e w = (Inr n, w')"
  then obtain w1 where s: "stmt (set_override_stm r) e w = (Inr n, w1)"
      and rest: "(if n = 0 then live_team select (team_id_of r) else ok ()) e w1 = (Inr (), w')"
    by (auto simp: set_team_override_def and_then_Inr ok_def)
  from stmt_Inr [OF s] *(1,2) obtain t where st: "set_override_stm r t d = Inr (n, cur w1)" by auto
  from rest *(1) have "cur w' = cur w1" "n = 0 \<Longrightarrow> find_live_team (cur w1) (team_id_of r) \<noteq> None"
    by (auto simp: live_team_def and_then_Inr ok_def fail_def dest!: select_Inr split: if_splits option.splits) (metis)
  with set_override_written [OF assms st] show "setting_written r d = Some (cur w')" by (auto split: if_splits)
qed

lemma inner_write:
  assumes "well_formed r"
  shows "inner (\<lambda>x. x = d) (write_at_scope r (if iq_scope r = 1 then ScopeOrg else ScopeTeam))
     (\<lambda>_ x. setting_written r d = Some x)"
proof (cases "iq_scope r = 1")
  case True
  then show ?thesis by (auto simp: write_at_scope_def intro!: inner_stmt dest: org_stm_written [OF assms True])
next
  case False
  then show ?thesis
    by (auto simp: write_at_scope_def intro!: inner_set_override inner_stmt)
       (auto simp: clear_override_stm_def setting_written_def)
qed

lemma setting_written_claims: "setting_written r d = Some d' \<Longrightarrow> iam_inherited_setting_write d' = iam_inherited_setting_write d"
  by (auto simp: setting_written_def split: if_splits option.splits)

lemma inner_record_claim:
  assumes "claim_before r d = None" and "setting_written r d = Some d1"
  shows "inner (\<lambda>x. x = d1) (record_claim (claim_of r)) (\<lambda>_ x. x = setting_claimed r d1)"
proof (rule inner_any)
  have attempt: "inner (\<lambda>_. True) (stmt_try s) (\<lambda>_ _. True)" for s :: "unit stm"
    by (auto simp: inner_def stmt_try_def exec_def Let_def split: fault.splits sum.splits prod.splits)
  show "inner (\<lambda>_. True) (record_claim (claim_of r)) (\<lambda>_ _. True)"
    unfolding record_claim_def recorded_def agrees_with_def
    by (auto intro!: inner_free inner_then [OF attempt] split: sum.split sql_error.split option.split)
  have new: "sw_key (claim_of r) = [] \<or> claim_stm (claim_of r) t d1 = Inr ((), setting_claimed r d1)" for t
    using assms setting_written_claims [OF assms(2)]
    by (auto simp: claim_before_def find_claim_def claim_stm_def ins_setting_write_def setting_claimed_def
        filter_empty_conv list_ex_iff split: if_splits)
  fix e w x w'
  assume "alone e" "cur w = d1" "record_claim (claim_of r) e w = (Inr x, w')"
  then show "cur w' = setting_claimed r d1"
    using new [of "clock e (steps w)"]
    by (auto simp: record_claim_def recorded_def and_then_Inr stmt_try_def exec_def Let_def ok_def fail_def setting_claimed_def
        split: fault.splits sum.splits if_splits prod.splits)
qed

lemma atomic_answer:
  "atomic (\<lambda>x. x = A) (answer name n) (\<lambda>y x. y = inherited name A \<and> x = A)"
proof -
  have "inner (\<lambda>x. x = A) (read_inherited_setting name) (\<lambda>y x. y = inherited name A \<and> x = A)"
  proof (rule inner_any)
    show "inner (\<lambda>_. True) (read_inherited_setting name) (\<lambda>_ _. True)"
      unfolding read_inherited_setting_def by (auto intro!: inner_free)
  qed (auto simp: read_inherited_setting_def inherited_def and_then_Inr ok_def simp del: split_paired_Ex dest!: select_Inr)
  then show ?thesis unfolding answer_def by (rule atomic_then) (auto intro!: atomic_commit)
qed

definition setting_result :: "setting_request \<Rightarrow> db \<Rightarrow> inherited_setting \<Rightarrow> db \<Rightarrow> bool" where
  "setting_result r d y d' \<longleftrightarrow> y = inherited (iq_name r) d' \<and>
     (case claim_before r d of
        Some p \<Rightarrow> payload (claim_of r) = payload p \<and> d' = d
      | None \<Rightarrow> (\<exists>d1. setting_written r d = Some d1 \<and> d' = setting_claimed r d1))"

lemma atomic_mono: "atomic P m Q \<Longrightarrow> (\<And>x d. Q x d \<Longrightarrow> Q' x d) \<Longrightarrow> atomic P m Q'"
  unfolding atomic_def by metis

lemma atomic_setting:
  assumes "well_formed r"
  shows "atomic (\<lambda>x. x = d) (and_then (already_recorded (claim_of r)) (\<lambda>done.
         if done then answer (iq_name r) 0
         else
           and_then (write_at_scope r (if iq_scope r = 1 then ScopeOrg else ScopeTeam)) (\<lambda>rows.
           and_then (record_claim (claim_of r)) (\<lambda>_.
           answer (iq_name r) (as_u32 rows))))) (setting_result r d)"
proof (rule atomic_then [OF inner_already_recorded], rule atomic_pure)
  fix b
  assume b: "case claim_before r d of None \<Rightarrow> \<not> b | Some p \<Rightarrow> b \<and> payload (claim_of r) = payload p"
  show "atomic (\<lambda>x. x = d) (if b then answer (iq_name r) 0
         else
           and_then (write_at_scope r (if iq_scope r = 1 then ScopeOrg else ScopeTeam)) (\<lambda>rows.
           and_then (record_claim (claim_of r)) (\<lambda>_.
           answer (iq_name r) (as_u32 rows)))) (setting_result r d)"
  proof (cases "claim_before r d")
    case (Some p)
    with b show ?thesis by (auto intro!: atomic_mono [OF atomic_answer] simp: setting_result_def)
  next
    case None
    have "atomic (\<lambda>x. x = d1) (and_then (record_claim (claim_of r)) (\<lambda>_. answer (iq_name r) (as_u32 rows))) (setting_result r d)"
      if "setting_written r d = Some d1" for rows d1
      by (rule atomic_then [OF inner_record_claim [OF None that]], rule atomic_mono [OF atomic_answer])
         (simp add: setting_result_def None that)
    from atomic_seq [OF inner_write [OF assms] this] None b show ?thesis by simp
  qed
qed

lemma store_setting_result:
  assumes "alone e" and "run (store_setting r rid) e d = (res, d', ev)"
  shows "(\<not> is_ok res \<and> d' = d) \<or> well_formed r \<and> (\<exists>x. setting_result r d x d' \<and> (\<forall>y. res = Inr y \<longrightarrow> y = x))"
proof (cases "check_inherited_setting r")
  case (Inl s)
  with assms(2) show ?thesis
    by (auto simp: store_setting_def run_def ask_def record_actor_def and_then_def emit_def refuse_call_def fail_def)
next
  case (Inr scope)
  then have wf: "well_formed r" and scope: "scope = (if iq_scope r = 1 then ScopeOrg else ScopeTeam)"
    by (simp_all add: check_accepts)
  let ?w = "\<lparr>committed = d, tx = None, steps = 0, events = [Actor rid (actor_name e (iq_actor r)) ''SetInheritedSetting'' (setting_target e r)]\<rparr>"
  obtain w' where "and_then acquire (\<lambda>_. and_then (begin_tx ReadCommitted) (\<lambda>_. and_then (already_recorded (claim_of r)) (\<lambda>done.
         if done then answer (iq_name r) 0
         else
           and_then (write_at_scope r (if iq_scope r = 1 then ScopeOrg else ScopeTeam)) (\<lambda>rows.
           and_then (record_claim (claim_of r)) (\<lambda>_.
           answer (iq_name r) (as_u32 rows)))))) e ?w = (res, w')" "committed w' = d'"
    using assms(2) Inr scope
    by (auto simp: store_setting_def run_def ask_def and_then_def [where m = "record_actor a b c d" for a b c d]
        actor_line_only Let_def split: prod.splits)
  with atomic_request [OF assms(1) _ _ this(1)] atomic_setting [OF wf, of d] wf show ?thesis by simp
qed

section \<open>What is read back\<close>

lemma upsert_lookup:
  assumes "\<And>r. P r \<Longrightarrow> P (f r)" and "P new"
  shows "\<exists>r \<in> set (snd (upsert P new f rs)). P r \<and> (r = new \<or> (\<exists>s \<in> set rs. r = f s))"
  using assms by (auto simp: set_upsert set_upd)

lemma upsert_rows:
  assumes "r \<in> set (snd (upsert P new f rs))" and "P r" and "\<And>s. s \<in> set rs \<Longrightarrow> P (f s) = P s"
  shows "r = new \<or> (\<exists>s \<in> set rs. r = f s)"
  using assms by (auto simp: set_upsert set_upd split: if_splits)

lemma org_row_written:
  assumes "well_formed r" and "iq_scope r = 1" and "setting_written r d = Some d1"
  shows "org_row (iq_name r) d1 = (the (iq_value r), the (iq_locked r)) \<and>
     override_map (iq_name r) d1 = override_map (iq_name r) d"
proof -
  let ?P = "\<lambda>v. sql_eq (os_name v) (iq_name r)"
  let ?f = "\<lambda>v. v\<lparr>os_value := the (iq_value r), os_locked := the (iq_locked r)\<rparr>"
  have d1: "d1 = d\<lparr>iam_org_setting := snd (upsert ?P (setting_row r) ?f (iam_org_setting d))\<rparr>"
    using assms(2,3) by (auto simp: setting_written_def split: if_splits)
  obtain v where v: "fetch_optional (filter ?P (iam_org_setting d1)) = Some v"
    using upsert_lookup [of ?P ?f "setting_row r" "iam_org_setting d"]
    by (cases "fetch_optional (filter ?P (iam_org_setting d1))") (auto simp: d1 setting_row_def filter_empty_conv)
  then have "v \<in> set (iam_org_setting d1)" "?P v" by (auto dest: fetch_optional_filter)
  then have "os_value v = the (iq_value r) \<and> os_locked v = the (iq_locked r)"
    using upsert_rows [of v ?P "setting_row r" ?f "iam_org_setting d"] by (auto simp: d1 setting_row_def)
  with v show ?thesis by (simp add: org_row_def d1 override_map_def)
qed

lemma find_live_team_in:
  "find_live_team d x = Some tm \<Longrightarrow> tm \<in> set (iam_team d) \<and> sql_eq (t_id tm) x \<and> t_deleted_at tm = None"
  unfolding find_live_team_def by (drule fetch_optional_filter) simp

lemma override_map_in:
  "override_map name d x = Some w \<Longrightarrow>
     \<exists>s \<in> set (iam_team_setting_override d). sql_eq (to_name s) name \<and> to_team_id s = x \<and> to_value s = w"
  unfolding override_map_def by (drule map_of_SomeD) auto

lemma override_map_some:
  assumes "s \<in> set (iam_team_setting_override d)" and "sql_eq (to_name s) name"
  shows "\<exists>w. override_map name d (to_team_id s) = Some w"
proof -
  have "(to_team_id s, to_value s) \<in> set (rev (map (\<lambda>s. (to_team_id s, to_value s))
     (filter (\<lambda>s. sql_eq (to_name s) name) (iam_team_setting_override d))))" using assms by auto
  then show ?thesis unfolding override_map_def by (metis weak_map_of_SomeI)
qed

lemma override_written:
  assumes "iq_scope r \<noteq> 1" and "setting_written r d = Some d1"
  shows "org_row (iq_name r) d1 = org_row (iq_name r) d \<and>
     (\<forall>x v. sql_eq x (team_id_of r) \<longrightarrow> override_map (iq_name r) d1 x = Some v \<longrightarrow>
        \<not> iq_clear r \<and> v = the (iq_value r)) \<and>
     (\<not> iq_clear r \<longrightarrow> (\<exists>x. sql_eq x (team_id_of r) \<and> override_map (iq_name r) d1 x = Some (the (iq_value r))))"
proof (cases "iq_clear r")
  case True
  with assms have d1: "d1 = d\<lparr>iam_team_setting_override := del (override_row r) (iam_team_setting_override d)\<rparr>"
    by (auto simp: setting_written_def)
  have "override_map (iq_name r) d1 x \<noteq> Some v" if "sql_eq x (team_id_of r)" for x v
  proof
    assume "override_map (iq_name r) d1 x = Some v"
    from override_map_in [OF this] that show False by (auto simp: d1 set_del override_row_def)
  qed
  with True show ?thesis by (auto simp: d1 org_row_def)
next
  case False
  let ?rows = "iam_team_setting_override d"
  from False assms obtain tm where live: "find_live_team d (team_id_of r) = Some tm"
    and d1: "d1 = d\<lparr>iam_team_setting_override := snd (upsert
           (\<lambda>v. sql_eq (to_name v) (iq_name r) \<and> sql_eq (to_team_id v) (t_id tm))
           \<lparr>to_name = iq_name r, to_team_id = t_id tm, to_value = the (iq_value r)\<rparr>
           (\<lambda>v. v\<lparr>to_value := the (iq_value r)\<rparr>) ?rows)\<rparr>"
    by (auto simp: setting_written_def team_id_of_def split: option.splits if_splits)
  then have tm: "sql_eq (t_id tm) (team_id_of r)" using find_live_team_in by blast
  let ?P = "\<lambda>v. sql_eq (to_name v) (iq_name r) \<and> sql_eq (to_team_id v) (t_id tm)"
  let ?n = "\<lparr>to_name = iq_name r, to_team_id = t_id tm, to_value = the (iq_value r)\<rparr>"
  let ?f = "\<lambda>v. v\<lparr>to_value := the (iq_value r)\<rparr>"
  have one: "to_value v = the (iq_value r)" if "v \<in> set (snd (upsert ?P ?n ?f ?rows))" "?P v" for v
    using upsert_rows [OF that] by auto
  obtain v where "v \<in> set (snd (upsert ?P ?n ?f ?rows))" "?P v"
    using upsert_lookup [of ?P ?f ?n ?rows] by auto
  then have v: "v \<in> set (iam_team_setting_override d1)" "sql_eq (to_name v) (iq_name r)" "sql_eq (to_team_id v) (team_id_of r)"
    using tm by (auto simp: d1)
  have all: "w = the (iq_value r)" if "sql_eq x (team_id_of r)" "override_map (iq_name r) d1 x = Some w" for x w
    using override_map_in [OF that(2)] one that(1) tm by (auto simp: d1)
  from override_map_some [OF v(1,2)] all v(3) have "override_map (iq_name r) d1 (to_team_id v) = Some (the (iq_value r))" by auto
  with all v(3) False show ?thesis by (auto simp: d1 org_row_def)
qed

section \<open>Properties\<close>

text \<open>C19. What is accepted: the organisation's level with a value and a lock and nothing else, or one
  team's level with a team and either a value or a withdrawal, for the one name the vocabulary has;
  everything else is INVALID_ARGUMENT.\<close>

theorem setting_check_decides:
  "case check_inherited_setting r of
     Inr s \<Rightarrow> well_formed r \<and> s = (if iq_scope r = 1 then ScopeOrg else ScopeTeam)
   | Inl st \<Rightarrow> \<not> well_formed r \<and> code_of st = INVALID_ARGUMENT"
proof (cases "check_inherited_setting r")
  case (Inl st)
  then have "\<not> well_formed r" using check_accepts [of r] by auto
  moreover have "code_of st = INVALID_ARGUMENT" using Inl
    by (auto simp: check_inherited_setting_def check_level_def invalid_def split: option.splits setting_scope.splits if_splits)
  ultimately show ?thesis using Inl by simp
next
  case (Inr s)
  then show ?thesis using check_accepts [of r s] by simp
qed

text \<open>C20. With no other session at work, a setting write is all or nothing and answers what the store holds after it: whichever
  statement the engine refuses and whichever reply is lost, the store is unchanged, or it has both
  the write and the key's row; a key already on record with the same request writes nothing.\<close>

theorem setting_all_or_nothing:
  assumes "alone e" and "run (store_setting r rid) e d = (res, d', ev)"
  shows "(d' = d \<or> claim_before r d = None \<and> well_formed r \<and>
            (\<exists>d1. setting_written r d = Some d1 \<and> d' = setting_claimed r d1)) \<and>
     (\<forall>y. res = Inr y \<longrightarrow> y = inherited (iq_name r) d' \<and>
        (case claim_before r d of None \<Rightarrow> \<exists>d1. setting_written r d = Some d1 \<and> d' = setting_claimed r d1
         | Some p \<Rightarrow> payload (claim_of r) = payload p \<and> d' = d))"
  using store_setting_result [OF assms] unfolding setting_result_def
  by (cases "claim_before r d"; cases res) auto

definition sample_setting :: setting_request where
  "sample_setting = \<lparr>iq_scope = 1, iq_team_id = None, iq_name = OWNER_READS_OWN_RECORD, iq_value = Some 2,
     iq_locked = Some True, iq_clear = False, iq_idempotency = Some ''key-2'', iq_actor = None\<rparr>"

lemma sample_setting_answers: "is_ok (fst (run (store_setting sample_setting []) calm_env sample_db))"
  by (simp add: store_setting_def sample_setting_def check_inherited_setting_def check_level_def scope_of_def calm_run calm_calm_env
      actor_line_only already_recorded_def claim_of_def recorded_def find_claim_def locked_if_def write_at_scope_def org_stm_def
      ups_org_setting_def record_claim_def claim_stm_def ins_setting_write_def answer_def read_inherited_setting_def
      upsert_def Let_def sample_defs)

lemma sample_setting_fresh: "claim_before sample_setting sample_db = None"
  by (simp add: claim_before_def claim_of_def sample_setting_def find_claim_def sample_defs)

theorem setting_all_or_nothing_witness:
  "\<exists>y d' ev d1. run (store_setting sample_setting []) calm_env sample_db = (Inr y, d', ev) \<and>
     y = inherited OWNER_READS_OWN_RECORD d' \<and> setting_written sample_setting sample_db = Some d1 \<and>
     d' = setting_claimed sample_setting d1"
proof -
  from sample_setting_answers obtain y d' ev where
    r: "run (store_setting sample_setting []) calm_env sample_db = (Inr y, d', ev)" by (rule run_answers)
  from setting_all_or_nothing [OF alone_calm [OF calm_calm_env] r] sample_setting_fresh r show ?thesis
    by (auto simp: sample_setting_def)
qed

text \<open>C21. What was written is what is read back: after an organisation write the answer has its value
  and its lock and every team override as before; after a team write, that team's override and no
  other value for it, and after a withdrawal none for it, with the organisation's row as before.\<close>

theorem setting_reads_back:
  assumes "alone e" and "claim_before r d = None" and "run (store_setting r rid) e d = (Inr y, d', ev)"
  shows "if iq_scope r = 1
     then org_value y = the (iq_value r) \<and> org_locked y = the (iq_locked r) \<and> team_override y = override_map (iq_name r) d
     else (org_value y, org_locked y) = org_row (iq_name r) d \<and>
       (\<forall>x v. sql_eq x (team_id_of r) \<longrightarrow> team_override y x = Some v \<longrightarrow> \<not> iq_clear r \<and> v = the (iq_value r)) \<and>
       (\<not> iq_clear r \<longrightarrow> (\<exists>x. sql_eq x (team_id_of r) \<and> team_override y x = Some (the (iq_value r))))"
proof -
  from store_setting_result [OF assms(1,3)] assms(2) obtain d1 where wf: "well_formed r" and d1: "setting_written r d = Some d1"
      and y: "y = inherited (iq_name r) (setting_claimed r d1)"
    by (auto simp: setting_result_def)
  have "inherited (iq_name r) (setting_claimed r d1) = inherited (iq_name r) d1"
    by (simp add: inherited_def setting_claimed_def org_row_def override_map_def)
  with y have y: "y = inherited (iq_name r) d1" by simp
  show ?thesis
  proof (cases "iq_scope r = 1")
    case True
    with org_row_written [OF wf True d1] y show ?thesis by (simp add: inherited_def)
  next
    case False
    with override_written [OF False d1] y show ?thesis by (simp add: inherited_def)
  qed
qed

theorem setting_reads_back_witness:
  "\<exists>y. fst (run (store_setting sample_setting []) calm_env sample_db) = Inr y \<and> org_value y = 2 \<and> org_locked y"
proof -
  from sample_setting_answers obtain y d' ev where
    r: "run (store_setting sample_setting []) calm_env sample_db = (Inr y, d', ev)" by (rule run_answers)
  from setting_reads_back [OF alone_calm [OF calm_calm_env] sample_setting_fresh r] r show ?thesis
    by (simp add: sample_setting_def)
qed

text \<open>C22. A repeated key, in a call on its own: with the same request it is answered with what the
  store holds now, with a different one it is refused, and neither writes.\<close>

theorem setting_key_repeated:
  assumes "calm e" and "well_formed r" and "claim_before r d = Some p"
  shows "\<exists>ev. run (store_setting r rid) e d =
     (if payload (claim_of r) = payload p then Inr (inherited (iq_name r) d) else Inl different_request, d, ev)"
proof -
  have "check_inherited_setting r = Inr (if iq_scope r = 1 then ScopeOrg else ScopeTeam)"
    using assms(2) check_accepts by simp
  with assms(1,3) show ?thesis
    by (auto simp: store_setting_def calm_run actor_line_only already_recorded_def recorded_def agrees_with_def claim_before_def
        locked_if_def answer_def read_inherited_setting_def inherited_def Let_def split: if_splits prod.split)
qed

theorem setting_key_repeated_witness:
  "\<exists>ev. run (store_setting (sample_setting\<lparr>iq_locked := Some False\<rparr>) []) calm_env (setting_claimed sample_setting sample_db) =
     (Inl different_request, setting_claimed sample_setting sample_db, ev)"
proof -
  let ?r = "sample_setting\<lparr>iq_locked := Some False\<rparr>"
  have wf: "well_formed ?r" by (simp add: well_formed_def sample_setting_def)
  have before: "claim_before ?r (setting_claimed sample_setting sample_db) = Some (claim_of sample_setting)"
    by (simp add: claim_before_def claim_of_def sample_setting_def find_claim_def setting_claimed_def sample_defs)
  have "payload (claim_of ?r) \<noteq> payload (claim_of sample_setting)"
    by (simp add: payload_def claim_of_def sample_setting_def)
  with setting_key_repeated [OF calm_calm_env wf before, of "[]"] show ?thesis by simp
qed

text \<open>C23. A value outside the enumeration, asked for the organisation's level under a key not on record, in a call on
  its own, passes the check and is refused by the column instead: the answer is UNAVAILABLE, the code of a failure that
  passes, and nothing is written.\<close>

theorem unknown_value_is_unavailable:
  assumes "calm e" and "well_formed r" and "iq_scope r = 1" and "the (iq_value r) \<notin> {1, 2}" and "claim_before r d = None"
  shows "\<exists>ev. run (store_setting r rid) e d = (Inl (Status UNAVAILABLE ''storage unavailable''), d, ev)"
proof -
  have "check_inherited_setting r = Inr ScopeOrg" using assms(2,3) check_accepts by simp
  with assms(1,3,4,5) show ?thesis
    by (auto simp: store_setting_def calm_run actor_line_only already_recorded_def recorded_def claim_before_def
        write_at_scope_def org_stm_def ups_org_setting_def db_error_def Let_def split: if_splits)
qed

theorem unknown_value_is_unavailable_witness:
  "\<exists>ev. run (store_setting (sample_setting\<lparr>iq_value := Some 3\<rparr>) []) calm_env sample_db =
     (Inl (Status UNAVAILABLE ''storage unavailable''), sample_db, ev)"
  by (rule unknown_value_is_unavailable [OF calm_calm_env])
     (simp_all add: well_formed_def sample_setting_def claim_before_def claim_of_def find_claim_def sample_defs)

end
