(* ===== verification/Pages.thy ===== *)
theory Pages
  imports KeyIdentity Sample
begin

text \<open>
  Keyset pagination. Both listings (\<open>ListCredentials\<close>, \<open>ListKeyIdentityEvidence\<close>) answer a page of the
  rows after a position in key order, and the position of its last row when the page is full. A
  caller that follows the positions gets every row once, in order, and comes to an end.
\<close>

section \<open>The interface\<close>

text \<open>A caller asks for the page of a query, and goes on with the query the answer gives, if any.\<close>

inductive follow :: "('q \<Rightarrow> 'a list \<times> 'q option) \<Rightarrow> 'q \<Rightarrow> 'a list \<Rightarrow> bool" for f where
  last_page: "f q = (xs, None) \<Longrightarrow> follow f q xs"
| next_page: "f q = (xs, Some q') \<Longrightarrow> follow f q' ys \<Longrightarrow> follow f q (xs @ ys)"

inductive_simps follow_simps: "follow f q xs"

locale keyset =
  fixes key :: "'r \<Rightarrow> 'k::linorder" and after :: "'p \<Rightarrow> 'r \<Rightarrow> bool" and pos_of :: "'r \<Rightarrow> 'p"
  assumes after_pos: "after (pos_of r) s \<longleftrightarrow> key r < key s"
    and after_mono: "after p r \<Longrightarrow> key r < key s \<Longrightarrow> after p s"
begin

definition rest :: "'p \<Rightarrow> 'r list \<Rightarrow> 'r list" where
  "rest p rows = sort_key key (filter (after p) rows)"

definition page :: "nat \<Rightarrow> 'p \<Rightarrow> 'r list \<Rightarrow> 'r list" where
  "page n p rows = take n (rest p rows)"

text \<open>The rows after the last one of a full page are the ones the page left over.\<close>

lemma filter_drop:
  assumes "sorted (map key xs)" and "distinct (map key xs)" and "0 < n" and "n \<le> length xs"
  shows "filter (\<lambda>s. key (last (take n xs)) < key s) xs = drop n xs"
proof -
  let ?r = "last (take n xs)"
  have r: "?r = xs ! (n - 1)" using assms(3,4) by (subst last_conv_nth) (auto simp: min_def)
  have "\<not> key ?r < key s" if "s \<in> set (take n xs)" for s
  proof -
    from that obtain i where i: "i < n" "i < length xs" "s = xs ! i" by (auto simp: in_set_conv_nth)
    then have "key (xs ! i) \<le> key (xs ! (n - 1))"
      using sorted_nth_mono [OF assms(1), of i "n - 1"] assms(3,4) by simp
    with i show ?thesis unfolding r by simp
  qed
  moreover have "key ?r < key s" if "s \<in> set (drop n xs)" for s
  proof -
    from that obtain i where "i < length (drop n xs)" "s = drop n xs ! i" unfolding in_set_conv_nth by blast
    then have i: "n + i < length xs" "s = xs ! (n + i)" by auto
    have "key (xs ! (n - 1)) \<le> key (xs ! (n + i))"
      using sorted_nth_mono [OF assms(1), of "n - 1" "n + i"] i assms(3) by simp
    moreover have "key (xs ! (n - 1)) \<noteq> key (xs ! (n + i))"
      using nth_eq_iff_index_eq [OF assms(2), of "n - 1" "n + i"] i assms(3) by simp
    ultimately show ?thesis unfolding r i(2) by simp
  qed
  moreover have "filter P (take n xs @ drop n xs) = drop n xs"
    if "\<And>s. s \<in> set (take n xs) \<Longrightarrow> \<not> P s" "\<And>s. s \<in> set (drop n xs) \<Longrightarrow> P s" for P
    using that by (simp add: filter_empty_conv filter_id_conv del: append_take_drop_id)
  ultimately show ?thesis by (metis append_take_drop_id)
qed

lemma rest_after_page:
  assumes "distinct (map key rows)" and "0 < n" and "length (page n p rows) = n"
  shows "rest (pos_of (last (page n p rows))) rows = drop n (rest p rows)"
proof -
  let ?S = "rest p rows" and ?r = "last (page n p rows)"
  have n: "n \<le> length ?S" using assms(3) by (simp add: page_def)
  have "?r \<in> set (page n p rows)" using assms(2,3) by (intro last_in_set) auto
  then have "after p ?r" by (auto simp: page_def rest_def dest: in_set_takeD)
  then have "filter (after (pos_of ?r)) rows = filter (\<lambda>s. key ?r < key s) (filter (after p) rows)"
    using after_mono by (auto simp: after_pos intro!: filter_cong)
  then have "rest (pos_of ?r) rows = filter (\<lambda>s. key ?r < key s) ?S"
    by (simp add: rest_def filter_sort)
  also have "\<dots> = drop n ?S"
    unfolding page_def
    by (rule filter_drop) (use assms(1,2) n in \<open>auto simp: rest_def distinct_map inj_on_def\<close>)
  finally show ?thesis .
qed

lemma rest_empty_page: "page n p rows = [] \<Longrightarrow> 0 < n \<Longrightarrow> rest p rows = []"
  by (simp add: page_def)

lemma short_page: "length (page n p rows) \<noteq> n \<Longrightarrow> page n p rows = rest p rows"
  by (simp add: page_def min_def split: if_splits)

lemma page_subset: "r \<in> set (page n p rows) \<Longrightarrow> r \<in> set rows \<and> after p r"
  by (auto simp: page_def rest_def dest!: in_set_takeD)

text \<open>Following the pages comes to an end, with every row after the first position, once, in order.\<close>

lemma follow_total:
  assumes rows: "distinct (map key rows)" and n: "0 < n"
    and f: "\<And>q. good q \<Longrightarrow> f q = (map g (page n (at q) rows),
        if length (page n (at q) rows) = n \<and> page n (at q) rows \<noteq> [] then Some (go q (last (page n (at q) rows))) else None)"
    and go: "\<And>q r. good q \<Longrightarrow> r \<in> set rows \<Longrightarrow> good (go q r) \<and> at (go q r) = pos_of r"
    and "good q"
  shows "follow f q xs \<longleftrightarrow> xs = map g (rest (at q) rows)"
  using assms(5)
proof (induction "length (rest (at q) rows)" arbitrary: q xs rule: less_induct)
  case less
  let ?page = "page n (at q) rows" and ?all = "rest (at q) rows"
  show ?case
  proof (cases "length ?page = n \<and> ?page \<noteq> []")
    case False
    then have "?page = ?all" using short_page rest_empty_page n by metis
    with False show ?thesis using f [OF less.prems] by (subst follow_simps) auto
  next
    case True
    let ?q = "go q (last ?page)"
    have q: "good ?q" "at ?q = pos_of (last ?page)" using go [OF less.prems] page_subset True last_in_set by blast+
    have drop: "rest (at ?q) rows = drop n ?all" using rest_after_page [OF rows n] True q(2) by simp
    have "follow f q xs \<longleftrightarrow> (\<exists>ys. xs = map g ?page @ ys \<and> follow f ?q ys)"
      using True by (subst follow_simps) (auto simp: f [OF less.prems])
    also have "\<dots> \<longleftrightarrow> xs = map g ?page @ map g (drop n ?all)"
      using less.hyps [OF _ q(1)] drop True n by (simp add: page_def)
    also have "map g ?page @ map g (drop n ?all) = map g ?all"
      by (simp add: page_def flip: map_append)
    finally show ?thesis .
  qed
qed

end

section \<open>The credential listing\<close>

interpretation by_id: keyset "\<lambda>c. text_key (c_id c)" "\<lambda>p c. text_key p < text_key (c_id c)" c_id
  by unfold_locales auto

definition listing_step :: "env \<Rightarrow> db \<Rightarrow> list_credentials_request \<Rightarrow> credential_info list \<times> list_credentials_request option" where
  "listing_step e d r = (case fst (run (credential_page r) e d) of
     Inl _ \<Rightarrow> ([], None)
   | Inr resp \<Rightarrow> (lr_credentials resp, if lr_next_page_token resp = [] then None
       else Some (r\<lparr>lq_page_token := lr_next_page_token resp\<rparr>)))"

lemma page_limit_pos: "0 < nat (page_limit n)"
  by (simp add: page_limit_def DEFAULT_PAGE_SIZE_def MAX_PAGE_SIZE_def)

lemma page_rows_keyset: "page_rows r d = by_id.page (nat (page_limit (lq_page_size r))) (lq_page_token r) (listed (lq_user_id r) d)"
  by (simp add: page_rows_def by_id.page_def by_id.rest_def)

lemma next_token:
  "next_page_token n (map (info_of x) rows) = (if length rows = nat n \<and> rows \<noteq> [] then c_id (last rows) else [])"
  by (auto simp: next_page_token_def last_map info_of_def)

lemma page_ids: "c \<in> set (by_id.page n p rows) \<Longrightarrow> c_id c \<noteq> []"
  by (drule by_id.page_subset) auto

lemma listing_step_page:
  assumes "calm e" and "nat (page_limit (lq_page_size r)) = n"
  shows "listing_step e d r = (map (info_of (lq_user_id r)) (by_id.page n (lq_page_token r) (listed (lq_user_id r) d)),
     if length (by_id.page n (lq_page_token r) (listed (lq_user_id r) d)) = n \<and>
        by_id.page n (lq_page_token r) (listed (lq_user_id r) d) \<noteq> []
     then Some (r\<lparr>lq_page_token := c_id (last (by_id.page n (lq_page_token r) (listed (lq_user_id r) d)))\<rparr>) else None)"
proof -
  let ?page = "by_id.page n (lq_page_token r) (listed (lq_user_id r) d)"
  have "fst (run (credential_page r) e d) = Inr \<lparr>lr_credentials = map (info_of (lq_user_id r)) ?page,
      lr_next_page_token = (if length ?page = n \<and> ?page \<noteq> [] then c_id (last ?page) else [])\<rparr>"
    using assms by (simp add: credential_page_def calm_run Let_def next_token page_rows_keyset)
  moreover have "c_id (last ?page) \<noteq> []" if "?page \<noteq> []" using that page_ids last_in_set by blast
  ultimately show ?thesis by (simp add: listing_step_def)
qed

text \<open>Each live credential of a live person is listed once.\<close>

lemma product_filter_one:
  assumes "\<And>u v. u \<in> set us \<Longrightarrow> v \<in> set us \<Longrightarrow> Q c u \<Longrightarrow> Q c v \<Longrightarrow> u = v" and "distinct us"
  shows "map fst (filter (\<lambda>(c, u). P c \<and> Q c u) (map (Pair c) us)) = (if P c \<and> (\<exists>u \<in> set us. Q c u) then [c] else [])"
  using assms
proof (induction us)
  case Nil
  then show ?case by simp
next
  case (Cons u us)
  have "filter (\<lambda>(c, u). P c \<and> Q c u) (map (Pair c) us) = []" if "Q c u"
    using that Cons.prems by (auto simp: filter_empty_conv)
  with Cons show ?case by auto
qed

lemma map_fst_product:
  assumes "\<And>c u v. u \<in> set us \<Longrightarrow> v \<in> set us \<Longrightarrow> Q c u \<Longrightarrow> Q c v \<Longrightarrow> u = v" and "distinct us"
  shows "map fst (filter (\<lambda>(c, u). P c \<and> Q c u) (List.product cs us)) = filter (\<lambda>c. P c \<and> (\<exists>u \<in> set us. Q c u)) cs"
  by (induction cs) (simp_all add: product_filter_one [OF assms])

lemma listed_filter:
  assumes "store_ok d"
  shows "listed x d = filter (\<lambda>c. (sql_eq (c_user_id c) x \<and> c_revoked_at c = None) \<and>
     (\<exists>u \<in> set (iam_user d). sql_eq (u_id u) (c_user_id c) \<and> u_deleted_at u = None)) (iam_credential d)"
proof -
  have "distinct (map (\<lambda>u. text_key (u_id u)) (iam_user d))" using assms by (simp add: store_ok_def users_ok_def)
  then have "distinct (iam_user d)" by (simp add: distinct_map)
  then show ?thesis unfolding listed_def using same_user [OF assms]
    by (subst map_fst_product [symmetric, where P = "\<lambda>c. sql_eq (c_user_id c) x \<and> c_revoked_at c = None"])
       (auto simp: case_prod_unfold conj_assoc)
qed

lemma listed_distinct: "store_ok d \<Longrightarrow> distinct (map (\<lambda>c. text_key (c_id c)) (listed x d))"
  by (simp add: listed_filter distinct_map_filter store_ok_def credentials_ok_def)

section \<open>The evidence listing\<close>

interpretation by_age: keyset oldest_key "\<lambda>p u. p < (int (u_created_at u), text_key (u_id u))"
    "\<lambda>u. (int (u_created_at u), text_key (u_id u))"
  by unfold_locales (auto simp: oldest_key_def less_prod_def)

lemma after_position_iff: "after_position p u \<longleftrightarrow> (po_epoch p, text_key (po_id p)) < (int (u_created_at u), text_key (u_id u))"
  by (auto simp: after_position_def less_prod_def)

lemma evidence_rows_keyset: "evidence_rows p n d = by_age.page (nat n) (po_epoch p, text_key (po_id p)) (iam_user d)"
proof -
  have "after_position p = (\<lambda>u. (po_epoch p, text_key (po_id p)) < (int (u_created_at u), text_key (u_id u)))"
    by (rule ext) (rule after_position_iff)
  then show ?thesis by (simp only: evidence_rows_def oldest_first_def by_age.page_def by_age.rest_def)
qed

text \<open>A position survives its token.\<close>

lemma parse_digits_dec [simp]: "parse_digits (dec n) = Some n"
  by (simp add: parse_digits_def dec_digits dec_value)

lemma dec_first: "\<exists>c cs. dec n = c # cs \<and> is_digit c"
  using dec_digits [of n] by (cases "dec n") auto

lemma digit_chars: "is_digit c \<Longrightarrow> c \<noteq> CHR ''+'' \<and> c \<noteq> CHR ''-'' \<and> c \<noteq> CHR '':''"
  by (auto simp: is_digit_def)

lemma parse_i64_dec: "n < 2 ^ 63 \<Longrightarrow> parse_i64 (dec n) = Some (int n)"
  using dec_first [of n] digit_chars parse_digits_dec [of n]
  by (auto simp: parse_i64_def Let_def simp del: parse_digits_dec)

lemma split_once_at:
  assumes "c \<notin> set a" shows "split_once c (a @ c # b) = Some (a, b)"
proof -
  have "dropWhile (\<lambda>x. x \<noteq> c) (a @ c # b) = c # b" "takeWhile (\<lambda>x. x \<noteq> c) (a @ c # b) = a"
    using assms by (induction a) auto
  then show ?thesis by (simp add: split_once_def)
qed

lemma parse_token:
  assumes "0 \<le> po_epoch p" and "po_epoch p < 2 ^ 63"
  shows "parse (token p) = Inr p"
proof -
  have t: "token p = dec (nat (po_epoch p)) @ CHR '':'' # po_id p" using assms(1) by (simp add: token_def dec_int_def)
  have "CHR '':'' \<notin> set (dec (nat (po_epoch p)))"
    using dec_digits [of "nat (po_epoch p)"] digit_chars by (auto simp: list_all_iff)
  moreover have "parse_i64 (dec (nat (po_epoch p))) = Some (po_epoch p)" using parse_i64_dec [of "nat (po_epoch p)"] assms by simp
  ultimately show ?thesis using assms(1) unfolding t by (simp add: parse_def split_once_at)
qed

lemma parse_i64_bounds: "parse_i64 s = Some n \<Longrightarrow> - (2 ^ 63) \<le> n \<and> n < 2 ^ 63"
  by (auto simp: parse_i64_def Let_def split: list.splits if_splits option.splits)

lemma split_once_cases: "split_once c s = Some (a, b) \<Longrightarrow> s = a @ c # b \<and> c \<notin> set a"
proof -
  assume *: "split_once c s = Some (a, b)"
  then obtain x where x: "dropWhile (\<lambda>x. x \<noteq> c) s = x # b" and a: "a = takeWhile (\<lambda>x. x \<noteq> c) s"
    by (auto simp: split_once_def split: list.splits)
  from x have "x = c" using hd_dropWhile [of "\<lambda>x. x \<noteq> c" s] by simp
  with x a show ?thesis using takeWhile_dropWhile_id [of "\<lambda>x. x \<noteq> c" s] by (auto dest: set_takeWhileD)
qed

lemma parse_accepts:
  assumes "s \<noteq> [] \<and> parse s = Inr q"
  shows "0 \<le> po_epoch q \<and> po_epoch q < 2 ^ 63 \<and>
     (\<exists>a. s = a @ CHR '':'' # po_id q \<and> CHR '':'' \<notin> set a \<and> parse_i64 a = Some (po_epoch q))"
proof -
  from assms obtain a b n where "split_once (CHR '':'') s = Some (a, b)" "parse_i64 a = Some n" "0 \<le> n"
      "q = \<lparr>po_epoch = n, po_id = b\<rparr>"
    by (auto simp: parse_def split: option.splits if_splits)
  with parse_i64_bounds [of a n] split_once_cases [of "CHR '':''" s a b] show ?thesis by auto
qed

definition evidence_step :: "env \<Rightarrow> db \<Rightarrow> evidence_request \<Rightarrow> key_identity_evidence list \<times> evidence_request option" where
  "evidence_step e d r = (case fst (run (key_identity_evidence r) e d) of
     Inl _ \<Rightarrow> ([], None)
   | Inr resp \<Rightarrow> (er_evidence resp, if er_next_page_token resp = [] then None
       else Some (r\<lparr>vr_page_token := er_next_page_token resp\<rparr>)))"

definition start_of :: "evidence_request \<Rightarrow> int \<times> string" where
  "start_of r = (case parse (vr_page_token r) of Inr p \<Rightarrow> (po_epoch p, text_key (po_id p)) | Inl _ \<Rightarrow> (0, []))"

lemma token_nonempty: "token p \<noteq> []"
  by (simp add: token_def)

lemma evidence_step_page:
  assumes "calm e" and "parse (vr_page_token r) = Inr p" and "nat (page_limit (vr_page_size r)) = n"
  shows "evidence_step e d r = (map evidence_of (by_age.page n (start_of r) (iam_user d)),
     if length (by_age.page n (start_of r) (iam_user d)) = n \<and> by_age.page n (start_of r) (iam_user d) \<noteq> []
     then Some (r\<lparr>vr_page_token := token (position_of (last (by_age.page n (start_of r) (iam_user d))))\<rparr>) else None)"
proof -
  let ?page = "by_age.page n (start_of r) (iam_user d)"
  have "evidence_rows p (page_limit (vr_page_size r)) d = ?page"
    using assms(2,3) by (simp add: evidence_rows_keyset start_of_def)
  then have "fst (run (key_identity_evidence r) e d) = Inr \<lparr>er_evidence = map evidence_of ?page,
      er_next_page_token = (if length ?page = n \<and> ?page \<noteq> [] then token (position_of (last ?page)) else [])\<rparr>"
    using assms by (simp add: key_identity_evidence_def evidence_page_def calm_run Let_def evidence_token_def)
  then show ?thesis by (simp add: evidence_step_def token_nonempty)
qed

lemma users_distinct: "store_ok d \<Longrightarrow> distinct (map oldest_key (iam_user d))"
  by (auto simp: store_ok_def users_ok_def distinct_map inj_on_def oldest_key_def)

section \<open>Properties\<close>

text \<open>C24. Following the tokens of \<open>ListCredentials\<close> ends, and gives the live credentials of the live
  person after the first token, each once, in id order, whatever the page size asked for.\<close>

theorem credential_listing_complete:
  assumes "calm e" and "store_ok d"
  shows "follow (listing_step e d) r cs \<longleftrightarrow>
     cs = map (info_of (lq_user_id r)) (sort_key (\<lambda>c. text_key (c_id c)) (filter (\<lambda>c.
       sql_eq (c_user_id c) (lq_user_id r) \<and> c_revoked_at c = None \<and>
       (\<exists>u \<in> set (iam_user d). sql_eq (u_id u) (c_user_id c) \<and> u_deleted_at u = None) \<and>
       text_key (lq_page_token r) < text_key (c_id c)) (iam_credential d)))"
proof -
  let ?x = "lq_user_id r" and ?n = "nat (page_limit (lq_page_size r))"
  have "follow (listing_step e d) r cs \<longleftrightarrow> cs = map (info_of ?x) (by_id.rest (lq_page_token r) (listed ?x d))"
    by (rule by_id.follow_total [where good = "\<lambda>q. lq_user_id q = ?x \<and> lq_page_size q = lq_page_size r" and at = lq_page_token
          and n = ?n and go = "\<lambda>q c. q\<lparr>lq_page_token := c_id c\<rparr>", OF listed_distinct [OF assms(2)] page_limit_pos])
       (simp_all add: listing_step_page [OF assms(1)])
  then show ?thesis by (simp add: by_id.rest_def listed_filter [OF assms(2)] conj_assoc)
qed

theorem credential_listing_complete_witness:
  "follow (listing_step calm_env sample_db) \<lparr>lq_user_id = alice, lq_page_size = 1, lq_page_token = []\<rparr>
     [info_of alice laptop]"
  using credential_listing_complete [OF calm_calm_env store_ok_sample_db,
      of "\<lparr>lq_user_id = alice, lq_page_size = 1, lq_page_token = []\<rparr>" "[info_of alice laptop]"]
  by (simp add: sample_defs)

text \<open>C25. Following the tokens of \<open>ListKeyIdentityEvidence\<close> ends, and gives every person ever created,
  oldest first, each once: the tokens carry the position through text and back.\<close>

theorem evidence_listing_complete:
  assumes "calm e" and "store_ok d" and "vr_page_token r = []" and "\<forall>u \<in> set (iam_user d). u_created_at u < 2 ^ 63"
  shows "follow (evidence_step e d) r vs \<longleftrightarrow> vs = map evidence_of (oldest_first (iam_user d))"
proof -
  let ?n = "nat (page_limit (vr_page_size r))"
  let ?good = "\<lambda>q. (\<exists>p. parse (vr_page_token q) = Inr p) \<and> vr_page_size q = vr_page_size r"
  have step: "evidence_step e d q = (map evidence_of (by_age.page ?n (start_of q) (iam_user d)),
     if length (by_age.page ?n (start_of q) (iam_user d)) = ?n \<and> by_age.page ?n (start_of q) (iam_user d) \<noteq> []
     then Some (q\<lparr>vr_page_token := token (position_of (last (by_age.page ?n (start_of q) (iam_user d))))\<rparr>) else None)"
    if "?good q" for q
    using that evidence_step_page [OF assms(1)] by auto
  have go: "?good (q\<lparr>vr_page_token := token (position_of u)\<rparr>) \<and>
      start_of (q\<lparr>vr_page_token := token (position_of u)\<rparr>) = (int (u_created_at u), text_key (u_id u))"
    if "?good q" "u \<in> set (iam_user d)" for q u
  proof -
    have "int (u_created_at u) < 2 ^ 63" using assms(4) that(2) by (simp add: of_nat_less_iff [symmetric])
    then have "parse (token (position_of u)) = Inr (position_of u)" by (intro parse_token) (simp_all add: position_of_def)
    with that(1) show ?thesis by (simp add: start_of_def position_of_def)
  qed
  have "?good r" using assms(3) by (simp add: parse_def)
  from by_age.follow_total [where good = ?good and at = start_of and n = ?n and go = "\<lambda>q u. q\<lparr>vr_page_token := token (position_of u)\<rparr>",
      OF users_distinct [OF assms(2)] page_limit_pos step go this]
  have "follow (evidence_step e d) r vs \<longleftrightarrow> vs = map evidence_of (by_age.rest (start_of r) (iam_user d))" .
  moreover have "by_age.rest (start_of r) (iam_user d) = oldest_first (iam_user d)"
    using assms(3) by (simp add: by_age.rest_def oldest_first_def start_of_def parse_def)
  ultimately show ?thesis by simp
qed

theorem evidence_listing_complete_witness:
  "follow (evidence_step calm_env sample_db) \<lparr>vr_page_size = 1, vr_page_token = []\<rparr> [evidence_of alice_row, evidence_of bob_row]"
  using evidence_listing_complete [OF calm_calm_env store_ok_sample_db,
      of "\<lparr>vr_page_size = 1, vr_page_token = []\<rparr>" "[evidence_of alice_row, evidence_of bob_row]"]
  by (simp add: sample_defs oldest_first_def oldest_key_def)

text \<open>C33. What a page token says, decided for every text. A position with a time that fits 64 bits is read back from
  its own token. A text is accepted exactly when it is empty, which starts before the first row, or when what stands
  before its first colon is a number that fits 64 bits and is not negative; that number and everything after the colon are
  the position. Every other text is answered INVALID_ARGUMENT.\<close>

theorem page_token_decides:
  "(0 \<le> po_epoch p \<and> po_epoch p < 2 ^ 63 \<longrightarrow> parse (token p) = Inr p) \<and>
   (parse s = Inr q \<longleftrightarrow> s = [] \<and> q = \<lparr>po_epoch = -1, po_id = []\<rparr> \<or>
      (\<exists>a. s = a @ CHR '':'' # po_id q \<and> CHR '':'' \<notin> set a \<and> parse_i64 a = Some (po_epoch q) \<and> 0 \<le> po_epoch q)) \<and>
   (\<forall>err. parse s = Inl err \<longrightarrow> err = Status INVALID_ARGUMENT ''page_token is not one this service issued'')"
proof (intro conjI)
  show "0 \<le> po_epoch p \<and> po_epoch p < 2 ^ 63 \<longrightarrow> parse (token p) = Inr p" using parse_token by blast
  have "parse (a @ CHR '':'' # po_id q) = Inr q" if "CHR '':'' \<notin> set a" "parse_i64 a = Some (po_epoch q)" "0 \<le> po_epoch q" for a
    using that by (simp add: parse_def split_once_at)
  with parse_accepts [of s q] show "parse s = Inr q \<longleftrightarrow> s = [] \<and> q = \<lparr>po_epoch = -1, po_id = []\<rparr> \<or>
      (\<exists>a. s = a @ CHR '':'' # po_id q \<and> CHR '':'' \<notin> set a \<and> parse_i64 a = Some (po_epoch q) \<and> 0 \<le> po_epoch q)"
    by (cases "s = []") (auto simp: parse_def [of "[]"])
  show "\<forall>err. parse s = Inl err \<longrightarrow> err = Status INVALID_ARGUMENT ''page_token is not one this service issued''"
    by (auto simp: parse_def split: option.splits)
qed

theorem page_token_decides_witness:
  "parse (token \<lparr>po_epoch = 1700000000, po_id = ''a:b''\<rparr>) = Inr \<lparr>po_epoch = 1700000000, po_id = ''a:b''\<rparr> \<and>
   \<not> is_ok (parse ''12'')"
proof -
  obtain p :: position where p: "p = \<lparr>po_epoch = 1700000000, po_id = ''a:b''\<rparr>" by blast
  have "parse (token p) = Inr p" using page_token_decides [of p "[]" p] by (simp add: p)
  moreover have "parse ''12'' \<noteq> Inr q" for q using page_token_decides [of p "''12''" q] by (auto simp: Cons_eq_append_conv)
  ultimately show ?thesis unfolding p by (cases "parse ''12''") auto
qed

end
