(* ===== verification/Marker.thy ===== *)
theory Marker
  imports KeyIdentity Alone Sample
begin

text \<open>
  What the key-identity marker promises: it is recorded once, on an empty store or on evidence that
  is exactly the oldest rows, it is never replaced, and every later comparison is against it.
\<close>

section \<open>The marker stays\<close>

lemma stable_marker: "hist.stable (\<lambda>d. iam_key_identity d = Some m)"
  by (auto simp: hist.stable_def step_ok_def evolves_def)

lemma keeps_marker_is:
  "hist.keeps (\<lambda>d. iam_key_identity d = Some m) (marker l) (\<lambda>x _. x = Some m)"
  unfolding marker_def by (rule hist.keeps_select_lock [OF stable_marker]) simp

lemma keeps_key_identity_settled:
  "hist.keeps (\<lambda>d. iam_key_identity d = Some m) (key_identity fp v) (\<lambda>out _. out = compared_with m fp v)"
proof -
  have pre: "hist.keeps P (failing_call (presented fp v)) (\<lambda>_. P)" for P
    unfolding presented_cases by (rule hist.keeps_failing_call) (auto intro!: hist.keeps_ok hist.keeps_fail)
  show ?thesis unfolding key_identity_def Let_def
    by (intro hist.keeps_and_then [OF pre] hist.keeps_and_then [OF hist.keeps_acquire]
          hist.keeps_and_then [OF hist.keeps_failing_call [OF keeps_marker_is]] hist.keeps_and_then [OF hist.keeps_emit] hist.keeps_ok)
       auto
qed

section \<open>Recording\<close>

definition marker_of :: "presented_marker \<Rightarrow> marker_row" where
  "marker_of p = \<lparr>k_version = pr_version p, k_fingerprint = pr_fingerprint p, k_key = pr_key p\<rparr>"

text \<open>Recorded on a store without one, if the predicate holds; else what the stored one says.\<close>

definition record_result :: "(db \<Rightarrow> bool) \<Rightarrow> presented_marker \<Rightarrow> db \<Rightarrow> key_identity_outcome \<Rightarrow> db \<Rightarrow> bool" where
  "record_result P p d out d' \<longleftrightarrow> (case iam_key_identity d of
     None \<Rightarrow> P d \<and> out = Recorded \<and> d' = d\<lparr>iam_key_identity := Some (marker_of p)\<rparr>
   | Some m \<Rightarrow> d' = d \<and>
       (if pr_key p = [] \<or> pr_key p \<noteq> k_key m then out = compared_with m (pr_fingerprint p) (pr_version p)
        else out = Recorded \<and> k_version m = pr_version p \<and> k_fingerprint m = pr_fingerprint p))"

lemma inner_stmt_try:
  "inner (\<lambda>x. x = d) (stmt_try s) (\<lambda>y x. y = Inl EngineError \<or> (\<exists>t. (case y of
     Inl err \<Rightarrow> s t d = Inl err \<and> x = d | Inr n \<Rightarrow> s t d = Inr (n, x))))"
  by (auto simp: inner_def stmt_try_def exec_def Let_def split: fault.splits sum.splits prod.splits)

lemma insert_marker_cases:
  assumes "(case y of Inl err \<Rightarrow> insert_marker_stm P p t d = Inl err \<and> x = d | Inr n \<Rightarrow> insert_marker_stm P p t d = Inr (n, x))"
  shows "(y = Inr 1 \<and> P d \<and> iam_key_identity d = None \<and> x = d\<lparr>iam_key_identity := Some (marker_of p)\<rparr>) \<or>
     (x = d \<and> (y = Inr 0 \<and> \<not> P d \<or> (\<exists>k. y = Inl (UniqueViolation k) \<and> P d \<and> iam_key_identity d \<noteq> None)))"
  using assms by (auto simp: insert_marker_stm_def ins_marker_def marker_of_def split: sum.splits if_splits option.splits)

lemma inner_replayed_or_compared:
  assumes "iam_key_identity d = Some m"
  shows "inner (\<lambda>x. x = d) (replayed_or_compared m p) (\<lambda>out x. x = d \<and> record_result P p d out d)"
  using assms unfolding replayed_or_compared_def by (auto intro!: inner_ok inner_fail simp: record_result_def)

lemma inner_stored:
  "inner (\<lambda>x. x = d) (against_the_stored_marker p) (\<lambda>y x. x = d \<and> (case y of
     None \<Rightarrow> iam_key_identity d = None | Some out \<Rightarrow> record_result P p d out d))"
  unfolding against_the_stored_marker_def marker_def
proof (rule inner_then [OF inner_select_lock [where Q = "\<lambda>m x. m = iam_key_identity d \<and> x = d"]])
  fix m
  show "inner (\<lambda>x. m = iam_key_identity d \<and> x = d) (case m of
       Some stored \<Rightarrow> and_then (replayed_or_compared stored p) (\<lambda>out. ok (Some out)) | None \<Rightarrow> ok None)
     (\<lambda>y x. x = d \<and> (case y of None \<Rightarrow> iam_key_identity d = None | Some out \<Rightarrow> record_result P p d out d))"
  proof (rule inner_pure)
    assume m: "m = iam_key_identity d"
    show "inner (\<lambda>x. x = d) (case m of
         Some stored \<Rightarrow> and_then (replayed_or_compared stored p) (\<lambda>out. ok (Some out)) | None \<Rightarrow> ok None)
       (\<lambda>y x. x = d \<and> (case y of None \<Rightarrow> iam_key_identity d = None | Some out \<Rightarrow> record_result P p d out d))"
    proof (cases m)
      case None
      with m show ?thesis by (auto intro: inner_ok)
    next
      case (Some k)
      with m have "iam_key_identity d = Some k" by simp
      then have "inner (\<lambda>x. x = d) (and_then (replayed_or_compared k p) (\<lambda>out. ok (Some out)))
         (\<lambda>y x. x = d \<and> (case y of None \<Rightarrow> iam_key_identity d = None | Some out \<Rightarrow> record_result P p d out d))"
        by (rule inner_then [OF inner_replayed_or_compared]) (rule inner_ok, simp)
      with Some show ?thesis by simp
    qed
  qed
qed simp

lemma inner_outcome:
  "inner (\<lambda>x. y = Inl EngineError \<or> (\<exists>t. (case y of
       Inl err \<Rightarrow> insert_marker_stm P p t d = Inl err \<and> x = d | Inr n \<Rightarrow> insert_marker_stm P p t d = Inr (n, x))))
     (outcome_of y p) (\<lambda>z x. \<forall>out. z = Some out \<longrightarrow> record_result P p d out x)"
proof -
  have stored: "inner (\<lambda>x. x = d) (against_the_stored_marker p) (\<lambda>z x. \<forall>out. z = Some out \<longrightarrow> record_result P p d out x)"
    using inner_stored [of d p P] unfolding inner_def by (fastforce split: option.splits)
  consider (engine) "y = Inl EngineError" | (unique) k where "y = Inl (UniqueViolation k)" | (one) "y = Inr 1" | (rows) n where "y = Inr n" "n \<noteq> 1"
    by (cases y) (auto intro: sql_error.exhaust)
  then show ?thesis
  proof cases
    case engine
    then show ?thesis by (simp add: outcome_of_def inner_fail)
  next
    case unique
    then show ?thesis by (auto simp: outcome_of_def intro!: inner_weaken [OF stored])
  next
    case one
    then show ?thesis using insert_marker_cases [where y = "Inr 1" and P = P and p = p and d = d]
      by (fastforce simp: outcome_of_def record_result_def intro!: inner_ok)
  next
    case rows
    have "x = d" if "insert_marker_stm P p t d = Inr (n, x)" for t x
      using insert_marker_cases [where y = "Inr n" and x = x and t = t] that rows(2) by auto
    with rows show ?thesis by (auto simp: outcome_of_def intro!: inner_weaken [OF stored])
  qed
qed

lemma atomic_commit_ok:
  assumes "\<And>d. P d \<Longrightarrow> Q x d" shows "atomic P (and_then commit (\<lambda>_. ok x)) Q"
  using assms by (auto simp: atomic_def and_then_def commit_def ok_def Let_def split: fault.splits)

lemma atomic_record:
  "atomic (\<lambda>x. x = d) (and_then (stmt_try (insert_marker_stm P p)) (\<lambda>attempt.
     and_then (outcome_of attempt p) (\<lambda>out. case out of None \<Rightarrow> fail s | Some x \<Rightarrow> and_then commit (\<lambda>_. ok x))))
   (record_result P p d)"
  by (rule atomic_then [OF inner_stmt_try], rule atomic_then [OF inner_outcome])
     (auto intro!: atomic_fail atomic_commit_ok split: option.split)

text \<open>The two recordings: SetKeyIdentity on an empty store, AdoptKeyIdentity on the oldest rows.\<close>

lemma failing_call_committed:
  "failing_call m e w = (r, w') \<Longrightarrow> \<exists>w1. m e w = (r, w1) \<and> committed w' = committed w1 \<and> tx w' = tx w1"
  by (auto simp: failing_call_def split: sum.splits prod.splits)

definition start :: "db \<Rightarrow> world" where
  "start d = \<lparr>committed = d, tx = None, steps = 0, events = []\<rparr>"

definition recording_body :: "(db \<Rightarrow> bool) \<Rightarrow> presented_marker \<Rightarrow> status \<Rightarrow> key_identity_outcome act" where
  "recording_body P p s = and_then acquire (\<lambda>_. and_then (begin_tx Default) (\<lambda>_.
     and_then (stmt_try (insert_marker_stm P p)) (\<lambda>attempt. and_then (outcome_of attempt p) (\<lambda>out.
     case out of None \<Rightarrow> fail s | Some x \<Rightarrow> and_then commit (\<lambda>_. ok x)))))"

lemma recording:
  assumes "alone e"
    and m: "b \<Longrightarrow> m e (start d) = recording_body P p s e (start d)" "\<not> b \<Longrightarrow> \<exists>s'. m e (start d) = (Inl s', start d)"
    and "run (and_then (failing_call m) (\<lambda>out. and_then (emit (Finished (recorded_rows out))) (\<lambda>_. ok out))) e d = (res, d', ev)"
  shows "(\<not> is_ok res \<and> d' = d) \<or> b \<and> (\<exists>out. record_result P p d out d' \<and> (\<forall>y. res = Inr y \<longrightarrow> y = out))"
proof -
  obtain r w1 where f: "failing_call m e (start d) = (r, w1)" by fastforce
  then obtain w2 where w2: "m e (start d) = (r, w2)" "committed w1 = committed w2" using failing_call_committed by blast
  have res: "d' = committed w1" "\<And>y. res = Inr y \<longleftrightarrow> r = Inr y" "is_ok res = is_ok r"
    using assms(4) f by (auto simp: start_def run_def and_then_def emit_def ok_def split: sum.splits)
  show ?thesis
  proof (cases b)
    case True
    with m(1) w2 have "recording_body P p s e (start d) = (r, w2)" by simp
    from atomic_request [OF assms(1) _ _ this [unfolded recording_body_def], of "record_result P p d"]
      atomic_record res w2(2) True show ?thesis by (simp add: start_def)
  next
    case False
    with m(2) w2 res show ?thesis by (auto simp: start_def)
  qed
qed

lemma presented_then:
  "well_presented fp v \<Longrightarrow> and_then (presented fp v) f e w = f () e w"
  "\<not> well_presented fp v \<Longrightarrow> \<exists>s. and_then (presented fp v) f e w = (Inl s, w)"
  by (simp_all add: presented_cases and_then_def ok_def fail_def)

definition set_marker :: "key_identity_request \<Rightarrow> presented_marker" where
  "set_marker r = \<lparr>pr_fingerprint = kq_fingerprint r, pr_version = kq_version r, pr_key = key_of (kq_idempotency r)\<rparr>"

lemma set_key_identity_result:
  assumes "alone e" and "run (store_key_identity r) e d = (res, d', ev)"
  shows "(\<not> is_ok res \<and> d' = d) \<or> well_presented (kq_fingerprint r) (kq_version r) \<and>
     (\<exists>out. record_result (\<lambda>d. iam_user d = []) (set_marker r) d out d' \<and> (\<forall>y. res = Inr y \<longrightarrow> y = out))"
  by (rule recording [where s = holds_rows, OF assms(1) _ _ assms(2) [unfolded store_key_identity_def]])
     (simp_all add: record_key_identity_def presented_then Let_def set_marker_def recording_body_def)

definition adopt_presents :: "adopt_request \<Rightarrow> presented_marker" where
  "adopt_presents r = \<lparr>pr_fingerprint = oq_fingerprint r, pr_version = oq_version r, pr_key = key_of (oq_idempotency r)\<rparr>"

definition evidence_ok :: "string list \<Rightarrow> bool" where
  "evidence_ok ids \<longleftrightarrow> ids \<noteq> [] \<and> length ids \<le> 64 \<and> distinct (map text_key ids)"

lemma same_row_key: "same_row = text_key"
  by (rule ext) (simp add: same_row_def text_key_def)

lemma evidence_then:
  "evidence_ok ids \<Longrightarrow> and_then (evidence ids) f e w = f () e w"
  "\<not> evidence_ok ids \<Longrightarrow> \<exists>s. and_then (evidence ids) f e w = (Inl s, w)"
  by (auto simp: evidence_def evidence_ok_def MAX_EVIDENCE_def same_row_key and_then_def ok_def fail_def)

lemma adopt_result:
  assumes "alone e" and "run (adopt_marker r) e d = (res, d', ev)"
  shows "(\<not> is_ok res \<and> d' = d) \<or> (well_presented (oq_fingerprint r) (oq_version r) \<and> evidence_ok (oq_evidence_user_ids r)) \<and>
     (\<exists>out. record_result (are_oldest (oq_evidence_user_ids r)) (adopt_presents r) d out d' \<and> (\<forall>y. res = Inr y \<longrightarrow> y = out))"
proof (rule recording [where s = not_oldest, OF assms(1) _ _ assms(2) [unfolded adopt_marker_def]])
  assume "\<not> (well_presented (oq_fingerprint r) (oq_version r) \<and> evidence_ok (oq_evidence_user_ids r))"
  then show "\<exists>s'. record_adoption r e (start d) = (Inl s', start d)"
    by (cases "well_presented (oq_fingerprint r) (oq_version r)")
       (simp_all add: record_adoption_def presented_then evidence_then)
qed (simp add: record_adoption_def presented_then evidence_then Let_def adopt_presents_def recording_body_def)

section \<open>Exactly the oldest rows\<close>

text \<open>The count of the statement equals the number of ids exactly when the ids name the N oldest rows.\<close>

lemma are_oldest_iff:
  assumes "store_ok d" and "evidence_ok ids"
  shows "are_oldest ids d \<longleftrightarrow> length ids \<le> length (iam_user d) \<and>
     text_key ` set ids = (\<lambda>u. text_key (u_id u)) ` set (take (length ids) (oldest_first (iam_user d)))"
proof -
  let ?k = "\<lambda>u. text_key (u_id u)" and ?N = "length ids"
  let ?top = "take ?N (oldest_first (iam_user d))"
  have "distinct (map ?k (iam_user d))" using assms(1) by (simp add: store_ok_def users_ok_def)
  then have dist: "distinct (map ?k ?top)"
    unfolding take_map [symmetric] by (intro distinct_take) (auto simp: oldest_first_def distinct_map inj_on_def)
  have len: "length ?top = min ?N (length (iam_user d))" by (simp add: oldest_first_def)
  have P: "list_ex (\<lambda>x. ?k u = text_key x) ids \<longleftrightarrow> ?k u \<in> text_key ` set ids" for u by (auto simp: list_ex_iff)
  have card: "card (text_key ` set ids) = ?N" using assms(2) by (metis distinct_card evidence_ok_def length_map set_map)
  have cardtop: "card (?k ` set ?top) = length ?top" using dist by (metis distinct_card length_map set_map)
  have "are_oldest ids d \<longleftrightarrow> length (filter (\<lambda>u. ?k u \<in> text_key ` set ids) ?top) = ?N"
    by (simp add: are_oldest_def cnt_def P)
  also have "\<dots> \<longleftrightarrow> length ?top = ?N \<and> ?k ` set ?top \<subseteq> text_key ` set ids"
  proof -
    have "length (filter Q ?top) = ?N \<longleftrightarrow> length ?top = ?N \<and> (\<forall>u \<in> set ?top. Q u)" for Q
    proof
      assume "length (filter Q ?top) = ?N"
      then have "length (filter Q ?top) = length ?top" using len length_filter_le [of Q ?top] by linarith
      then have "\<forall>u \<in> set ?top. Q u" using length_filter_less [of _ ?top Q] by force
      then show "length ?top = ?N \<and> (\<forall>u \<in> set ?top. Q u)"
        using \<open>length (filter Q ?top) = ?N\<close> \<open>length (filter Q ?top) = length ?top\<close> by simp
    qed (metis filter_True)
    then show ?thesis by (auto simp: image_subset_iff)
  qed
  also have "\<dots> \<longleftrightarrow> ?N \<le> length (iam_user d) \<and> text_key ` set ids = ?k ` set ?top"
  proof -
    have "text_key ` set ids = ?k ` set ?top" if "?k ` set ?top \<subseteq> text_key ` set ids" "length ?top = ?N"
      using card_subset_eq [OF _ that(1)] card cardtop that(2) by simp
    moreover have "length ?top = ?N \<longleftrightarrow> ?N \<le> length (iam_user d)" using len by auto
    ultimately show ?thesis by auto
  qed
  finally show ?thesis .
qed

section \<open>Properties\<close>

text \<open>C27. The marker recorded first decides every later comparison: whatever happened since and
  whoever else is at work, \<open>GetKeyIdentity\<close> answers by it, and never that there is none.\<close>

theorem key_identity_settled:
  assumes "store_ok d" and "iam_key_identity d = Some m" and "step_ok d d'" and "hist.relies e"
    and "run (key_identity fp v) e d' = (Inr out, d'', ev)"
  shows "out = (if k_version m \<noteq> v then DerivationSkew else if k_fingerprint m = fp then Match else Mismatch)"
proof -
  have "iam_key_identity d' = Some m" using stableD [OF stable_marker assms(3,1,2)] .
  moreover have "store_ok d'" using assms(1,3) by (simp add: step_ok_def)
  ultimately have "out = compared_with m fp v"
    using hist.starts_answer [OF hist.starts_keeps [OF keeps_key_identity_settled] assms(4) _ _ assms(5)] by blast
  then show ?thesis by (simp add: compared_with_def)
qed

definition sample_marker :: marker_row where
  "sample_marker = \<lparr>k_version = 1, k_fingerprint = [9], k_key = ''key-1''\<rparr>"

lemma store_ok_marked: "store_ok (sample_db\<lparr>iam_key_identity := Some sample_marker\<rparr>)"
  using store_ok_sample_db by (simp add: store_ok_def marker_ok_def sample_marker_def)

theorem key_identity_settled_witness:
  "fst (run (key_identity [8] 1) calm_env (sample_db\<lparr>iam_key_identity := Some sample_marker\<rparr>)) = Inr Mismatch"
proof -
  let ?d = "sample_db\<lparr>iam_key_identity := Some sample_marker\<rparr>"
  have "is_ok (fst (run (key_identity [8] 1) calm_env ?d))"
    by (simp add: key_identity_def presented_cases well_presented_def marker_def locked_if_def calm_run calm_calm_env Let_def)
  then obtain out d'' ev where r: "run (key_identity [8] 1) calm_env ?d = (Inr out, d'', ev)" by (rule run_answers)
  have "hist.relies calm_env" using alone_calm [OF calm_calm_env] by (simp add: alone_def hist.relies_def hist.R_refl)
  from key_identity_settled [OF store_ok_marked _ hist.R_refl this r, of sample_marker] r show ?thesis
    by (simp add: sample_marker_def)
qed


definition sample_key :: key_identity_request where
  "sample_key = \<lparr>kq_fingerprint = [9], kq_version = 1, kq_idempotency = Some ''key-1''\<rparr>"



definition sample_adoption :: adopt_request where
  "sample_adoption = \<lparr>oq_fingerprint = [9], oq_version = 1, oq_evidence_user_ids = [alice], oq_idempotency = None\<rparr>"


end
