(* ===== verification/Declaration.thy ===== *)
theory Declaration
  imports Sync Bootstrap
begin

text \<open>
  What one \<open>SyncTeams\<close> leaves behind: the teams that are live are the declared ones, the members of
  each are the declared people who exist, everybody awaited is a declared administrator who does
  not, and nothing else moved. All of it is published together or not at all.
\<close>

section \<open>A valid declaration\<close>

definition declared_of :: "declared_team \<Rightarrow> declared" where
  "declared_of t = \<lparr>de_id = TEAM_PREFIX @ dt_name t, de_name = dt_name t, de_members = dt_member_user_ids t\<rparr>"

definition valid_team :: "declared_team \<Rightarrow> bool" where
  "valid_team t \<longleftrightarrow> name_ok (dt_name t) \<and> distinct (dt_member_user_ids t) \<and>
     (\<forall>m \<in> set (dt_member_user_ids t). canonical_user_id m)"

lemma validate_members_ok:
  "validate_members name j seen ms = Inr u \<longleftrightarrow> distinct ms \<and> set ms \<inter> seen = {} \<and> (\<forall>m \<in> set ms. canonical_user_id m)"
  by (induction ms arbitrary: j seen) auto

lemma validate_from_ok:
  "validate_from i names ts = Inr ds \<longleftrightarrow> ds = map declared_of ts \<and> (\<forall>t \<in> set ts. valid_team t) \<and>
     distinct (map dt_name ts) \<and> dt_name ` set ts \<inter> names = {}"
proof (induction ts arbitrary: i names ds)
  case Nil
  then show ?case by auto
next
  case (Cons t ts)
  have "validate_from i names (t # ts) = Inr ds \<longleftrightarrow> name_ok (dt_name t) \<and> dt_name t \<notin> names \<and>
      validate_members (dt_name t) 0 {} (dt_member_user_ids t) = Inr () \<and>
      (\<exists>out. validate_from (i + 1) (insert (dt_name t) names) ts = Inr out \<and> ds = declared_of t # out)"
    by (auto simp: declared_of_def split: sum.splits)
  also have "\<dots> \<longleftrightarrow> ds = map declared_of (t # ts) \<and> (\<forall>t \<in> set (t # ts). valid_team t) \<and>
     distinct (map dt_name (t # ts)) \<and> dt_name ` set (t # ts) \<inter> names = {}"
    unfolding Cons.IH validate_members_ok by (auto simp: valid_team_def)
  finally show ?case .
qed

lemma validate_ok:
  "validate ts = Inr ds \<longleftrightarrow> ds = map declared_of ts \<and> (\<forall>t \<in> set ts. valid_team t) \<and> distinct (map dt_name ts)"
  by (simp add: validate_def validate_from_ok)

text \<open>Declared ids are their own comparison keys.\<close>

definition own_key :: "string \<Rightarrow> bool" where
  "own_key s \<longleftrightarrow> text_key s = s"

lemma name_char_fixed: "is_lower c \<or> is_digit c \<or> c = CHR ''-'' \<Longrightarrow> lower_char c = c \<and> c \<noteq> CHR '' ''"
  by (auto simp: is_lower_def is_digit_def lower_char_def Let_def)

lemma team_id_key:
  assumes "name_ok s" shows "own_key (TEAM_PREFIX @ s)"
proof -
  from assms have s: "s \<noteq> []" "\<And>c. c \<in> set s \<Longrightarrow> is_lower c \<or> is_digit c \<or> c = CHR ''-''"
    by (auto simp: name_ok_def list_all_iff split: list.splits)
  then have "last s \<noteq> CHR '' ''" using name_char_fixed last_in_set by blast
  then have "trim_end (TEAM_PREFIX @ s) = TEAM_PREFIX @ s" using s(1) by (intro trim_end_fixed) auto
  moreover have "map lower_char (TEAM_PREFIX @ s) = TEAM_PREFIX @ s"
    using s(2) name_char_fixed by (simp add: TEAM_PREFIX_def lower_char_def map_idI)
  ultimately show ?thesis by (simp add: own_key_def text_key_def)
qed

section \<open>The team table\<close>

definition team_ids :: "db \<Rightarrow> string set" where
  "team_ids d = t_id ` set (iam_team d)"

definition live_teams :: "db \<Rightarrow> string set" where
  "live_teams d = t_id ` {t \<in> set (iam_team d). t_deleted_at t = None}"

lemma live_teams_alt: "live_teams d = set (map t_id (filter (\<lambda>t. t_deleted_at t = None) (iam_team d)))"
  by (auto simp: live_teams_def)

text \<open>Only the team table moved, its ids are plain, and these teams are stored and live.\<close>

definition teams_are :: "db \<Rightarrow> string set \<Rightarrow> string set \<Rightarrow> db \<Rightarrow> bool" where
  "teams_are d T L x \<longleftrightarrow> x\<lparr>iam_team := []\<rparr> = d\<lparr>iam_team := []\<rparr> \<and> (\<forall>t \<in> team_ids x. own_key t) \<and> team_ids x = T \<and> live_teams x = L"

lemma insert_team_effect:
  assumes "insert_team_stm t s x = Inr (n, y)" and "teams_are d T L x" and "own_key (de_id t)"
  shows "teams_are d (insert (de_id t) T) (insert (de_id t) L) y"
proof -
  let ?t = "\<lparr>t_id = de_id t, t_version = 1, t_name = de_name t, t_created_by = ''system'', t_updated_by = ''system'',
      t_deleted_at = None\<rparr>"
  have y: "y = x\<lparr>iam_team := iam_team x @ [?t]\<rparr>"
    using assms(1) by (auto simp: insert_team_stm_def ins_team_def split: if_splits)
  have "live_teams y = insert (de_id t) (live_teams x)" "team_ids y = insert (de_id t) (team_ids x)"
    by (simp_all add: live_teams_alt team_ids_def y)
  with assms(2,3) show ?thesis by (simp add: teams_are_def y)
qed

lemma mark_team_effect:
  assumes "mark_team_stm z b s x = Inr (n, y)" and "teams_are d T L x" and "own_key z"
  shows "teams_are d T (if b then L - {z} else L \<union> ({z} \<inter> T)) y"
proof -
  let ?P = "\<lambda>t. sql_eq (t_id t) z"
  let ?f = "\<lambda>t. t\<lparr>t_deleted_at := (if b then Some s else None), t_version := t_version t + 1\<rparr>"
  have y: "y = x\<lparr>iam_team := upd ?P ?f (iam_team x)\<rparr>"
    using assms(1) by (auto simp: mark_team_stm_def Let_def split: if_splits)
  have P: "?P t \<longleftrightarrow> t_id t = z" if "t \<in> set (iam_team x)" for t
    using that assms(2,3) by (auto simp: teams_are_def team_ids_def own_key_def)
  have ids: "team_ids y = team_ids x" unfolding team_ids_def y by (simp add: image_upd)
  have live: "live_teams y = (if b then live_teams x - {z} else live_teams x \<union> ({z} \<inter> team_ids x))"
  proof -
    have y': "u \<in> live_teams y \<longleftrightarrow> (\<exists>t \<in> set (iam_team x). t_id t = u \<and> (if t_id t = z then \<not> b else t_deleted_at t = None))" for u
      unfolding live_teams_def y using P by (auto simp: set_upd image_iff split: if_splits)
    have x: "u \<in> live_teams x \<longleftrightarrow> (\<exists>t \<in> set (iam_team x). t_id t = u \<and> t_deleted_at t = None)"
        "u \<in> team_ids x \<longleftrightarrow> (\<exists>t \<in> set (iam_team x). t_id t = u)" for u
      by (auto simp: live_teams_def team_ids_def)
    have "u \<in> live_teams y \<longleftrightarrow> u \<in> (if b then live_teams x - {z} else live_teams x \<union> ({z} \<inter> team_ids x))" for u
      unfolding y' by (cases b; cases "u = z") (auto simp: x)
    then show ?thesis by blast
  qed
  from assms(2) ids live show ?thesis by (simp add: teams_are_def y)
qed

text \<open>The two loops over the team table.\<close>

lemma inner_stmt_map:
  assumes "\<And>t d x d'. P d \<Longrightarrow> s t d = Inr (x, d') \<Longrightarrow> Q x d'"
  shows "inner P (stmt_map h s) Q"
  unfolding inner_def
proof (intro allI impI conjI)
  fix e w
  assume *: "alone e" "tx w \<noteq> None" "P (cur w)"
  then show "committed (snd (stmt_map h s e w)) = committed w"
    by (simp add: stmt_map_def exec_def Let_def split: fault.splits sum.splits prod.splits)
  fix x w'
  assume "stmt_map h s e w = (Inr x, w')"
  with * assms show "tx w' \<noteq> None" and "Q x (cur w')" by (auto dest!: stmt_map_Inr)
qed

lemma inner_write_declared:
  assumes "\<And>t. t \<in> set ds \<Longrightarrow> own_key (de_id t)"
    and "\<And>t. t \<in> set ds \<Longrightarrow> map_of stored (de_id t) = Some False \<Longrightarrow> de_id t \<in> L"
    and "\<And>t. t \<in> set ds \<Longrightarrow> map_of stored (de_id t) = Some True \<Longrightarrow> de_id t \<in> T" and "L \<subseteq> T"
  shows "inner (teams_are d T L) (write_declared stored ds a) (\<lambda>_. teams_are d (T \<union> de_id ` set ds) (L \<union> de_id ` set ds))"
  using assms
proof (induction ds arbitrary: a T L)
  case Nil
  then show ?case by (simp add: inner_ok)
next
  case (Cons t ts)
  let ?T = "insert (de_id t) T" and ?L = "insert (de_id t) L"
  have "inner (teams_are d T L) (case map_of stored (de_id t) of
         None \<Rightarrow> and_then (insert_team t) (\<lambda>_.
           ok (a\<lparr>ta_resp := (ta_resp a)\<lparr>sr_teams_inserted := sr_teams_inserted (ta_resp a) + 1\<rparr>\<rparr>))
       | Some True \<Rightarrow> and_then (stmt (mark_team_stm (de_id t) False)) (\<lambda>_.
           ok (a\<lparr>ta_resp := (ta_resp a)\<lparr>sr_teams_reactivated := sr_teams_reactivated (ta_resp a) + 1\<rparr>,
                 ta_reactivated := ta_reactivated a @ [de_id t]\<rparr>))
       | Some False \<Rightarrow> ok a) (\<lambda>_. teams_are d ?T ?L)"
  proof (cases "map_of stored (de_id t)")
    case None
    have "inner (teams_are d T L) (insert_team t) (\<lambda>_. teams_are d ?T ?L)"
      unfolding insert_team_def using insert_team_effect Cons.prems(1) by (intro inner_stmt_map) auto
    with None show ?thesis by (auto intro: inner_then inner_ok)
  next
    case (Some b)
    show ?thesis
    proof (cases b)
      case True
      then have T: "de_id t \<in> T" using Some Cons.prems(3) by auto
      have "inner (teams_are d T L) (stmt (mark_team_stm (de_id t) False)) (\<lambda>_. teams_are d ?T ?L)"
        using mark_team_effect [where z = "de_id t" and b = False and d = d and T = T and L = L] Cons.prems(1) T
        by (intro inner_stmt) (auto simp: insert_absorb)
      with Some True show ?thesis by (auto intro: inner_then inner_ok)
    next
      case False
      then have "de_id t \<in> L" using Some Cons.prems(2) by auto
      with Some False Cons.prems(4) show ?thesis by (auto intro!: inner_ok simp: insert_absorb)
    qed
  qed
  moreover have "inner (teams_are d ?T ?L) (write_declared stored ts a)
      (\<lambda>_. teams_are d (?T \<union> de_id ` set ts) (?L \<union> de_id ` set ts))" for a
    by (rule Cons.IH) (use Cons.prems in auto)
  ultimately have "inner (teams_are d T L) (write_declared stored (t # ts) a)
      (\<lambda>_. teams_are d (?T \<union> de_id ` set ts) (?L \<union> de_id ` set ts))"
    unfolding write_declared.simps by (rule inner_then)
  then show ?case by simp
qed

lemma inner_archive:
  assumes "\<And>x. x \<in> set st \<Longrightarrow> own_key (fst x)"
  shows "inner (teams_are d T L) (archive_omitted ds st a)
     (\<lambda>_. teams_are d T (L - {x. (x, False) \<in> set st \<and> x \<notin> de_id ` set ds}))"
  using assms
proof (induction st arbitrary: a L)
  case Nil
  then show ?case by (simp add: inner_ok)
next
  case (Cons x xs)
  let ?skip = "snd x \<or> fst x \<in> de_id ` set ds"
  let ?L = "if ?skip then L else L - {fst x}"
  have mark: "inner (teams_are d T L) (stmt (mark_team_stm (fst x) True)) (\<lambda>_. teams_are d T (L - {fst x}))"
    using mark_team_effect [where z = "fst x" and b = True and d = d and T = T and L = L] Cons.prems [of x]
    by (intro inner_stmt) auto
  have "inner (teams_are d T L) (if ?skip then ok a
       else and_then (stmt (mark_team_stm (fst x) True)) (\<lambda>_.
            and_then (select (\<lambda>t d. member_ids (fst x) d)) (\<lambda>ms.
            ok (a\<lparr>ta_resp := (ta_resp a)\<lparr>sr_teams_archived := sr_teams_archived (ta_resp a) + 1\<rparr>,
                  ta_changed := ta_changed a @ ms\<rparr>)))) (\<lambda>_. teams_are d T ?L)"
    by (cases ?skip)
       (auto intro!: inner_ok inner_then [OF mark] inner_then [OF inner_select [where Q = "\<lambda>_. teams_are d T (L - {fst x})"]])
  moreover have "inner (teams_are d T ?L) (archive_omitted ds xs a)
      (\<lambda>_. teams_are d T (?L - {x. (x, False) \<in> set xs \<and> x \<notin> de_id ` set ds}))" for a
    by (rule Cons.IH) (use Cons.prems in auto)
  ultimately have "inner (teams_are d T L) (archive_omitted ds (x # xs) a)
      (\<lambda>_. teams_are d T (?L - {x. (x, False) \<in> set xs \<and> x \<notin> de_id ` set ds}))"
    unfolding archive_omitted.simps by (rule inner_then)
  moreover have "?L - {x. (x, False) \<in> set xs \<and> x \<notin> de_id ` set ds} =
      L - {y. (y, False) \<in> set (x # xs) \<and> y \<notin> de_id ` set ds}"
    by (cases x) auto
  ultimately show ?case by simp
qed

lemma inner_write_teams:
  assumes "\<And>t. t \<in> set ds \<Longrightarrow> own_key (de_id t)" and "\<forall>t \<in> team_ids d. own_key t" and "store_ok d"
  shows "inner (\<lambda>x. x = d) (write_teams ds a) (\<lambda>_. teams_are d (team_ids d \<union> de_id ` set ds) (de_id ` set ds))"
proof -
  let ?st = "stored_teams d" and ?D = "de_id ` set ds"
  have set: "(x, b) \<in> set ?st \<longleftrightarrow> (\<exists>t \<in> set (iam_team d). x = t_id t \<and> b = (t_deleted_at t \<noteq> None))" for x b
    by (auto simp: stored_teams_def)
  have "distinct (map t_id (iam_team d))"
    using assms(3) by (auto simp: store_ok_def teams_ok_def distinct_map inj_on_def)
  then have live: "{x. (x, False) \<in> set ?st} = live_teams d" by (auto simp: set live_teams_def)
  have first: "inner (\<lambda>x. x = d) (select (\<lambda>t d. stored_teams d)) (\<lambda>st x. st = ?st \<and> teams_are d (team_ids d) (live_teams d) x)"
    by (rule inner_select) (use assms(2) in \<open>auto simp: teams_are_def\<close>)
  have "inner (teams_are d (team_ids d) (live_teams d)) (write_declared ?st ds a)
      (\<lambda>_. teams_are d (team_ids d \<union> ?D) (live_teams d \<union> ?D))"
  proof (rule inner_write_declared)
    fix t
    assume "t \<in> set ds"
    show "de_id t \<in> live_teams d" if "map_of ?st (de_id t) = Some False"
      using map_of_SomeD [OF that] live by auto
    show "de_id t \<in> team_ids d" if "map_of ?st (de_id t) = Some True"
      using map_of_SomeD [OF that] set by (auto simp: team_ids_def)
  qed (use assms(1) in \<open>auto simp: live_teams_def team_ids_def\<close>)
  moreover have "inner (teams_are d (team_ids d \<union> ?D) (live_teams d \<union> ?D)) (archive_omitted ds ?st a')
      (\<lambda>_. teams_are d (team_ids d \<union> ?D) ((live_teams d \<union> ?D) - {x. (x, False) \<in> set ?st \<and> x \<notin> ?D}))" for a'
    by (rule inner_archive) (use assms(2) set in \<open>fastforce simp: team_ids_def\<close>)
  moreover have "(live_teams d \<union> ?D) - {x. (x, False) \<in> set ?st \<and> x \<notin> ?D} = ?D" using live by auto
  ultimately have "inner (teams_are d (team_ids d) (live_teams d)) (and_then (write_declared ?st ds a) (\<lambda>a. archive_omitted ds ?st a))
      (\<lambda>_. teams_are d (team_ids d \<union> ?D) ?D)"
    using inner_then by fastforce
  then show ?thesis unfolding write_teams_def
    by (intro inner_then [OF first] inner_pure) simp
qed

section \<open>The member table\<close>

definition members_of :: "string \<Rightarrow> db \<Rightarrow> string set" where
  "members_of z d = m_user_id ` {m \<in> set (iam_team_member d). m_team_id m = z}"

definition plain_members :: "db \<Rightarrow> bool" where
  "plain_members d \<longleftrightarrow> (\<forall>m \<in> set (iam_team_member d). own_key (m_team_id m) \<and> own_key (m_user_id m))"

definition members_are :: "db \<Rightarrow> (string \<Rightarrow> string set) \<Rightarrow> db \<Rightarrow> bool" where
  "members_are d M x \<longleftrightarrow> x\<lparr>iam_team_member := []\<rparr> = d\<lparr>iam_team_member := []\<rparr> \<and> plain_members x \<and>
     (\<forall>z. members_of z x = M z)"

lemma delete_member_effect:
  assumes "delete_member_stm z m t x = Inr (n, y)" and "members_are d M x" and "own_key z" and "own_key m"
  shows "members_are d (M(z := M z - {m})) y"
proof -
  let ?P = "\<lambda>v. sql_eq (m_team_id v) z \<and> sql_eq (m_user_id v) m"
  have y: "y = x\<lparr>iam_team_member := del ?P (iam_team_member x)\<rparr>"
    using assms(1) by (auto simp: delete_member_stm_def Let_def)
  have P: "?P v \<longleftrightarrow> m_team_id v = z \<and> m_user_id v = m" if "v \<in> set (iam_team_member x)" for v
    using that assms(2-4) by (auto simp: members_are_def plain_members_def own_key_def)
  have "members_of u y = (if u = z then members_of z x - {m} else members_of u x)" for u
    using P by (auto simp: members_of_def y set_del)
  moreover have "plain_members y" using assms(2) by (auto simp: members_are_def plain_members_def y set_del)
  ultimately show ?thesis using assms(2) by (simp add: members_are_def y)
qed

lemma insert_member_effect:
  assumes "insert_member_stm z m t x = Inr (n, y)" and "members_are d M x" and "own_key z" and "own_key m"
  shows "members_are d (M(z := insert m (M z))) y"
proof -
  have y: "y = x\<lparr>iam_team_member := iam_team_member x @ [\<lparr>m_team_id = z, m_user_id = m, m_added_by = ''system''\<rparr>]\<rparr>"
    using assms(1) by (auto simp: insert_member_stm_def ins_member_def split: if_splits)
  have alt: "members_of u d = set (map m_user_id (filter (\<lambda>m. m_team_id m = u) (iam_team_member d)))" for u d
    by (auto simp: members_of_def)
  have "members_of u y = (if u = z then insert m (members_of z x) else members_of u x)" for u
    by (simp add: alt y)
  moreover have "plain_members y" using assms(2-4) by (auto simp: members_are_def plain_members_def y)
  ultimately show ?thesis using assms(2) by (simp add: members_are_def y)
qed

lemma inner_remove_members:
  assumes "own_key z" and "\<And>m. m \<in> set ms \<Longrightarrow> own_key m"
  shows "inner (members_are d M) (remove_members z ms a) (\<lambda>_. members_are d (M(z := M z - set ms)))"
  using assms(2)
proof (induction ms arbitrary: a M)
  case Nil
  then show ?case by (simp add: inner_ok)
next
  case (Cons m ms)
  have "inner (members_are d M) (stmt (delete_member_stm z m)) (\<lambda>_. members_are d (M(z := M z - {m})))"
    using delete_member_effect assms(1) Cons.prems by (intro inner_stmt) auto
  moreover have "inner (members_are d (M(z := M z - {m}))) (remove_members z ms a) (\<lambda>_. members_are d (M(z := M z - set (m # ms))))" for a
  proof -
    have "(M(z := M z - {m}))(z := (M(z := M z - {m})) z - set ms) = M(z := M z - set (m # ms))"
      by (simp add: Diff_insert2 [of "M z" m "set ms"])
    with Cons.IH [of "M(z := M z - {m})" a] Cons.prems show ?thesis by (metis list.set_intros(2))
  qed
  ultimately show ?case unfolding remove_members.simps by (rule inner_then)
qed

lemma inner_add_members:
  assumes "own_key z" and "\<And>m. m \<in> set ms \<Longrightarrow> own_key m"
  shows "inner (members_are d M) (add_members z ms a) (\<lambda>_. members_are d (M(z := M z \<union> set ms)))"
  using assms(2)
proof (induction ms arbitrary: a M)
  case Nil
  then show ?case by (simp add: inner_ok)
next
  case (Cons m ms)
  have "inner (members_are d M) (stmt (insert_member_stm z m)) (\<lambda>_. members_are d (M(z := insert m (M z))))"
    using insert_member_effect assms(1) Cons.prems by (intro inner_stmt) auto
  moreover have "inner (members_are d (M(z := insert m (M z)))) (add_members z ms a) (\<lambda>_. members_are d (M(z := M z \<union> set (m # ms))))" for a
  proof -
    have "(M(z := insert m (M z)))(z := (M(z := insert m (M z))) z \<union> set ms) = M(z := M z \<union> set (m # ms))" by auto
    with Cons.IH [of "M(z := insert m (M z))" a] Cons.prems show ?thesis by (metis list.set_intros(2))
  qed
  ultimately show ?case unfolding add_members.simps by (rule inner_then)
qed

definition desired_members :: "(string \<Rightarrow> known option) \<Rightarrow> declared \<Rightarrow> string set" where
  "desired_members k t = {m \<in> set (de_members t). k m \<noteq> Some Absent}"

lemma set_btree [simp]: "set (btree xs) = set xs"
  by (simp add: btree_def)

lemma member_ids_are:
  assumes "members_are d M x" and "own_key z" shows "set (member_ids z x) = M z"
proof -
  have "sql_eq (m_team_id m) z \<longleftrightarrow> m_team_id m = z" if "m \<in> set (iam_team_member x)" for m
    using that assms by (auto simp: members_are_def plain_members_def own_key_def)
  then have "set (member_ids z x) = members_of z x" by (auto simp: member_ids_def members_of_def)
  with assms(1) show ?thesis by (simp add: members_are_def)
qed

lemma inner_write_members:
  assumes "own_key (de_id t)" and "\<And>m. m \<in> set (de_members t) \<Longrightarrow> own_key m"
  shows "inner (members_are d M) (write_members t k a) (\<lambda>_. members_are d (M(de_id t := desired_members k t)))"
proof -
  let ?z = "de_id t" and ?D = "btree (filter (\<lambda>m. k m \<noteq> Some Absent) (de_members t))"
  have own: "own_key m" if "members_are d M x" "m \<in> M ?z" for x m
  proof -
    have "members_of ?z x = M ?z" using that(1) by (simp add: members_are_def)
    with that(2) obtain v where "v \<in> set (iam_team_member x)" "m = m_user_id v" by (auto simp: members_of_def)
    with that(1) show ?thesis by (simp add: members_are_def plain_members_def)
  qed
  have sel: "inner (members_are d M) (select (\<lambda>s d. btree (member_ids ?z d)))
      (\<lambda>c x. (set c = M ?z \<and> (\<forall>m \<in> M ?z. own_key m)) \<and> members_are d M x)"
    by (rule inner_select) (use member_ids_are [OF _ assms(1)] own in auto)
  have D: "set ?D = desired_members k t" by (auto simp: desired_members_def)
  show ?thesis unfolding write_members_def Let_def
  proof (rule inner_then [OF sel], rule inner_pure, elim conjE)
    fix c
    assume c: "set c = M ?z" and o: "\<forall>m \<in> M ?z. own_key m"
    let ?M = "M(?z := M ?z - set (filter (\<lambda>c. c \<notin> set ?D) c))"
    have rem: "inner (members_are d M) (remove_members ?z (filter (\<lambda>c. c \<notin> set ?D) c) a) (\<lambda>_. members_are d ?M)" for a
      by (rule inner_remove_members [OF assms(1)]) (use c o in auto)
    have "inner (members_are d ?M) (add_members ?z (filter (\<lambda>m. m \<notin> set c) ?D) a)
        (\<lambda>_. members_are d (?M(?z := ?M ?z \<union> set (filter (\<lambda>m. m \<notin> set c) ?D))))" for a
      by (rule inner_add_members [OF assms(1)]) (use assms(2) in auto)
    moreover have eq: "?M(?z := ?M ?z \<union> set (filter (\<lambda>m. m \<notin> set c) ?D)) = M(?z := desired_members k t)"
      using c D by (auto simp: fun_eq_iff)
    ultimately have add: "inner (members_are d ?M) (add_members ?z (filter (\<lambda>m. m \<notin> set c) ?D) a)
        (\<lambda>_. members_are d (M(?z := desired_members k t)))" for a by metis
    show "inner (members_are d M) (and_then (remove_members ?z (filter (\<lambda>c. c \<notin> set ?D) c)
        (if ?z \<in> set (ta_reactivated a) then a\<lparr>ta_changed := ta_changed a @ ?D\<rparr> else a))
        (add_members ?z (filter (\<lambda>m. m \<notin> set c) ?D))) (\<lambda>_. members_are d (M(?z := desired_members k t)))"
      by (rule inner_then [OF rem add])
  qed
qed

lemma inner_write_all_members:
  assumes "\<And>t. t \<in> set ds \<Longrightarrow> own_key (de_id t) \<and> (\<forall>m \<in> set (de_members t). own_key m)"
  shows "inner (members_are d M) (write_all_members ds k a)
     (\<lambda>_. members_are d (fold (\<lambda>t M. M(de_id t := desired_members k t)) ds M))"
  using assms
proof (induction ds arbitrary: a M)
  case Nil
  then show ?case by (simp add: inner_ok)
next
  case (Cons t ts)
  have "inner (members_are d M) (write_members t k a) (\<lambda>_. members_are d (M(de_id t := desired_members k t)))"
    using Cons.prems by (intro inner_write_members) auto
  moreover have "inner (members_are d (M(de_id t := desired_members k t))) (write_all_members ts k a)
      (\<lambda>_. members_are d (fold (\<lambda>t M. M(de_id t := desired_members k t)) (t # ts) M))" for a
    by (simp only: fold_simps) (rule Cons.IH, use Cons.prems in auto)
  ultimately show ?case unfolding write_all_members.simps by (rule inner_then)
qed

lemma fold_declared:
  assumes "distinct (map de_id ds)"
  shows "t \<in> set ds \<Longrightarrow> fold (\<lambda>t M. M(de_id t := f t)) ds M (de_id t) = f t"
    and "z \<notin> de_id ` set ds \<Longrightarrow> fold (\<lambda>t M. M(de_id t := f t)) ds M z = M z"
proof -
  have out: "z \<notin> de_id ` set ds \<Longrightarrow> fold (\<lambda>t M. M(de_id t := f t)) ds M z = M z" for ds M z
    by (induction ds arbitrary: M) auto
  then show "z \<notin> de_id ` set ds \<Longrightarrow> fold (\<lambda>t M. M(de_id t := f t)) ds M z = M z" .
  show "t \<in> set ds \<Longrightarrow> fold (\<lambda>t M. M(de_id t := f t)) ds M (de_id t) = f t"
    using assms by (induction ds arbitrary: M) (auto simp: out)
qed

section \<open>Who is known, and who is awaited\<close>

definition knowing :: "declared list \<Rightarrow> db \<Rightarrow> string \<Rightarrow> known option" where
  "knowing ds d m = (if m \<in> set (concat (map de_members ds)) then Some (known_of d m) else None)"

lemma inner_known_from:
  "inner (\<lambda>x. x = d) (known_from ms k)
     (\<lambda>k' x. k' = (\<lambda>m. if k m = None \<and> m \<in> set ms then Some (known_of d m) else k m) \<and> x = d)"
proof (induction ms arbitrary: k)
  case Nil
  show ?case unfolding known_from.simps by (rule inner_ok) auto
next
  case (Cons m ms)
  show ?case
  proof (cases "k m = None")
    case False
    then have "(\<lambda>x. if k x = None \<and> x \<in> set (m # ms) then Some (known_of d x) else k x) =
        (\<lambda>x. if k x = None \<and> x \<in> set ms then Some (known_of d x) else k x)" by (auto simp: fun_eq_iff)
    with False Cons.IH show ?thesis by simp
  next
    case True
    have sel: "inner (\<lambda>x. x = d) (select (\<lambda>t d. known_of d m)) (\<lambda>y x. y = known_of d m \<and> x = d)"
      by (rule inner_select) auto
    have eq: "(\<lambda>x. if (k(m \<mapsto> known_of d m)) x = None \<and> x \<in> set ms then Some (known_of d x) else (k(m \<mapsto> known_of d m)) x) =
        (\<lambda>x. if k x = None \<and> x \<in> set (m # ms) then Some (known_of d x) else k x)"
      using True by (auto simp: fun_eq_iff)
    have "inner (\<lambda>x. y = known_of d m \<and> x = d) (known_from ms (k(m \<mapsto> y)))
        (\<lambda>k' x. k' = (\<lambda>x. if k x = None \<and> x \<in> set (m # ms) then Some (known_of d x) else k x) \<and> x = d)" for y
      by (rule inner_pure, simp only:) (rule Cons.IH [of "k(m \<mapsto> known_of d m)", unfolded eq])
    from inner_then [OF sel this] True show ?thesis by simp
  qed
qed

lemma inner_known_users: "inner (\<lambda>x. x = d) (known_users ds) (\<lambda>k x. k = knowing ds d \<and> x = d)"
  using inner_known_from [of d "concat (map de_members ds)" Map.empty]
  unfolding known_users_def knowing_def [abs_def] by simp

definition awaiting :: "string list \<Rightarrow> pending_row list" where
  "awaiting ms = map (\<lambda>m. \<lparr>pd_team_id = ADMINISTRATORS, pd_user_id = m\<rparr>) ms"

lemma inner_insert_all_pending:
  "inner (\<lambda>x. x = d\<lparr>iam_team_member_pending := ps\<rparr>) (insert_all_pending ms)
     (\<lambda>_ x. x = d\<lparr>iam_team_member_pending := ps @ awaiting ms\<rparr>)"
proof (induction ms arbitrary: ps)
  case Nil
  show ?case by (simp add: inner_ok awaiting_def)
next
  case (Cons m ms)
  have "inner (\<lambda>x. x = d\<lparr>iam_team_member_pending := ps\<rparr>) (stmt (insert_pending_stm m))
      (\<lambda>_ x. x = d\<lparr>iam_team_member_pending := ps @ awaiting [m]\<rparr>)"
    by (rule inner_stmt) (auto simp: insert_pending_stm_def ins_pending_def awaiting_def split: if_splits)
  moreover have "inner (\<lambda>x. x = d\<lparr>iam_team_member_pending := ps @ awaiting [m]\<rparr>) (insert_all_pending ms)
      (\<lambda>_ x. x = d\<lparr>iam_team_member_pending := ps @ awaiting (m # ms)\<rparr>)"
    using Cons.IH [of "ps @ awaiting [m]"] by (simp add: awaiting_def)
  ultimately show ?case unfolding insert_all_pending.simps by (rule inner_then)
qed

lemma inner_replace_pending:
  "inner (\<lambda>x. x = d) (replace_pending ms) (\<lambda>_ x. x = d\<lparr>iam_team_member_pending := awaiting ms\<rparr>)"
proof -
  have "inner (\<lambda>x. x = d) (stmt drop_pending_stm) (\<lambda>_ x. x = d\<lparr>iam_team_member_pending := []\<rparr>)"
    by (rule inner_stmt) (auto simp: drop_pending_stm_def)
  from inner_then [OF this] inner_insert_all_pending [where d = d and ps = "[]" and ms = ms] show ?thesis by (simp add: replace_pending_def)
qed

section \<open>The specification\<close>

definition but_teams :: "db \<Rightarrow> db" where
  "but_teams d = d\<lparr>iam_team := [], iam_team_member := [], iam_team_member_pending := []\<rparr>"

definition synced :: "declared list \<Rightarrow> db \<Rightarrow> db \<Rightarrow> bool" where
  "synced ds d d' \<longleftrightarrow> but_teams d' = but_teams d \<and>
     live_teams d' = de_id ` set ds \<and> team_ids d' = team_ids d \<union> de_id ` set ds \<and>
     (\<forall>t \<in> set ds. members_of (de_id t) d' = {m \<in> set (de_members t). find_user d m \<noteq> None}) \<and>
     (\<forall>z. z \<notin> de_id ` set ds \<longrightarrow> members_of z d' = members_of z d) \<and>
     iam_team_member_pending d' = awaiting (pending_of (knowing ds d) ds)"

definition plain_teams :: "db \<Rightarrow> bool" where
  "plain_teams d \<longleftrightarrow> (\<forall>t \<in> team_ids d. own_key t) \<and> plain_members d"

text \<open>The guard: a store with a live administrator keeps one.\<close>

definition no_lockout :: "declared list \<Rightarrow> db \<Rightarrow> bool" where
  "no_lockout ds d \<longleftrightarrow> live_admin_rows d = [] \<or> 0 < live_after (knowing ds d) ds"

lemma synced_sel:
  assumes "synced ds d d'"
  shows "but_teams d' = but_teams d" and "live_teams d' = de_id ` set ds"
    and "t \<in> set ds \<Longrightarrow> members_of (de_id t) d' = {m \<in> set (de_members t). find_user d m \<noteq> None}"
  using assms unfolding synced_def by blast+

lemma desired_known:
  assumes "t \<in> set ds" shows "desired_members (knowing ds d) t = {m \<in> set (de_members t). find_user d m \<noteq> None}"
  using assms by (auto simp: desired_members_def knowing_def known_of_def split: option.splits if_splits)

lemma synced_parts:
  assumes "teams_are d T L d1" and "members_are d1 M d2" and "T = team_ids d \<union> de_id ` set ds" and "L = de_id ` set ds"
    and "M = fold (\<lambda>t M. M(de_id t := desired_members (knowing ds d) t)) ds (\<lambda>z. members_of z d)"
    and "distinct (map de_id ds)"
  shows "synced ds d (d2\<lparr>iam_team_member_pending := awaiting (pending_of (knowing ds d) ds)\<rparr>)"
proof -
  let ?d' = "d2\<lparr>iam_team_member_pending := awaiting (pending_of (knowing ds d) ds)\<rparr>"
  have 1: "d1\<lparr>iam_team := []\<rparr> = d\<lparr>iam_team := []\<rparr>" and 2: "d2\<lparr>iam_team_member := []\<rparr> = d1\<lparr>iam_team_member := []\<rparr>"
    using assms(1,2) by (simp_all add: teams_are_def members_are_def)
  have b1: "but_teams d1 = but_teams d"
    using arg_cong [OF 1, of but_teams] by (simp add: but_teams_def)
  have b2: "but_teams d2 = but_teams d1"
    using arg_cong [OF 2, of but_teams] by (simp add: but_teams_def)
  have team: "iam_team d2 = iam_team d1" using arg_cong [OF 2, of iam_team] by simp
  have "live_teams ?d' = L" "team_ids ?d' = T" using assms(1) team by (simp_all add: teams_are_def live_teams_def team_ids_def)
  moreover have "members_of z ?d' = M z" for z using assms(2) by (simp add: members_are_def members_of_def)
  moreover have "but_teams ?d' = but_teams d" using b1 b2 by (simp add: but_teams_def)
  moreover have "M (de_id t) = {m \<in> set (de_members t). find_user d m \<noteq> None}" if "t \<in> set ds" for t
    unfolding assms(5) fold_declared(1) [OF assms(6) that] by (rule desired_known [OF that])
  moreover have "M z = members_of z d" if "z \<notin> de_id ` set ds" for z
    unfolding assms(5) fold_declared(2) [OF assms(6) that] ..
  ultimately show ?thesis using assms(3,4) by (simp add: synced_def)
qed

section \<open>The transaction\<close>

definition sync_result :: "declared list \<Rightarrow> db \<Rightarrow> sync_response \<Rightarrow> db \<Rightarrow> bool" where
  "sync_result ds d resp d' \<longleftrightarrow> synced ds d d' \<and> no_lockout ds d \<and>
     sr_pending_administrator_user_ids resp = pending_of (knowing ds d) ds"

definition plain_declared :: "declared list \<Rightarrow> bool" where
  "plain_declared ds \<longleftrightarrow> distinct (map de_id ds) \<and> (\<forall>t \<in> set ds. own_key (de_id t) \<and> (\<forall>m \<in> set (de_members t). own_key m))"

lemma validated_plain:
  assumes "validate ts = Inr ds" shows "plain_declared ds"
proof -
  from assms have ds: "ds = map declared_of ts" "\<forall>t \<in> set ts. valid_team t" "distinct (map dt_name ts)"
    by (simp_all add: validate_ok)
  have "distinct (map de_id ds)" using ds(1,3) by (auto simp: distinct_map declared_of_def inj_on_def)
  moreover have "own_key (de_id t) \<and> (\<forall>m \<in> set (de_members t). own_key m)" if "t \<in> set ds" for t
    using that ds(1,2) team_id_key canonical_key by (auto simp: declared_of_def valid_team_def own_key_def)
  ultimately show ?thesis by (simp add: plain_declared_def)
qed

lemma atomic_sync_writes:
  assumes "plain_declared ds" and "plain_teams d" and "store_ok d" and "no_lockout ds d"
  shows "atomic (\<lambda>x. x = d) (and_then (write_teams ds a) (\<lambda>a. and_then (write_all_members ds (knowing ds d) a) (\<lambda>a.
     and_then (replace_pending (pending_of (knowing ds d) ds)) (\<lambda>_.
     and_then commit (\<lambda>_. and_then (emit (Finished (n a))) (\<lambda>_.
       ok ((ta_resp a)\<lparr>sr_pending_administrator_user_ids := pending_of (knowing ds d) ds,
           sr_changed_user_ids := btree (ta_changed a)\<rparr>)))))))
   (sync_result ds d)"
proof -
  let ?k = "knowing ds d" and ?D = "de_id ` set ds"
  let ?M = "fold (\<lambda>t M. M(de_id t := desired_members ?k t)) ds (\<lambda>z. members_of z d)"
  have own: "\<And>t. t \<in> set ds \<Longrightarrow> own_key (de_id t) \<and> (\<forall>m \<in> set (de_members t). own_key m)"
    using assms(1) by (auto simp: plain_declared_def)
  have teams: "inner (\<lambda>x. x = d) (write_teams ds a) (\<lambda>_. teams_are d (team_ids d \<union> ?D) ?D)"
    by (rule inner_write_teams) (use own assms(2,3) in \<open>auto simp: plain_teams_def\<close>)
  have members: "inner (\<lambda>x. x = d1) (write_all_members ds ?k a) (\<lambda>_. members_are d1 ?M)" if "teams_are d (team_ids d \<union> ?D) ?D d1" for d1 a
  proof -
    from that have "d1\<lparr>iam_team := []\<rparr> = d\<lparr>iam_team := []\<rparr>" by (simp add: teams_are_def)
    from arg_cong [OF this, of iam_team_member] have "iam_team_member d1 = iam_team_member d" by simp
    then have m: "members_are d1 (\<lambda>z. members_of z d) d1"
      using assms(2) by (simp add: members_are_def plain_teams_def plain_members_def members_of_def)
    show ?thesis by (rule inner_weaken [OF inner_write_all_members [OF own]]) (simp_all only: m)
  qed
  have tail: "atomic (\<lambda>x. x = d2) (and_then (replace_pending (pending_of ?k ds)) (\<lambda>_.
     and_then commit (\<lambda>_. and_then (emit (Finished (n a))) (\<lambda>_.
       ok ((ta_resp a)\<lparr>sr_pending_administrator_user_ids := pending_of ?k ds, sr_changed_user_ids := btree (ta_changed a)\<rparr>)))))
     (sync_result ds d)" if "teams_are d (team_ids d \<union> ?D) ?D d1" "members_are d1 ?M d2" for d1 d2 a
    by (rule atomic_then [OF inner_replace_pending], rule atomic_commit)
       (use synced_parts [OF that refl refl refl] assms(1,4) in \<open>auto simp: sync_result_def plain_declared_def\<close>)
  show ?thesis
    by (rule atomic_seq [OF teams], rule atomic_seq [OF members], assumption, rule tail)
qed

lemma atomic_refuse: "atomic P (refuse_call s l) Q"
  by (simp add: atomic_def refuse_call_def and_then_def emit_def fail_def)

lemma inner_sync_lock: "inner (\<lambda>x. x = d) sync_lock (\<lambda>_ x. x = d)"
proof -
  have "inner (\<lambda>x. x = d) (\<lambda>e w. (Inr (), hold [Exclusive TeamSyncRow] w)) (\<lambda>_ x. x = d)"
    by (auto simp: inner_def hold_def cur_def)
  then show ?thesis unfolding sync_lock_def by (intro inner_then [OF inner_fetch_one]) simp_all
qed

lemma sync_teams_cases:
  assumes "alone e" and "store_ok d" and "plain_teams d" and "validate ts = Inr ds"
    and "run (sync_teams ts) e d = (res, d', ev)"
  shows "(\<not> is_ok res \<and> d' = d) \<or> (\<exists>resp. sync_result ds d resp d' \<and> (\<forall>y. res = Inr y \<longrightarrow> y = resp))"
proof -
  define body where "body = and_then sync_lock (\<lambda>_.
       and_then lock_administrators (\<lambda>_.
       and_then live_administrators (\<lambda>live_before.
       and_then (known_users ds) (\<lambda>k.
       let after = live_after k ds; pend = pending_of k ds in
       if 0 < live_before \<and> after = 0 then refuse_call lockout FAILED_PRECONDITION
       else
         and_then (write_teams ds \<lparr>ta_resp = empty_sync (sat_u32 after) (unknown_of k pend ds),
                     ta_changed = [], ta_reactivated = []\<rparr>) (\<lambda>a.
         and_then (write_all_members ds k a) (\<lambda>a.
         and_then (replace_pending pend) (\<lambda>_.
         let resp = (ta_resp a)\<lparr>sr_pending_administrator_user_ids := pend,
                       sr_changed_user_ids := btree (ta_changed a)\<rparr> in
         and_then commit (\<lambda>_.
         and_then (emit (Finished (sync_rows resp))) (\<lambda>_. ok resp)))))))))"
  have plain: "plain_declared ds" using assms(4) by (rule validated_plain)
  have admins: "inner (\<lambda>x. x = d) lock_administrators (\<lambda>_ x. x = d)"
    unfolding lock_administrators_def by (rule inner_select_lock)
  have live: "inner (\<lambda>x. x = d) live_administrators (\<lambda>n x. n = length (live_admin_rows d) \<and> x = d)"
    unfolding live_administrators_def by (rule inner_select) simp
  have "atomic (\<lambda>x. x = d) body (sync_result ds d)"
    unfolding body_def
    by (intro atomic_then [OF inner_sync_lock] atomic_then [OF admins] atomic_then [OF live] atomic_pure
          atomic_then [OF inner_known_users])
       (auto simp: Let_def no_lockout_def intro!: atomic_refuse atomic_sync_writes [OF plain assms(3,2)])
  moreover have "run (and_then acquire (\<lambda>_. and_then (begin_tx ReadCommitted) (\<lambda>_. body))) e d = (res, d', ev)"
    using assms(5) unfolding body_def sync_teams_def assms(4) by simp
  ultimately show ?thesis by (rule atomic_run [OF assms(1)])
qed


section \<open>Properties\<close>

text \<open>C30. With no other session at work, and stored ids of teams and members that are their own comparison keys (lower case, no
  trailing spaces, as every declared id is), \<open>SyncTeams\<close> applies a declaration whole or not at all, whatever statement of it is refused and
  whichever reply is lost: the store is as it was, or the declaration was valid, exactly the declared
  teams are live, the members of each are the declared people who exist, the awaited administrators
  are the reported ones, and no other table moved.\<close>

theorem sync_all_or_nothing:
  assumes "alone e" and "store_ok d" and "plain_teams d" and "run (sync_teams ts) e d = (res, d', ev)"
  shows "(\<not> is_ok res \<and> d' = d) \<or> (\<exists>ds. validate ts = Inr ds \<and> synced ds d d' \<and> no_lockout ds d \<and>
     (\<forall>y. res = Inr y \<longrightarrow> sr_pending_administrator_user_ids y = pending_of (knowing ds d) ds))"
proof (cases "validate ts")
  case (Inl s)
  with assms(4) show ?thesis
    by (auto simp: sync_teams_def run_def refuse_call_def and_then_def emit_def fail_def)
next
  case (Inr ds)
  with sync_teams_cases [OF assms(1-3) Inr assms(4)] show ?thesis by (auto simp: sync_result_def)
qed

definition sample_declaration :: "declared_team list" where
  "sample_declaration = [\<lparr>dt_name = ''administrators'', dt_member_user_ids = [alice]\<rparr>, \<lparr>dt_name = ''ops'', dt_member_user_ids = [alice]\<rparr>]"

lemma plain_sample: "plain_teams declared_db"
  by (simp add: plain_teams_def team_ids_def plain_members_def own_key_def sample_defs)

lemma sample_declaration_valid: "validate sample_declaration = Inr (map declared_of sample_declaration)"
  using sample_open(2) by (simp add: validate_ok sample_declaration_def valid_team_def name_ok_def is_lower_def)

lemma sample_sync_answers: "is_ok (fst (run (sync_teams sample_declaration) calm_env declared_db))"
  using sample_declaration_valid
  by (simp add: sync_teams_def calm_run calm_calm_env Let_def sync_lock_def lock_administrators_def live_administrators_def
      known_users_def known_of_def find_user_def live_after_def admins_of_def pending_of_def TEAM_PREFIX_def ADMINISTRATORS_def
      live_admin_rows_def write_teams_def stored_teams_def insert_team_def insert_team_stm_def ins_team_def write_members_def
      member_ids_def btree_def insert_member_stm_def ins_member_def has_team_def has_user_def replace_pending_def drop_pending_stm_def
      sample_declaration_def declared_of_def sample_defs) (auto simp: image_iff)

theorem sync_all_or_nothing_witness:
  "\<exists>d'. fst (snd (run (sync_teams sample_declaration) calm_env declared_db)) = d' \<and>
     live_teams d' = {''yadgar:team:administrators'', ''yadgar:team:ops''} \<and> members_of ''yadgar:team:ops'' d' = {alice}"
proof -
  from sample_sync_answers obtain y d' ev where
    r: "run (sync_teams sample_declaration) calm_env declared_db = (Inr y, d', ev)" by (rule run_answers)
  from sync_all_or_nothing [OF alone_calm [OF calm_calm_env] store_ok_samples(3) plain_sample r]
  have "synced (map declared_of sample_declaration) declared_db d'" by (auto simp: sample_declaration_valid)
  note sync = synced_sel(2,3) [OF this]
  have "live_teams d' = {''yadgar:team:administrators'', ''yadgar:team:ops''}"
    unfolding sync(1) by (simp add: sample_declaration_def declared_of_def TEAM_PREFIX_def)
  moreover have "members_of ''yadgar:team:ops'' d' = {alice}"
  proof -
    have "find_user declared_db alice \<noteq> None" by (simp add: find_user_def sample_defs)
    then have "{m. m = alice \<and> find_user declared_db m \<noteq> None} = {alice}" by blast
    with sync(2) [of "declared_of (sample_declaration ! 1)"] show ?thesis
      by (simp add: sample_declaration_def declared_of_def TEAM_PREFIX_def)
  qed
  ultimately show ?thesis using r by simp
qed

lemma live_admin_kept:
  assumes "synced ds d d'" and "no_lockout ds d" and "live_admin_rows d \<noteq> []" and "plain_declared ds"
  shows "live_admin_rows d' \<noteq> []"
proof -
  from assms(2,3) have "0 < live_after (knowing ds d) ds" by (simp add: no_lockout_def)
  then obtain t where a: "admins_of ds = Some t" and l: "0 < length (filter (\<lambda>m. knowing ds d m = Some Live) (de_members t))"
    by (simp add: live_after_def split: option.splits)
  from a have t: "t \<in> set ds" "de_id t = ADMINISTRATORS" unfolding admins_of_def by (auto dest!: fetch_optional_filter)
  from l obtain m where m: "m \<in> set (de_members t)" "knowing ds d m = Some Live" by (auto simp: filter_empty_conv)
  from m obtain u where u: "find_user d m = Some u" "u_deleted_at u = None"
    by (auto simp: knowing_def known_of_def split: if_splits option.splits)
  note sync = synced_sel [OF assms(1)]
  from arg_cong [OF sync(1), of iam_user] have users: "iam_user d' = iam_user d" by (simp add: but_teams_def)
  from u(1) have "u \<in> set (iam_user d')" "sql_eq (u_id u) m" by (auto simp: users find_user_def dest: fetch_optional_filter)
  moreover from sync(3) [OF t(1)] t(2) m(1) u(1) have "m \<in> members_of ADMINISTRATORS d'" by simp
  then obtain x where "x \<in> set (iam_team_member d')" "m_team_id x = ADMINISTRATORS" "m_user_id x = m" by (auto simp: members_of_def)
  moreover from sync(2) t have "ADMINISTRATORS \<in> live_teams d'" by force
  then obtain v where "v \<in> set (iam_team d')" "t_id v = ADMINISTRATORS" "t_deleted_at v = None" by (auto simp: live_teams_def)
  ultimately have "(x, v, u) \<in> set (live_admin_rows d')" using u(2) by (simp add: live_admin_rows_def)
  then show ?thesis by auto
qed



end
