(* ===== verification/Pooling.thy ===== *)
theory Pooling
  imports Prelude
begin

text \<open>
  Whose connection goes back to the pool (\<open>service/conn.rs\<close>). One request borrows connections, runs
  statements on them, starts transactions, and finishes or is dropped at any await. \<open>Conn\<close>'s
  \<open>Drop\<close> decides between the pool and closing; \<open>StoreWork\<close>'s \<open>Drop\<close> marks the request cancelled before
  the connections it holds are dropped. The relation \<open>conn_step\<close> interleaves the program's steps with
  what the driver and the server may do; the property is that the pool never holds a connection the
  next borrower would inherit anything from.
\<close>

section \<open>State\<close>

text \<open>What a borrower inherits: a reply half read, a SET that waits for the next transaction, an open
  transaction, and the depth the driver counts (\<open>transaction_depth\<close>). This, \<open>server_runs\<close> and \<open>released\<close> are not
  code of the repository: they state what the header of \<open>conn.rs\<close> documents of the server and of the driver.\<close>

datatype sent = Plain | SetReadCommitted | Begin | Finish

record session =
  in_flight :: "sent option"
  next_tx_set :: bool
  server_tx :: bool
  depth :: nat

text \<open>\<open>Conn\<close>. The shared flag is the request's, so a connection only records whether it has one.\<close>

record conn =
  pool_conn :: session
  armed :: bool
  has_flag :: bool

text \<open>\<open>StoreWork\<close>, and the request around it: the wrap, the flag, \<open>done\<close>, the connections in use, the pool, and
  how often \<open>close_on_drop\<close> was called for it.\<close>

record request =
  wrapped :: bool
  cancelled :: bool
  completed :: bool
  dropped :: bool
  conns :: "conn list"
  pooled :: "session list"
  closed :: nat

definition fresh_session :: session where
  "fresh_session = \<lparr>in_flight = None, next_tx_set = False, server_tx = False, depth = 0\<rparr>"

definition clean :: "session \<Rightarrow> bool" where
  "clean s \<longleftrightarrow> in_flight s = None \<and> \<not> next_tx_set s \<and> \<not> server_tx s \<and> depth s = 0"

section \<open>The program's part\<close>

text \<open>\<open>store_work(...)\<close>, or work outside it.\<close>

definition store_work :: "bool \<Rightarrow> session list \<Rightarrow> request" where
  "store_work wrap pool = \<lparr>wrapped = wrap, cancelled = False, completed = False, dropped = False, conns = [],
     pooled = pool, closed = 0\<rparr>"

text \<open>\<open>acquire\<close>: the connection with the flag of the task it runs in, not armed.\<close>

definition acquired :: "session \<Rightarrow> request \<Rightarrow> request" where
  "acquired s r = r\<lparr>conns := conns r @ [\<lparr>pool_conn = s, armed = False, has_flag = wrapped r\<rparr>]\<rparr>"

text \<open>\<open>impl Drop for Conn\<close>: closed when armed, when the request is cancelled, or when there is no request to ask.\<close>

definition closes :: "request \<Rightarrow> conn \<Rightarrow> bool" where
  "closes r c \<longleftrightarrow> armed c \<or> (if has_flag c then cancelled r else True)"

text \<open>The driver's own drop of an open transaction, as the header documents it: at depth 1 it rolls back before the release ping, at
  depth 0 it does nothing.\<close>

definition released :: "session \<Rightarrow> session" where
  "released s = (if 0 < depth s then s\<lparr>server_tx := False, depth := 0\<rparr> else s)"

definition drop_conn :: "conn \<Rightarrow> request \<Rightarrow> request" where
  "drop_conn c r = (if closes r c then r\<lparr>closed := closed r + 1\<rparr>
     else r\<lparr>pooled := pooled r @ [released (pool_conn c)]\<rparr>)"

definition drop_all :: "request \<Rightarrow> request" where
  "drop_all r = fold drop_conn (conns r) (r\<lparr>conns := []\<rparr>)"

text \<open>\<open>impl Drop for StoreWork\<close> runs before its \<open>work\<close> field is dropped.\<close>

definition drop_work :: "request \<Rightarrow> request" where
  "drop_work r = drop_all (r\<lparr>cancelled := (if wrapped r \<and> \<not> completed r then True else cancelled r), dropped := True\<rparr>)"

text \<open>A step of \<open>begin_after\<close> or of a statement on connection \<open>i\<close>: arm, send, and what a reply makes of it.
  \<open>BEGIN\<close>'s reply disarms.\<close>

definition upd_conn :: "nat \<Rightarrow> (conn \<Rightarrow> conn) \<Rightarrow> request \<Rightarrow> request" where
  "upd_conn i f r = r\<lparr>conns := (conns r)[i := f (conns r ! i)]\<rparr>"

definition arm :: "conn \<Rightarrow> conn" where
  "arm c = c\<lparr>armed := True\<rparr>"

definition send :: "sent \<Rightarrow> conn \<Rightarrow> conn" where
  "send q c = c\<lparr>pool_conn := (pool_conn c)\<lparr>in_flight := Some q\<rparr>\<rparr>"

text \<open>The server runs what it was sent before the reply is read; the driver counts a transaction only with
  the reply.\<close>

fun server_runs :: "sent \<Rightarrow> session \<Rightarrow> session" where
  "server_runs Plain s = s"
| "server_runs SetReadCommitted s = s\<lparr>next_tx_set := True\<rparr>"
| "server_runs Begin s = s\<lparr>next_tx_set := False, server_tx := True\<rparr>"
| "server_runs Finish s = s\<lparr>server_tx := False\<rparr>"

fun replied :: "sent \<Rightarrow> conn \<Rightarrow> conn" where
  "replied Begin c = c\<lparr>pool_conn := (server_runs Begin (pool_conn c))\<lparr>in_flight := None, depth := 1\<rparr>, armed := False\<rparr>"
| "replied Finish c = c\<lparr>pool_conn := (server_runs Finish (pool_conn c))\<lparr>in_flight := None, depth := 0\<rparr>\<rparr>"
| "replied q c = c\<lparr>pool_conn := (server_runs q (pool_conn c))\<lparr>in_flight := None\<rparr>\<rparr>"

text \<open>An error reply, or none: whether the server took the statement stays open (\<open>took\<close>).\<close>

definition refused :: "bool \<Rightarrow> sent \<Rightarrow> conn \<Rightarrow> conn" where
  "refused took q c = c\<lparr>pool_conn := (if took then server_runs q (pool_conn c) else pool_conn c)\<lparr>in_flight := None\<rparr>\<rparr>"

definition take_out :: "nat \<Rightarrow> 'a list \<Rightarrow> 'a list" where
  "take_out i xs = take i xs @ drop (Suc i) xs"

definition drop_one :: "nat \<Rightarrow> request \<Rightarrow> request" where
  "drop_one i r = drop_conn (conns r ! i) (r\<lparr>conns := take_out i (conns r)\<rparr>)"

section \<open>Steps\<close>

definition running :: "request \<Rightarrow> bool" where
  "running r \<longleftrightarrow> \<not> completed r \<and> \<not> dropped r"

definition idle :: "nat \<Rightarrow> request \<Rightarrow> bool" where
  "idle i r \<longleftrightarrow> i < length (conns r) \<and> in_flight (pool_conn (conns r ! i)) = None"

text \<open>
  One request. A connection is dropped by the work itself only between awaits, so with nothing in flight on
  it; \<open>SET TRANSACTION\<close> and \<open>BEGIN\<close> are sent by \<open>begin_after\<close> alone, which arms first; the work is ready
  when it returns, with every connection it held dropped. The drop of the whole request comes at any moment.
\<close>

inductive conn_step :: "request \<Rightarrow> request \<Rightarrow> bool" where
  borrow: "running r \<Longrightarrow> i < length (pooled r) \<Longrightarrow>
    conn_step r (acquired (pooled r ! i) (r\<lparr>pooled := take_out i (pooled r)\<rparr>))"
| open_new: "running r \<Longrightarrow> conn_step r (acquired fresh_session r)"
| begin_arm: "running r \<Longrightarrow> idle i r \<Longrightarrow> depth (pool_conn (conns r ! i)) = 0 \<Longrightarrow> conn_step r (upd_conn i arm r)"
| begin_set: "running r \<Longrightarrow> idle i r \<Longrightarrow> armed (conns r ! i) \<Longrightarrow> conn_step r (upd_conn i (send SetReadCommitted) r)"
| begin_begin: "running r \<Longrightarrow> idle i r \<Longrightarrow> armed (conns r ! i) \<Longrightarrow> conn_step r (upd_conn i (send Begin) r)"
| statement: "running r \<Longrightarrow> idle i r \<Longrightarrow> conn_step r (upd_conn i (send Plain) r)"
| finish: "running r \<Longrightarrow> idle i r \<Longrightarrow> 0 < depth (pool_conn (conns r ! i)) \<Longrightarrow> conn_step r (upd_conn i (send Finish) r)"
| reply: "running r \<Longrightarrow> i < length (conns r) \<Longrightarrow> in_flight (pool_conn (conns r ! i)) = Some q \<Longrightarrow>
    conn_step r (upd_conn i (replied q) r)"
| no_reply: "running r \<Longrightarrow> i < length (conns r) \<Longrightarrow> in_flight (pool_conn (conns r ! i)) = Some q \<Longrightarrow>
    conn_step r (upd_conn i (refused took q) r)"
| let_go: "running r \<Longrightarrow> idle i r \<Longrightarrow> conn_step r (drop_one i r)"
| ready: "running r \<Longrightarrow> conns r = [] \<Longrightarrow> conn_step r (r\<lparr>completed := True\<rparr>)"
| abandon: "\<not> dropped r \<Longrightarrow> conn_step r (drop_work r)"

text \<open>The process: requests over one pool. Each request sees the pool as the others leave it.\<close>

record process =
  the_pool :: "session list"
  requests :: "request list"

definition on_request :: "nat \<Rightarrow> process \<Rightarrow> request" where
  "on_request i p = (requests p ! i)\<lparr>pooled := the_pool p\<rparr>"

inductive process_step :: "process \<Rightarrow> process \<Rightarrow> bool" where
  arrive: "process_step p (p\<lparr>requests := requests p @ [store_work wrap (the_pool p)]\<rparr>)"
| step: "i < length (requests p) \<Longrightarrow> conn_step (on_request i p) r \<Longrightarrow>
    process_step p (p\<lparr>the_pool := pooled r, requests := (requests p)[i := r]\<rparr>)"

inductive reached :: "process \<Rightarrow> bool" where
  boot: "reached \<lparr>the_pool = [], requests = []\<rparr>"
| onward: "reached p \<Longrightarrow> process_step p q \<Longrightarrow> reached q"

section \<open>The invariant\<close>

definition conn_ok :: "request \<Rightarrow> conn \<Rightarrow> bool" where
  "conn_ok r c \<longleftrightarrow> has_flag c = wrapped r \<and> (armed c \<or>
     \<not> next_tx_set (pool_conn c) \<and> in_flight (pool_conn c) \<notin> {Some SetReadCommitted, Some Begin} \<and>
     (server_tx (pool_conn c) \<longrightarrow> 0 < depth (pool_conn c)))"

definition request_ok :: "request \<Rightarrow> bool" where
  "request_ok r \<longleftrightarrow> (\<forall>c \<in> set (conns r). conn_ok r c) \<and> (\<forall>s \<in> set (pooled r). clean s) \<and>
     (\<not> running r \<longrightarrow> conns r = []) \<and> (cancelled r \<longrightarrow> dropped r)"

lemma clean_fresh [simp]: "clean fresh_session"
  by (simp add: clean_def fresh_session_def)

lemma conn_ok_clean: "clean s \<Longrightarrow> conn_ok r \<lparr>pool_conn = s, armed = False, has_flag = wrapped r\<rparr>"
  by (simp add: conn_ok_def clean_def)

lemma released_clean:
  assumes "conn_ok r c" and "\<not> closes r c" and "in_flight (pool_conn c) = None"
  shows "clean (released (pool_conn c))"
  using assms by (auto simp: conn_ok_def closes_def clean_def released_def)

lemma conn_ok_steps:
  assumes "conn_ok r c"
  shows "conn_ok r (arm c)"
    and "armed c \<Longrightarrow> conn_ok r (send q c)"
    and "q \<noteq> SetReadCommitted \<Longrightarrow> q \<noteq> Begin \<Longrightarrow> conn_ok r (send q c)"
    and "in_flight (pool_conn c) = Some q \<Longrightarrow> conn_ok r (replied q c)"
    and "in_flight (pool_conn c) = Some q \<Longrightarrow> conn_ok r (refused took q c)"
  using assms by (cases q; auto simp: conn_ok_def arm_def send_def refused_def)+

lemma set_take_out: "set (take_out i xs) \<subseteq> set xs"
  by (auto simp: take_out_def dest: in_set_takeD in_set_dropD)

lemma conn_ok_cong: "wrapped r = wrapped r' \<Longrightarrow> conn_ok r c = conn_ok r' c"
  by (simp add: conn_ok_def)

lemma drop_conn_sel [simp]:
  "conns (drop_conn c r) = conns r" "wrapped (drop_conn c r) = wrapped r" "cancelled (drop_conn c r) = cancelled r"
  "completed (drop_conn c r) = completed r" "dropped (drop_conn c r) = dropped r"
  by (simp_all add: drop_conn_def)

lemma fold_drop_sel [simp]:
  "conns (fold drop_conn cs r) = conns r" "wrapped (fold drop_conn cs r) = wrapped r"
  "cancelled (fold drop_conn cs r) = cancelled r" "completed (fold drop_conn cs r) = completed r"
  "dropped (fold drop_conn cs r) = dropped r"
  by (induction cs arbitrary: r) simp_all

text \<open>Every connection a dropped request still holds is closed.\<close>

lemma fold_drop_closes:
  assumes "\<forall>c \<in> set cs. closes r c"
  shows "fold drop_conn cs r = r\<lparr>closed := closed r + length cs\<rparr>"
  using assms
proof (induction cs arbitrary: r)
  case Nil
  then show ?case by simp
next
  case (Cons c cs)
  then have "drop_conn c r = r\<lparr>closed := closed r + 1\<rparr>" by (simp add: drop_conn_def)
  moreover have "\<forall>c \<in> set cs. closes (r\<lparr>closed := closed r + 1\<rparr>) c" using Cons.prems by (auto simp: closes_def)
  ultimately show ?case using Cons.IH [of "r\<lparr>closed := closed r + 1\<rparr>"] by simp
qed

lemma drop_work_closes:
  assumes "request_ok r" and "\<not> completed r"
  shows "drop_work r = r\<lparr>cancelled := cancelled r \<or> wrapped r, dropped := True, conns := [], closed := closed r + length (conns r)\<rparr>"
proof -
  let ?r = "r\<lparr>cancelled := (if wrapped r \<and> \<not> completed r then True else cancelled r), dropped := True\<rparr>"
  have "\<forall>c \<in> set (conns r). closes (?r\<lparr>conns := []\<rparr>) c"
    using assms by (auto simp: request_ok_def conn_ok_def closes_def)
  from fold_drop_closes [OF this] show ?thesis
    using assms(2) by (auto simp: drop_work_def drop_all_def)
qed

lemma upd_conn_sel [simp]:
  "wrapped (upd_conn i f r) = wrapped r" "cancelled (upd_conn i f r) = cancelled r" "completed (upd_conn i f r) = completed r"
  "dropped (upd_conn i f r) = dropped r" "pooled (upd_conn i f r) = pooled r" "running (upd_conn i f r) = running r"
  "closed (upd_conn i f r) = closed r" "length (conns (upd_conn i f r)) = length (conns r)"
  by (simp_all add: upd_conn_def running_def)

lemma request_ok_upd:
  assumes "request_ok r" and "running r" and "i < length (conns r)"
    and "\<And>c. c = conns r ! i \<Longrightarrow> conn_ok r c \<Longrightarrow> conn_ok r (f c)"
  shows "request_ok (upd_conn i f r)"
proof -
  have "conn_ok r c" if "c \<in> set (conns (upd_conn i f r))" for c
    using that assms(1,3) assms(4) [OF refl] set_update_subset_insert [of "conns r" i]
    by (auto simp: upd_conn_def request_ok_def)
  then have "\<forall>c \<in> set (conns (upd_conn i f r)). conn_ok (upd_conn i f r) c"
    using conn_ok_cong [of r "upd_conn i f r"] by simp
  with assms(1,2) show ?thesis by (simp add: request_ok_def)
qed

lemma request_ok_acquired:
  assumes "request_ok r" and "running r" and "clean s" shows "request_ok (acquired s r)"
  using assms conn_ok_clean by (auto simp: request_ok_def acquired_def running_def conn_ok_def clean_def)

lemma request_ok_drop_one:
  assumes "request_ok r" and "running r" and "idle i r" shows "request_ok (drop_one i r)"
proof -
  let ?c = "conns r ! i" and ?r = "r\<lparr>conns := take_out i (conns r)\<rparr>"
  from assms(1,3) have c: "conn_ok r ?c" "in_flight (pool_conn ?c) = None" by (auto simp: request_ok_def idle_def)
  have eq: "closes ?r ?c = closes r ?c" by (simp add: closes_def)
  have "\<forall>s \<in> set (pooled (drop_conn ?c ?r)). clean s"
    using released_clean [OF c(1) _ c(2)] assms(1) eq by (auto simp: drop_conn_def request_ok_def)
  moreover have "\<forall>c \<in> set (take_out i (conns r)). conn_ok r c" using set_take_out assms(1) by (fastforce simp: request_ok_def)
  ultimately show ?thesis using assms(1,2) conn_ok_cong [of r "drop_conn ?c ?r"]
    by (auto simp: drop_one_def request_ok_def running_def)
qed

lemma request_ok_abandon:
  assumes "request_ok r" shows "request_ok (drop_work r)"
proof (cases "completed r")
  case True
  with assms have "conns r = []" by (simp add: request_ok_def running_def)
  with assms True show ?thesis by (simp add: drop_work_def drop_all_def request_ok_def running_def)
next
  case False
  with assms show ?thesis unfolding drop_work_closes [OF assms False] by (simp add: request_ok_def running_def)
qed

lemma conn_step_ok: "conn_step r r' \<Longrightarrow> request_ok r \<Longrightarrow> request_ok r'"
proof (induction rule: conn_step.induct)
  case (borrow r i)
  then have "request_ok (r\<lparr>pooled := take_out i (pooled r)\<rparr>)" "clean (pooled r ! i)"
    using set_take_out [of i "pooled r"] conn_ok_cong [of r "r\<lparr>pooled := take_out i (pooled r)\<rparr>"]
    by (auto simp: request_ok_def running_def)
  then show ?case using borrow by (intro request_ok_acquired) (auto simp: running_def)
next
  case (open_new r)
  then show ?case by (intro request_ok_acquired) (auto simp: request_ok_def running_def conn_ok_def)
next
  case (let_go r i)
  then show ?case by (intro request_ok_drop_one)
next
  case (ready r)
  then show ?case by (simp add: request_ok_def running_def)
next
  case (abandon r)
  then show ?case by (intro request_ok_abandon)
next
  case (statement r i)
  then show ?case by (auto simp: idle_def intro!: request_ok_upd conn_ok_steps(3))
next
  case (finish r i)
  then show ?case by (auto simp: idle_def intro!: request_ok_upd conn_ok_steps(3))
qed (auto simp: idle_def intro!: request_ok_upd conn_ok_steps(1,2,4,5))

section \<open>The process\<close>

definition process_ok :: "process \<Rightarrow> bool" where
  "process_ok p \<longleftrightarrow> (\<forall>s \<in> set (the_pool p). clean s) \<and> (\<forall>r \<in> set (requests p). request_ok (r\<lparr>pooled := the_pool p\<rparr>))"

lemma request_ok_pool:
  "request_ok r \<Longrightarrow> \<forall>s \<in> set p. clean s \<Longrightarrow> request_ok (r\<lparr>pooled := p\<rparr>)"
  using conn_ok_cong [of r "r\<lparr>pooled := p\<rparr>"] by (simp add: request_ok_def running_def)

lemma process_step_ok: "process_step p q \<Longrightarrow> process_ok p \<Longrightarrow> process_ok q"
proof (induction rule: process_step.induct)
  case (arrive p wrap)
  then show ?case by (auto simp: process_ok_def request_ok_def store_work_def running_def)
next
  case (step i p r)
  then have "request_ok (on_request i p)" by (simp add: process_ok_def on_request_def)
  with step have r: "request_ok r" by (simp add: conn_step_ok)
  then have cl: "\<forall>s \<in> set (pooled r). clean s" by (simp add: request_ok_def)
  have "request_ok (x\<lparr>pooled := pooled r\<rparr>)" if "x \<in> set ((requests p)[i := r])" for x
  proof -
    from that set_update_subset_insert [of "requests p" i r] have "x = r \<or> x \<in> set (requests p)" by blast
    then show ?thesis
      using r request_ok_pool [OF _ cl, of x] step request_ok_pool [OF _ cl, of "x\<lparr>pooled := the_pool p\<rparr>"]
      by (auto simp: process_ok_def)
  qed
  with cl show ?case by (simp add: process_ok_def)
qed

lemma reached_ok: "reached p \<Longrightarrow> process_ok p"
  by (induction rule: reached.induct) (simp add: process_ok_def, erule process_step_ok)

section \<open>A run\<close>

text \<open>A request opens a connection and lets it go; a second one borrows it and is waiting for the reply to its
  \<open>SET TRANSACTION\<close>.\<close>

definition settled :: process where
  "settled = \<lparr>the_pool = [fresh_session], requests = [(store_work True [])\<lparr>pooled := [fresh_session]\<rparr>]\<rparr>"

definition waiting_conn :: conn where
  "waiting_conn = \<lparr>pool_conn = fresh_session\<lparr>in_flight := Some SetReadCommitted\<rparr>, armed = True, has_flag = True\<rparr>"

definition waiting :: process where
  "waiting = \<lparr>the_pool = [], requests = [(store_work True [])\<lparr>pooled := [fresh_session]\<rparr>,
     (store_work True [])\<lparr>conns := [waiting_conn]\<rparr>]\<rparr>"

lemma reached_on:
  assumes "reached p" and "i < length (requests p)" and "conn_step (on_request i p) r"
    and "q = p\<lparr>the_pool := pooled r, requests := (requests p)[i := r]\<rparr>"
  shows "reached q"
  using reached.onward [OF assms(1) process_step.step [OF assms(2,3)]] assms(4) by simp

lemma reached_settled: "reached settled"
proof -
  let ?c = "\<lparr>pool_conn = fresh_session, armed = False, has_flag = True\<rparr>"
  have "reached \<lparr>the_pool = [], requests = [store_work True []]\<rparr>"
    using reached.onward [OF reached.boot process_step.arrive] by simp
  then have "reached \<lparr>the_pool = [], requests = [(store_work True [])\<lparr>conns := [?c]\<rparr>]\<rparr>"
    by (rule reached_on [where i = 0, OF _ _ conn_step.open_new])
       (simp_all add: on_request_def running_def store_work_def acquired_def)
  then show ?thesis
    by (rule reached_on [where i = 0, OF _ _ conn_step.let_go [where i = 0]])
       (simp_all add: on_request_def running_def idle_def store_work_def drop_one_def drop_conn_def closes_def take_out_def
         released_def fresh_session_def settled_def)
qed

lemma reached_waiting: "reached waiting"
proof -
  let ?c = "\<lparr>pool_conn = fresh_session, armed = False, has_flag = True\<rparr>"
    and ?r = "(store_work True [])\<lparr>pooled := [fresh_session]\<rparr>"
  have "reached (settled\<lparr>requests := [?r, store_work True [fresh_session]]\<rparr>)"
    using reached.onward [OF reached_settled process_step.arrive [of _ True]] by (simp add: settled_def)
  then have "reached \<lparr>the_pool = [], requests = [?r, (store_work True [])\<lparr>conns := [?c]\<rparr>]\<rparr>"
    by (rule reached_on [where i = 1, OF _ _ conn_step.borrow [where i = 0]])
       (simp_all add: on_request_def running_def store_work_def acquired_def settled_def take_out_def)
  then have "reached \<lparr>the_pool = [], requests = [?r, (store_work True [])\<lparr>conns := [?c\<lparr>armed := True\<rparr>]\<rparr>]\<rparr>"
    by (rule reached_on [where i = 1, OF _ _ conn_step.begin_arm [where i = 0]])
       (simp_all add: on_request_def running_def idle_def store_work_def upd_conn_def arm_def fresh_session_def)
  then show ?thesis
    by (rule reached_on [where i = 1, OF _ _ conn_step.begin_set [where i = 0]])
       (simp_all add: on_request_def running_def idle_def store_work_def upd_conn_def send_def fresh_session_def waiting_def
         waiting_conn_def)
qed

section \<open>Properties\<close>

text \<open>C32. Whatever requests run over the pool, wherever each of them fails or is dropped, and whether or not the
  server ran what was in flight: every connection in the pool is one the next borrower inherits nothing from.
  It has no reply pending, no isolation level set for the next transaction, and no open transaction.\<close>

theorem pool_stays_clean:
  assumes "reached p" and "s \<in> set (the_pool p)"
  shows "in_flight s = None \<and> \<not> next_tx_set s \<and> \<not> server_tx s \<and> depth s = 0"
  using reached_ok [OF assms(1)] assms(2) by (simp add: process_ok_def clean_def)

theorem pool_stays_clean_witness: "\<not> next_tx_set fresh_session \<and> \<not> server_tx fresh_session"
  using pool_stays_clean [OF reached_settled, of fresh_session] by (simp add: settled_def)

text \<open>C34. What a drop does with the connections of a running request: dropped by the caller's deadline, every one is
  closed and none is pooled; let go by the work itself, a connection with no half-started transaction goes back, and
  back only inside \<open>store_work\<close>.\<close>

theorem drop_decides:
  assumes "reached p" and "i < length (requests p)" and "r = on_request i p" and "running r"
  shows "pooled (drop_work r) = pooled r \<and> closed (drop_work r) = closed r + length (conns r) \<and>
     (\<forall>j. idle j r \<longrightarrow> pooled (drop_one j r) = pooled r @
       (if wrapped r \<and> \<not> armed (conns r ! j) then [fresh_session] else []))"
proof (intro conjI allI impI)
  from reached_ok [OF assms(1)] assms(2,3) have ok: "request_ok r" by (simp add: process_ok_def on_request_def)
  from assms(4) have nc: "\<not> completed r" by (simp add: running_def)
  show "pooled (drop_work r) = pooled r" "closed (drop_work r) = closed r + length (conns r)"
    unfolding drop_work_closes [OF ok nc] by simp_all
  fix j
  assume j: "idle j r"
  let ?c = "conns r ! j"
  from ok j have c: "conn_ok r ?c" "in_flight (pool_conn ?c) = None" by (auto simp: request_ok_def idle_def)
  have "\<not> cancelled r" using ok assms(4) by (auto simp: request_ok_def running_def)
  then have cl: "closes r ?c \<longleftrightarrow> \<not> (wrapped r \<and> \<not> armed ?c)" using c(1) by (auto simp: closes_def conn_ok_def)
  have "clean s \<Longrightarrow> s = fresh_session" for s by (simp add: clean_def fresh_session_def)
  with released_clean [OF c(1) _ c(2)] cl
  show "pooled (drop_one j r) = pooled r @ (if wrapped r \<and> \<not> armed ?c then [fresh_session] else [])"
    by (auto simp: drop_one_def drop_conn_def closes_def)
qed

theorem drop_decides_witness:
  "pooled (drop_work (on_request 1 waiting)) = [] \<and> closed (drop_work (on_request 1 waiting)) = 1"
  using drop_decides [OF reached_waiting _ refl, of 1]
  by (simp add: waiting_def on_request_def running_def store_work_def)

end
