(* ===== verification/Migrations.thy ===== *)
theory Migrations
  imports Store
begin

text \<open>
  The schema as the migrations build it (\<open>schema.rs\<close>, \<open>schema/policy.rs\<close>, \<open>schema/team.rs\<close>): every
  migration as the statement it holds, what a statement does to a catalogue of tables, and what the
  whole list leaves. A statement is refused where its table, columns or references are missing, so
  that the order of the list matters.
\<close>

section \<open>Statements\<close>

datatype sql_type = VARCHAR nat | BINARY nat | VARBINARY nat | TINYINT | TINYINT1 | TINYINT_UNSIGNED | INTEGER | INT_UNSIGNED
  | BIGINT_UNSIGNED | DOUBLE | TIMESTAMP

datatype sql_literal = IntLit int | TextLit string

datatype column_default = NoDefault | DefaultNull | DefaultNow | DefaultLit sql_literal

record column =
  col_name :: string
  col_type :: sql_type
  col_null :: bool
  col_default :: column_default
  col_touch :: bool

text \<open>Every foreign key of the schema is \<open>ON DELETE CASCADE\<close>; a check is a column within a list of numbers.\<close>

datatype table_constraint = PrimaryKey "string list" | UniqueKey string "string list" | Key string "string list"
  | ForeignKey string "string list" string "string list" | CheckIn string string "int list"

datatype ddl = CreateTable string "column list" "table_constraint list" | AddColumn string column
  | InsertInto string "string list" "sql_literal list"

record migration =
  mg_version :: nat
  mg_name :: string
  mg_sql :: ddl

definition col :: "string \<Rightarrow> sql_type \<Rightarrow> bool \<Rightarrow> column_default \<Rightarrow> bool \<Rightarrow> column" where
  "col n ty nullable dflt touch = \<lparr>col_name = n, col_type = ty, col_null = nullable, col_default = dflt, col_touch = touch\<rparr>"

section \<open>The migrations\<close>

definition migration_user :: migration where
  "migration_user = \<lparr>mg_version = 1, mg_name = ''create_user'', mg_sql = CreateTable ''iam_user''
       [col ''id'' (VARCHAR 96) False NoDefault False,
        col ''version'' BIGINT_UNSIGNED False (DefaultLit (IntLit 1)) False,
        col ''project_id'' (VARCHAR 255) False (DefaultLit (TextLit '''')) False,
        col ''owner_user_id'' (VARCHAR 64) False (DefaultLit (TextLit '''')) False,
        col ''team_id'' (VARCHAR 64) False (DefaultLit (TextLit '''')) False,
        col ''visibility'' TINYINT False (DefaultLit (IntLit 1)) False,
        col ''created_by'' (VARCHAR 64) False NoDefault False,
        col ''updated_by'' (VARCHAR 64) False NoDefault False,
        col ''created_at'' TIMESTAMP False DefaultNow False,
        col ''updated_at'' TIMESTAMP False DefaultNow True,
        col ''deleted_at'' TIMESTAMP True DefaultNull False,
        col ''external_id_blind_index'' (BINARY 32) False NoDefault False,
        col ''external_id_ciphertext'' (VARBINARY 512) False NoDefault False,
        col ''display_name_ciphertext'' (VARBINARY 512) False NoDefault False]
       [PrimaryKey [''id''],
        UniqueKey ''uq_iam_user_blind_index'' [''external_id_blind_index'']]\<rparr>"

definition migration_password :: migration where
  "migration_password = \<lparr>mg_version = 2, mg_name = ''create_password'', mg_sql = CreateTable ''iam_password''
       [col ''user_id'' (VARCHAR 96) False NoDefault False,
        col ''argon2id_hash'' (VARCHAR 255) False NoDefault False,
        col ''updated_at'' TIMESTAMP False DefaultNow True]
       [PrimaryKey [''user_id''],
        ForeignKey ''fk_iam_password_user'' [''user_id''] ''iam_user'' [''id'']]\<rparr>"

definition migration_team :: migration where
  "migration_team = \<lparr>mg_version = 3, mg_name = ''create_team'', mg_sql = CreateTable ''iam_team''
       [col ''id'' (VARCHAR 96) False NoDefault False,
        col ''version'' BIGINT_UNSIGNED False (DefaultLit (IntLit 1)) False,
        col ''name'' (VARCHAR 255) False NoDefault False,
        col ''created_by'' (VARCHAR 64) False NoDefault False,
        col ''updated_by'' (VARCHAR 64) False NoDefault False,
        col ''created_at'' TIMESTAMP False DefaultNow False,
        col ''updated_at'' TIMESTAMP False DefaultNow True,
        col ''deleted_at'' TIMESTAMP True DefaultNull False]
       [PrimaryKey [''id''],
        UniqueKey ''uq_iam_team_name'' [''name'']]\<rparr>"

definition migration_team_member :: migration where
  "migration_team_member = \<lparr>mg_version = 4, mg_name = ''create_team_member'', mg_sql = CreateTable ''iam_team_member''
       [col ''team_id'' (VARCHAR 96) False NoDefault False,
        col ''user_id'' (VARCHAR 96) False NoDefault False,
        col ''added_by'' (VARCHAR 64) False NoDefault False,
        col ''added_at'' TIMESTAMP False DefaultNow False]
       [PrimaryKey [''team_id'', ''user_id''],
        Key ''ix_iam_team_member_user'' [''user_id''],
        ForeignKey ''fk_iam_team_member_team'' [''team_id''] ''iam_team'' [''id''],
        ForeignKey ''fk_iam_team_member_user'' [''user_id''] ''iam_user'' [''id'']]\<rparr>"

definition migration_credential :: migration where
  "migration_credential = \<lparr>mg_version = 5, mg_name = ''create_credential'', mg_sql = CreateTable ''iam_credential''
       [col ''id'' (VARCHAR 96) False NoDefault False,
        col ''user_id'' (VARCHAR 96) False NoDefault False,
        col ''token_hash'' (BINARY 32) False NoDefault False,
        col ''label'' (VARCHAR 255) False (DefaultLit (TextLit '''')) False,
        col ''created_at'' TIMESTAMP False DefaultNow False,
        col ''expires_at'' TIMESTAMP True DefaultNull False,
        col ''revoked_at'' TIMESTAMP True DefaultNull False]
       [PrimaryKey [''id''],
        UniqueKey ''uq_iam_credential_token'' [''token_hash''],
        Key ''ix_iam_credential_user'' [''user_id''],
        ForeignKey ''fk_iam_credential_user'' [''user_id''] ''iam_user'' [''id'']]\<rparr>"

definition migration_enrolment :: migration where
  "migration_enrolment = \<lparr>mg_version = 6, mg_name = ''create_enrolment'', mg_sql = CreateTable ''iam_enrolment''
       [col ''id'' (VARCHAR 96) False NoDefault False,
        col ''user_id'' (VARCHAR 96) False NoDefault False,
        col ''secret_hash'' (BINARY 32) False NoDefault False,
        col ''created_at'' TIMESTAMP False DefaultNow False,
        col ''expires_at'' TIMESTAMP False NoDefault False,
        col ''spent_at'' TIMESTAMP True DefaultNull False]
       [PrimaryKey [''id''],
        UniqueKey ''uq_iam_enrolment_secret'' [''secret_hash''],
        Key ''ix_iam_enrolment_user'' [''user_id''],
        ForeignKey ''fk_iam_enrolment_user'' [''user_id''] ''iam_user'' [''id'']]\<rparr>"

definition migration_enrolment_redemption :: migration where
  "migration_enrolment_redemption = \<lparr>mg_version = 7, mg_name = ''create_enrolment_redemption'', mg_sql = CreateTable ''iam_enrolment_redemption''
       [col ''idempotency_key'' (VARCHAR 255) False NoDefault False,
        col ''secret_hash'' (BINARY 32) False NoDefault False,
        col ''enrolment_id'' (VARCHAR 96) False NoDefault False,
        col ''user_id'' (VARCHAR 96) False NoDefault False,
        col ''redeemed_at'' TIMESTAMP False DefaultNow False]
       [PrimaryKey [''idempotency_key''],
        Key ''ix_iam_enrolment_redemption_enrolment'' [''enrolment_id''],
        ForeignKey ''fk_iam_enrolment_redemption_enrolment'' [''enrolment_id''] ''iam_enrolment'' [''id'']]\<rparr>"

definition migration_user_is_admin :: migration where
  "migration_user_is_admin = \<lparr>mg_version = 8, mg_name = ''add_user_is_admin'', mg_sql = AddColumn ''iam_user'' (col ''is_admin'' TINYINT1 False (DefaultLit (IntLit 0)) False)\<rparr>"

definition migration_rate_limit_override :: migration where
  "migration_rate_limit_override = \<lparr>mg_version = 9, mg_name = ''create_rate_limit_override'', mg_sql = CreateTable ''iam_rate_limit_override''
       [col ''user_id'' (VARCHAR 96) False NoDefault False,
        col ''module'' (VARCHAR 255) False NoDefault False,
        col ''kind'' INTEGER False NoDefault False,
        col ''rate'' DOUBLE False NoDefault False,
        col ''burst'' INT_UNSIGNED False NoDefault False,
        col ''updated_at'' TIMESTAMP False DefaultNow True]
       [PrimaryKey [''user_id'', ''module'', ''kind''],
        ForeignKey ''fk_iam_rate_limit_override_user'' [''user_id''] ''iam_user'' [''id'']]\<rparr>"

definition migration_org_setting :: migration where
  "migration_org_setting = \<lparr>mg_version = 10, mg_name = ''create_org_setting'', mg_sql = CreateTable ''iam_org_setting''
       [col ''name'' (VARCHAR 64) False NoDefault False,
        col ''value'' INTEGER False NoDefault False,
        col ''locked'' TINYINT1 False NoDefault False,
        col ''updated_at'' TIMESTAMP False DefaultNow True]
       [PrimaryKey [''name''],
        CheckIn ''ck_iam_org_setting_value'' ''value'' [1, 2]]\<rparr>"

definition migration_team_setting_override :: migration where
  "migration_team_setting_override = \<lparr>mg_version = 11, mg_name = ''create_team_setting_override'', mg_sql = CreateTable ''iam_team_setting_override''
       [col ''name'' (VARCHAR 64) False NoDefault False,
        col ''team_id'' (VARCHAR 96) False NoDefault False,
        col ''value'' INTEGER False NoDefault False,
        col ''updated_at'' TIMESTAMP False DefaultNow True]
       [PrimaryKey [''name'', ''team_id''],
        CheckIn ''ck_iam_team_setting_override_value'' ''value'' [1, 2],
        ForeignKey ''fk_iam_team_setting_override_team'' [''team_id''] ''iam_team'' [''id'']]\<rparr>"

definition migration_seed_owner_reads_own_record :: migration where
  "migration_seed_owner_reads_own_record = \<lparr>mg_version = 12, mg_name = ''seed_owner_reads_own_record'', mg_sql = InsertInto ''iam_org_setting'' [''name'', ''value'', ''locked''] [TextLit ''owner_reads_own_record'', IntLit 2, IntLit 1]\<rparr>"

definition migration_inherited_setting_write :: migration where
  "migration_inherited_setting_write = \<lparr>mg_version = 13, mg_name = ''create_inherited_setting_write'', mg_sql = CreateTable ''iam_inherited_setting_write''
       [col ''idempotency_key'' (VARCHAR 255) False NoDefault False,
        col ''scope'' INTEGER False NoDefault False,
        col ''team_id'' (VARCHAR 96) True DefaultNull False,
        col ''name'' (VARCHAR 64) False NoDefault False,
        col ''value'' INTEGER True DefaultNull False,
        col ''locked'' TINYINT1 True DefaultNull False,
        col ''clear_requested'' TINYINT1 False NoDefault False,
        col ''written_at'' TIMESTAMP False DefaultNow False]
       [PrimaryKey [''idempotency_key'']]\<rparr>"

definition migration_key_identity :: migration where
  "migration_key_identity = \<lparr>mg_version = 14, mg_name = ''create_key_identity'', mg_sql = CreateTable ''iam_key_identity''
       [col ''singleton'' TINYINT_UNSIGNED False (DefaultLit (IntLit 1)) False,
        col ''derivation_version'' INT_UNSIGNED False NoDefault False,
        col ''key_fingerprint'' (VARBINARY 255) False NoDefault False,
        col ''idempotency_key'' (VARCHAR 255) False (DefaultLit (TextLit '''')) False,
        col ''recorded_at'' TIMESTAMP False DefaultNow False]
       [PrimaryKey [''singleton''],
        CheckIn ''ck_iam_key_identity_singleton'' ''singleton'' [1]]\<rparr>"

definition migration_enrolment_revokes_existing_credentials :: migration where
  "migration_enrolment_revokes_existing_credentials = \<lparr>mg_version = 15, mg_name = ''enrolment_revokes_existing_credentials'', mg_sql = AddColumn ''iam_enrolment'' (col ''revoke_existing_credentials'' TINYINT1 False (DefaultLit (IntLit 0)) False)\<rparr>"

definition migration_user_credential_epoch :: migration where
  "migration_user_credential_epoch = \<lparr>mg_version = 16, mg_name = ''user_credential_epoch'', mg_sql = AddColumn ''iam_user'' (col ''credential_epoch'' BIGINT_UNSIGNED False (DefaultLit (IntLit 0)) False)\<rparr>"

definition migration_enrolment_voided_at :: migration where
  "migration_enrolment_voided_at = \<lparr>mg_version = 17, mg_name = ''enrolment_voided_at'', mg_sql = AddColumn ''iam_enrolment'' (col ''voided_at'' TIMESTAMP True DefaultNull False)\<rparr>"

definition migration_redemption_credential_epoch :: migration where
  "migration_redemption_credential_epoch = \<lparr>mg_version = 18, mg_name = ''redemption_credential_epoch'', mg_sql = AddColumn ''iam_enrolment_redemption'' (col ''credential_epoch'' BIGINT_UNSIGNED False (DefaultLit (IntLit 0)) False)\<rparr>"

definition migration_team_member_pending :: migration where
  "migration_team_member_pending = \<lparr>mg_version = 19, mg_name = ''create_team_member_pending'', mg_sql = CreateTable ''iam_team_member_pending''
       [col ''team_id'' (VARCHAR 96) False NoDefault False,
        col ''user_id'' (VARCHAR 96) False NoDefault False,
        col ''added_at'' TIMESTAMP False DefaultNow False]
       [PrimaryKey [''team_id'', ''user_id''],
        ForeignKey ''fk_iam_team_member_pending_team'' [''team_id''] ''iam_team'' [''id'']]\<rparr>"

definition migration_team_sync_lock :: migration where
  "migration_team_sync_lock = \<lparr>mg_version = 20, mg_name = ''create_team_sync_lock'', mg_sql = CreateTable ''iam_team_sync_lock''
       [col ''id'' TINYINT False NoDefault False]
       [PrimaryKey [''id''],
        CheckIn ''ck_iam_team_sync_lock_one'' ''id'' [1]]\<rparr>"

definition migration_seed_team_sync_lock :: migration where
  "migration_seed_team_sync_lock = \<lparr>mg_version = 21, mg_name = ''seed_team_sync_lock'', mg_sql = InsertInto ''iam_team_sync_lock'' [''id''] [IntLit 1]\<rparr>"

definition migration_list :: "migration list" where
  "migration_list =
    [migration_user,
     migration_password,
     migration_team,
     migration_team_member,
     migration_credential,
     migration_enrolment,
     migration_enrolment_redemption,
     migration_user_is_admin,
     migration_rate_limit_override,
     migration_org_setting,
     migration_team_setting_override,
     migration_seed_owner_reads_own_record,
     migration_inherited_setting_write,
     migration_key_identity,
     migration_enrolment_revokes_existing_credentials,
     migration_user_credential_epoch,
     migration_enrolment_voided_at,
     migration_redemption_credential_epoch,
     migration_team_member_pending,
     migration_team_sync_lock,
     migration_seed_team_sync_lock]"

text \<open>\<open>migrations()\<close> hands the list to \<open>MigrationSet::new\<close>, a parameter here.\<close>

definition migrations :: "(migration list \<Rightarrow> 'e + 's) \<Rightarrow> 'e + 's" where
  "migrations new = new migration_list"

section \<open>The catalogue\<close>

datatype sql_value = Value sql_literal | NullValue | NowValue

record table =
  tb_name :: string
  tb_columns :: "column list"
  tb_constraints :: "table_constraint list"
  tb_rows :: "(string \<times> sql_value) list list"

definition default_value :: "column \<Rightarrow> sql_value option" where
  "default_value c = (case col_default c of
       NoDefault \<Rightarrow> if col_null c then Some NullValue else None
     | DefaultNull \<Rightarrow> Some NullValue
     | DefaultNow \<Rightarrow> Some NowValue
     | DefaultLit l \<Rightarrow> Some (Value l))"

text \<open>What \<open>ADD COLUMN\<close> puts into the rows there are. A NOT NULL column without a default is accepted by the server,
  which fills it with the implicit default of its type; it is the inserts that leave it out that are refused.\<close>

fun implicit_value :: "sql_type \<Rightarrow> sql_value" where
  "implicit_value (VARCHAR n) = Value (TextLit '''')"
| "implicit_value (VARBINARY n) = Value (TextLit '''')"
| "implicit_value (BINARY n) = Value (TextLit (replicate n (CHR 0x00)))"
| "implicit_value TIMESTAMP = Value (TextLit ''0000-00-00 00:00:00'')"
| "implicit_value _ = Value (IntLit 0)"

definition fill_value :: "column \<Rightarrow> sql_value" where
  "fill_value c = (case default_value c of Some v \<Rightarrow> v | None \<Rightarrow> implicit_value (col_type c))"

definition find_table :: "string \<Rightarrow> table list \<Rightarrow> table option" where
  "find_table n ts = find (\<lambda>t. tb_name t = n) ts"

definition types_of :: "column list \<Rightarrow> string list \<Rightarrow> sql_type option list" where
  "types_of cs ks = map (\<lambda>k. map_option col_type (find (\<lambda>c. col_name c = k) cs)) ks"

fun constraint_ok :: "table list \<Rightarrow> column list \<Rightarrow> table_constraint \<Rightarrow> bool" where
  "constraint_ok ts cs (PrimaryKey ks) = list_all (\<lambda>k. list_ex (\<lambda>c. col_name c = k \<and> \<not> col_null c) cs) ks"
| "constraint_ok ts cs (UniqueKey n ks) = list_all (\<lambda>k. list_ex (\<lambda>c. col_name c = k) cs) ks"
| "constraint_ok ts cs (Key n ks) = list_all (\<lambda>k. list_ex (\<lambda>c. col_name c = k) cs) ks"
| "constraint_ok ts cs (ForeignKey n ks t ks') = (list_all (\<lambda>k. list_ex (\<lambda>c. col_name c = k) cs) ks \<and>
     (case find_table t ts of
        None \<Rightarrow> False
      | Some tb \<Rightarrow> PrimaryKey ks' \<in> set (tb_constraints tb) \<and> types_of cs ks = types_of (tb_columns tb) ks'))"
| "constraint_ok ts cs (CheckIn n k vs) = list_ex (\<lambda>c. col_name c = k) cs"

definition accepts_insert :: "table \<Rightarrow> string list \<Rightarrow> bool" where
  "accepts_insert t ns \<longleftrightarrow> distinct ns \<and> list_all (\<lambda>k. list_ex (\<lambda>c. col_name c = k) (tb_columns t)) ns \<and>
     list_all (\<lambda>c. col_name c \<in> set ns \<or> default_value c \<noteq> None) (tb_columns t)"

definition row_of :: "table \<Rightarrow> string list \<Rightarrow> sql_literal list \<Rightarrow> (string \<times> sql_value) list" where
  "row_of t ns vs = map (\<lambda>c. (col_name c, case map_of (zip ns vs) (col_name c) of
       Some l \<Rightarrow> Value l | None \<Rightarrow> (case default_value c of Some v \<Rightarrow> v | None \<Rightarrow> NullValue))) (tb_columns t)"

fun row_ok :: "(string \<times> sql_value) list list \<Rightarrow> (string \<times> sql_value) list \<Rightarrow> table_constraint \<Rightarrow> bool" where
  "row_ok rs r (PrimaryKey ks) = (\<not> list_ex (\<lambda>r'. map (map_of r') ks = map (map_of r) ks) rs)"
| "row_ok rs r (UniqueKey n ks) = (\<not> list_ex (\<lambda>r'. map (map_of r') ks = map (map_of r) ks) rs)"
| "row_ok rs r (CheckIn n k vs) = (case map_of r k of Some (Value (IntLit i)) \<Rightarrow> i \<in> set vs | _ \<Rightarrow> False)"
| "row_ok rs r _ = True"

definition put_table :: "table \<Rightarrow> table list \<Rightarrow> table list" where
  "put_table t ts = map (\<lambda>x. if tb_name x = tb_name t then t else x) ts"

definition add_column :: "column \<Rightarrow> sql_value \<Rightarrow> table \<Rightarrow> table" where
  "add_column c v t = t\<lparr>tb_columns := tb_columns t @ [c], tb_rows := map (\<lambda>r. r @ [(col_name c, v)]) (tb_rows t)\<rparr>"

fun apply_ddl :: "ddl \<Rightarrow> table list \<Rightarrow> table list option" where
  "apply_ddl (CreateTable n cs ks) ts =
     (if find_table n ts = None \<and> distinct (map col_name cs) \<and> list_all (constraint_ok ts cs) ks
      then Some (ts @ [\<lparr>tb_name = n, tb_columns = cs, tb_constraints = ks, tb_rows = []\<rparr>]) else None)"
| "apply_ddl (AddColumn n c) ts = (case find_table n ts of
       None \<Rightarrow> None
     | Some t \<Rightarrow> if col_name c \<in> set (map col_name (tb_columns t)) then None
         else Some (put_table (add_column c (fill_value c) t) ts))"
| "apply_ddl (InsertInto n ns vs) ts = (case find_table n ts of
       None \<Rightarrow> None
     | Some t \<Rightarrow> if accepts_insert t ns \<and> length ns = length vs \<and> list_all (row_ok (tb_rows t) (row_of t ns vs)) (tb_constraints t)
         then Some (put_table (t\<lparr>tb_rows := tb_rows t @ [row_of t ns vs]\<rparr>) ts) else None)"

fun migrate :: "migration list \<Rightarrow> table list \<Rightarrow> table list option" where
  "migrate [] ts = Some ts"
| "migrate (m # ms) ts = (case apply_ddl (mg_sql m) ts of None \<Rightarrow> None | Some ts' \<Rightarrow> migrate ms ts')"

definition schema_at :: "nat \<Rightarrow> table list option" where
  "schema_at n = migrate (take n migration_list) []"

lemmas migration_defs = migration_user_def migration_password_def migration_team_def migration_team_member_def migration_credential_def migration_enrolment_def migration_enrolment_redemption_def migration_user_is_admin_def migration_rate_limit_override_def migration_org_setting_def migration_team_setting_override_def migration_seed_owner_reads_own_record_def migration_inherited_setting_write_def migration_key_identity_def migration_enrolment_revokes_existing_credentials_def migration_user_credential_epoch_def migration_enrolment_voided_at_def migration_redemption_credential_epoch_def migration_team_member_pending_def migration_team_sync_lock_def migration_seed_team_sync_lock_def

section \<open>What a migration keeps\<close>

definition extends :: "table \<Rightarrow> table \<Rightarrow> bool" where
  "extends t t' \<longleftrightarrow> tb_name t' = tb_name t \<and> tb_constraints t' = tb_constraints t \<and>
     (\<exists>new. tb_columns t' = tb_columns t @ new \<and> (\<forall>c \<in> set new. default_value c \<noteq> None))"

lemma extends_refl [simp]: "extends t t"
  by (simp add: extends_def)

lemma extends_trans: "extends t u \<Longrightarrow> extends u v \<Longrightarrow> extends t v"
  by (auto simp: extends_def)

lemma extends_accepts: "extends t t' \<Longrightarrow> accepts_insert t ns \<Longrightarrow> accepts_insert t' ns"
  by (auto simp: extends_def accepts_insert_def list_all_iff)

lemma find_put:
  assumes "find_table (tb_name u) ts = Some t"
  shows "find_table n (put_table u ts) = (if n = tb_name u then Some u else find_table n ts)"
proof (cases "n = tb_name u")
  case True
  with assms show ?thesis by (induction ts) (auto simp: find_table_def put_table_def)
next
  case False
  then show ?thesis by (induction ts) (auto simp: find_table_def put_table_def)
qed

lemma find_table_name: "find_table n ts = Some t \<Longrightarrow> tb_name t = n"
  by (auto simp: find_table_def find_Some_iff)

lemma find_append: "find_table n ts = Some t \<Longrightarrow> find_table n (ts @ us) = Some t"
  by (induction ts) (auto simp: find_table_def)

lemma put_extends:
  assumes "find_table n ts = Some t" and "find_table m ts = Some u" and "extends u u'"
  shows "\<exists>t'. find_table n (put_table u' ts) = Some t' \<and> extends t t'"
proof -
  from assms have "tb_name u' = m" "find_table (tb_name u') ts = Some u" by (auto simp: extends_def dest: find_table_name)
  with assms find_put [OF this(2), of n] show ?thesis by auto
qed

text \<open>A statement older inserts survive: the column it adds, if any, has a value of its own.\<close>

fun backfills :: "ddl \<Rightarrow> bool" where
  "backfills (AddColumn n c) = (default_value c \<noteq> None)"
| "backfills _ = True"

lemma every_migration_backfills: "\<forall>m \<in> set migration_list. backfills (mg_sql m)"
  by (simp add: migration_list_def migration_defs default_value_def col_def)

lemma apply_extends:
  assumes "apply_ddl q ts = Some ts'" and "backfills q" and "find_table n ts = Some t"
  shows "\<exists>t'. find_table n ts' = Some t' \<and> extends t t'"
proof (cases q)
  case (CreateTable m cs ks)
  with assms show ?thesis by (auto simp: find_append split: if_splits)
next
  case (AddColumn m c)
  with assms(1) obtain u where u: "find_table m ts = Some u"
      and ts': "ts' = put_table (add_column c (fill_value c) u) ts"
    by (auto split: option.splits if_splits)
  have "extends u (add_column c (fill_value c) u)" using assms(2) AddColumn by (simp add: extends_def add_column_def)
  from put_extends [OF assms(3) u this] show ?thesis by (simp add: ts')
next
  case (InsertInto m ns vs)
  with assms(1) obtain u where u: "find_table m ts = Some u"
      and ts': "ts' = put_table (u\<lparr>tb_rows := tb_rows u @ [row_of u ns vs]\<rparr>) ts"
    by (auto split: option.splits if_splits)
  have "extends u (u\<lparr>tb_rows := tb_rows u @ [row_of u ns vs]\<rparr>)" by (simp add: extends_def)
  from put_extends [OF assms(3) u this] show ?thesis by (simp add: ts')
qed

lemma migrate_extends:
  "migrate ms ts = Some ts' \<Longrightarrow> \<forall>m \<in> set ms. backfills (mg_sql m) \<Longrightarrow> find_table n ts = Some t \<Longrightarrow>
   \<exists>t'. find_table n ts' = Some t' \<and> extends t t'"
proof (induction ms arbitrary: ts t)
  case Nil
  then show ?case by auto
next
  case (Cons m ms)
  from Cons.prems(1) obtain us where us: "apply_ddl (mg_sql m) ts = Some us" "migrate ms us = Some ts'"
    by (auto split: option.splits)
  from apply_extends [OF us(1) _ Cons.prems(3)] Cons.prems(2) obtain u where "find_table n us = Some u" "extends t u" by auto
  with Cons.IH [OF us(2)] Cons.prems(2) show ?case by (auto intro: extends_trans)
qed

lemma migrate_append: "migrate (ms @ ns) ts = Option.bind (migrate ms ts) (migrate ns)"
  by (induction ms arbitrary: ts) (auto split: option.splits)

lemma schema_at_last: "schema_at 21 \<noteq> None"
  by code_simp

lemma schema_at_some: "\<exists>ts. schema_at n = Some ts"
proof -
  have "length migration_list = 21" by (simp add: migration_list_def)
  then have "migrate migration_list [] \<noteq> None" using schema_at_last by (simp add: schema_at_def)
  then have "Option.bind (migrate (take n migration_list) []) (migrate (drop n migration_list)) \<noteq> None"
    using migrate_append [of "take n migration_list" "drop n migration_list" "[]"] by simp
  then show ?thesis by (cases "migrate (take n migration_list) []") (simp_all add: schema_at_def)
qed

text \<open>What the tables hold.\<close>

definition rows_in :: "string \<Rightarrow> table list \<Rightarrow> (string \<times> sql_value) list list" where
  "rows_in n ts = (case find_table n ts of None \<Rightarrow> [] | Some t \<Rightarrow> tb_rows t)"

definition setting_in :: "(string \<times> sql_value) list \<Rightarrow> org_setting_row option" where
  "setting_in r = (case (map_of r ''name'', map_of r ''value'', map_of r ''locked'') of
       (Some (Value (TextLit n)), Some (Value (IntLit v)), Some (Value (IntLit l))) \<Rightarrow>
         Some \<lparr>os_name = n, os_value = v, os_locked = (l \<noteq> 0)\<rparr>
     | _ \<Rightarrow> None)"


text \<open>The longest text a column takes.\<close>

definition width_in :: "table list \<Rightarrow> string \<times> string \<Rightarrow> nat option" where
  "width_in ts x = Option.bind (find_table (fst x) ts) (\<lambda>t.
     Option.bind (find (\<lambda>c. col_name c = snd x) (tb_columns t)) (\<lambda>c. case col_type c of VARCHAR w \<Rightarrow> Some w | _ \<Rightarrow> None))"

definition fits :: "string \<times> string \<Rightarrow> string \<Rightarrow> bool" where
  "fits x s \<longleftrightarrow> (case schema_at 21 of None \<Rightarrow> False | Some ts \<Rightarrow> (case width_in ts x of None \<Rightarrow> False | Some w \<Rightarrow> length s \<le> w))"

text \<open>The columns that hold a person's id, a team's id, and an actor.\<close>

definition user_id_columns :: "(string \<times> string) list" where
  "user_id_columns = [(''iam_user'', ''id''), (''iam_password'', ''user_id''), (''iam_team_member'', ''user_id''), (''iam_credential'', ''user_id''),
     (''iam_enrolment'', ''user_id''), (''iam_enrolment_redemption'', ''user_id''), (''iam_rate_limit_override'', ''user_id''),
     (''iam_team_member_pending'', ''user_id'')]"

definition team_id_columns :: "(string \<times> string) list" where
  "team_id_columns = [(''iam_team'', ''id''), (''iam_team_member'', ''team_id''), (''iam_team_setting_override'', ''team_id''),
     (''iam_team_member_pending'', ''team_id'')]"

lemma widths:
  "\<exists>ts. schema_at 21 = Some ts \<and> (\<forall>x \<in> set (user_id_columns @ team_id_columns). width_in ts x = Some 96) \<and>
     width_in ts (''iam_team'', ''name'') = Some 255 \<and> width_in ts (''iam_password'', ''argon2id_hash'') = Some 255 \<and>
     width_in ts (''iam_org_setting'', ''name'') = Some 64"
proof -
  have "(case schema_at 21 of None \<Rightarrow> False | Some ts \<Rightarrow>
     list_all (\<lambda>x. width_in ts x = Some 96) (user_id_columns @ team_id_columns) \<and>
     width_in ts (''iam_team'', ''name'') = Some 255 \<and> width_in ts (''iam_password'', ''argon2id_hash'') = Some 255 \<and>
     width_in ts (''iam_org_setting'', ''name'') = Some 64)"
    by code_simp
  then show ?thesis by (auto simp: list_all_iff split: option.splits)
qed

section \<open>Properties\<close>

text \<open>What the migrations leave in the tables is the store the service starts from: the one organisation
  setting, the one row of the synchronisation lock, and nothing else.\<close>

lemma migrated_is_initial:
  "\<exists>ts. schema_at 21 = Some ts \<and>
     map Some (iam_org_setting initial_db) = map setting_in (rows_in ''iam_org_setting'' ts) \<and>
     rows_in ''iam_team_sync_lock'' ts = (if iam_team_sync_lock initial_db then [[(''id'', Value (IntLit 1))]] else []) \<and>
     map tb_name (filter (\<lambda>t. tb_rows t \<noteq> []) ts) = [''iam_org_setting'', ''iam_team_sync_lock''] \<and>
     initial_db\<lparr>iam_org_setting := [], iam_team_sync_lock := False\<rparr> =
       \<lparr>iam_user = [], iam_password = [], iam_team = [], iam_team_member = [], iam_credential = [], iam_enrolment = [],
        iam_enrolment_redemption = [], iam_rate_limit_override = [], iam_org_setting = [], iam_team_setting_override = [],
        iam_inherited_setting_write = [], iam_key_identity = None, iam_team_member_pending = [], iam_team_sync_lock = False\<rparr>"
proof -
  have "(case schema_at 21 of None \<Rightarrow> False | Some ts \<Rightarrow>
     map setting_in (rows_in ''iam_org_setting'' ts) = [Some \<lparr>os_name = ''owner_reads_own_record'', os_value = 2, os_locked = True\<rparr>] \<and>
     rows_in ''iam_team_sync_lock'' ts = [[(''id'', Value (IntLit 1))]] \<and>
     map tb_name (filter (\<lambda>t. tb_rows t \<noteq> []) ts) = [''iam_org_setting'', ''iam_team_sync_lock''])"
    by code_simp
  then show ?thesis by (auto simp: initial_db_def split: option.splits)
qed

text \<open>C36. A replica of an older version keeps writing while a newer one migrates: every statement of the list applies
  where it stands, and an insert that one state of the schema accepts, naming only the columns it knows, every later
  state accepts, into a table with the same constraints whose first columns are the earlier ones.\<close>

theorem older_inserts_still_accepted:
  assumes "schema_at k = Some ts" and "k \<le> n" and "find_table x ts = Some t" and "accepts_insert t ns"
  shows "\<exists>ts' t'. schema_at n = Some ts' \<and> find_table x ts' = Some t' \<and> accepts_insert t' ns \<and>
     tb_constraints t' = tb_constraints t \<and> take (length (tb_columns t)) (tb_columns t') = tb_columns t"
proof -
  from schema_at_some obtain ts' where ts': "schema_at n = Some ts'" by blast
  let ?later = "take (n - k) (drop k migration_list)"
  have "take n migration_list = take k migration_list @ ?later"
    using assms(2) by (metis le_add_diff_inverse take_add)
  with assms(1) ts' have "migrate ?later ts = Some ts'"
    by (simp add: schema_at_def migrate_append)
  moreover have "\<forall>m \<in> set ?later. backfills (mg_sql m)"
    using every_migration_backfills by (auto dest: in_set_takeD in_set_dropD)
  ultimately obtain t' where t': "find_table x ts' = Some t'" "extends t t'" using migrate_extends assms(3) by blast
  with ts' extends_accepts [OF t'(2) assms(4)] show ?thesis by (auto simp: extends_def)
qed

theorem older_inserts_still_accepted_witness:
  "\<exists>ts' t'. schema_at 21 = Some ts' \<and> find_table ''iam_enrolment'' ts' = Some t' \<and>
     accepts_insert t' [''id'', ''user_id'', ''secret_hash'', ''expires_at'']"
proof -
  obtain ns where ns: "ns = [''id'', ''user_id'', ''secret_hash'', ''expires_at'']" by blast
  have "(case schema_at 6 of None \<Rightarrow> False | Some ts \<Rightarrow> (case find_table ''iam_enrolment'' ts of
      None \<Rightarrow> False | Some t \<Rightarrow> accepts_insert t [''id'', ''user_id'', ''secret_hash'', ''expires_at'']))" by code_simp
  then obtain ts t where 6: "schema_at 6 = Some ts" "find_table ''iam_enrolment'' ts = Some t" "accepts_insert t ns"
    unfolding ns by (auto split: option.splits)
  from older_inserts_still_accepted [OF 6(1) _ 6(2,3), of 21] show ?thesis unfolding ns by auto
qed

end
