(* ===== verification/Boot.thy ===== *)
theory Boot
  imports Service Migrations "HOL-Library.Sublist"
begin

text \<open>
  What the process decides before it serves (\<open>boot.rs\<close>, \<open>boot/lock.rs\<close>, \<open>serve.rs\<close>, \<open>rotate.rs\<close>, \<open>main.rs\<close>): the
  knobs it reads and refuses to invent, and the order of boot. The environment is a lookup. What the
  other crates do is the record \<open>crates\<close>: each field is one call into them, a refusal is the sentence it
  displays, and a value only passed on is a \<open>handle\<close>.
\<close>

section \<open>Numbers\<close>

text \<open>\<open>str::parse\<close> for an integer type, and the sentences of its errors.\<close>

datatype int_error = Empty | InvalidDigit | PosOverflow | NegOverflow

definition int_error_text :: "int_error \<Rightarrow> string" where
  "int_error_text e = (case e of
       Empty \<Rightarrow> ''cannot parse integer from empty string''
     | InvalidDigit \<Rightarrow> ''invalid digit found in string''
     | PosOverflow \<Rightarrow> ''number too large to fit in target type''
     | NegOverflow \<Rightarrow> ''number too small to fit in target type'')"

primrec up_to :: "int \<Rightarrow> string \<Rightarrow> int \<Rightarrow> int_error + int" where
  "up_to hi [] a = Inr a"
| "up_to hi (c # cs) a = (if \<not> is_digit c then Inl InvalidDigit
     else let b = a * 10 + int (digit_value c) in if hi < b then Inl PosOverflow else up_to hi cs b)"

primrec down_to :: "int \<Rightarrow> string \<Rightarrow> int \<Rightarrow> int_error + int" where
  "down_to lo [] a = Inr a"
| "down_to lo (c # cs) a = (if \<not> is_digit c then Inl InvalidDigit
     else let b = a * 10 - int (digit_value c) in if b < lo then Inl NegOverflow else down_to lo cs b)"

definition parse_num :: "int \<Rightarrow> int \<Rightarrow> string \<Rightarrow> int_error + int" where
  "parse_num lo hi s = (case s of
       [] \<Rightarrow> Inl Empty
     | c # cs \<Rightarrow>
         if cs = [] \<and> c \<in> {CHR ''+'', CHR ''-''} then Inl InvalidDigit
         else if c = CHR ''+'' then up_to hi cs 0
         else if c = CHR ''-'' \<and> lo < 0 then down_to lo cs 0
         else up_to hi s 0)"

section \<open>The other crates\<close>

type_synonym handle = nat
type_synonym lookup = "string \<Rightarrow> string option"

record pool_config =
  pc_host :: string
  pc_port :: int
  pc_database :: string
  pc_username :: string
  pc_max_connections :: int
  pc_replicas :: int
  pc_engine_max_connections :: int
  pc_operator_reserve :: int
  pc_acquire_timeout :: int
  pc_idle_timeout :: int
  pc_max_lifetime :: int
  pc_ssl_mode :: handle
  pc_ssl_ca :: "string option"

datatype capability = Transactions | RowLocking | VectorSearch | FullText

text \<open>What ends the serve: the two signals, or a change in what is watched.\<close>

datatype stop = Signalled handle | Rotated "string list" handle

datatype drain = Finished_serving "string + unit" | Overran

text \<open>\<open>field_max\<close> is the largest value of the field of \<open>PoolConfig\<close> a variable fills. \<open>drain_within\<close> is given the server, the
  pool its service was built on, the address, and what may ask it to stop (the arms of \<open>select!\<close>).\<close>

record crates =
  field_max :: "string \<Rightarrow> int"
  parse_ssl_mode :: "string \<Rightarrow> string + handle"
  lock_options :: "int \<Rightarrow> string + handle"
  socket_addr :: "string \<Rightarrow> string + handle"
  show_addr :: "handle \<Rightarrow> string"
  listen_prefix :: string
  server_tls :: "string \<Rightarrow> string \<Rightarrow> lookup \<Rightarrow> handle + handle option"
  server_limits :: "string \<Rightarrow> string \<Rightarrow> lookup \<Rightarrow> string + handle"
  tls_server :: "handle option \<Rightarrow> handle \<Rightarrow> handle + handle"
  error_chain :: "handle \<Rightarrow> string"
  tls_files :: "handle \<Rightarrow> string list"
  read_secret :: "string \<Rightarrow> string + handle"
  config_file :: string
  schedule :: "string + handle"
  connect_options :: "pool_config \<Rightarrow> handle \<Rightarrow> string + handle"
  connect_with :: "handle \<Rightarrow> string + handle"
  probe_report :: "handle \<Rightarrow> string + handle"
  satisfies :: "handle \<Rightarrow> capability set \<Rightarrow> string + unit"
  close_conn :: "handle \<Rightarrow> string + unit"
  pool_connect :: "pool_config \<Rightarrow> handle \<Rightarrow> string + handle"
  migration_set :: "migration list \<Rightarrow> string + handle"
  apply_set :: "handle \<Rightarrow> handle \<Rightarrow> handle \<Rightarrow> string + nat"
  install_prometheus :: "handle \<Rightarrow> string + unit"
  signal_handlers :: "string + handle"
  drain_within :: "handle \<Rightarrow> handle \<Rightarrow> handle \<Rightarrow> stop list \<Rightarrow> drain"

section \<open>Refusals\<close>

datatype boot_error = ObsoleteRequireTls | Missing string | MigrationLockWait string string | Pool string
  | Unparsable string string string int_error

definition em_dash :: string where
  "em_dash = [CHR 0xE2, CHR 0x80, CHR 0x94]"

definition apostrophe :: string where
  "apostrophe = [CHR 0x27]"

definition boot_error_text :: "boot_error \<Rightarrow> string" where
  "boot_error_text e = (case e of
       ObsoleteRequireTls \<Rightarrow>
         ''DB_REQUIRE_TLS is set and this binary no longer reads it. Set DB_SSL_MODE instead '' @ em_dash @ '' one of: disabled, preferred, required, verify_ca, verify_identity. Refusing at boot rather than ignoring the key, because an operator who set it is asking for a transport guarantee, and silently substituting a default is the one outcome worse than stopping. DB_REQUIRE_TLS was a boolean: it could not tell '' @ apostrophe @ ''encrypt, and connect in cleartext if that fails'' @ apostrophe @ '' from '' @ apostrophe @ ''encrypt or refuse to connect'' @ apostrophe @ '', which is preferred against required, and that is why it is gone. verify_ca and verify_identity check the engine'' @ apostrophe @ ''s certificate against the certificate authority named by DB_SSL_CA_FILE. With no DB_SSL_CA_FILE set they check against the PUBLIC WEB ROOTS instead, which sign no operator-issued engine certificate '' @ em_dash @ '' so a private-CA engine is refused and, under verify_ca, any publicly-trusted certificate for any name is accepted. Set both keys together or neither.''
     | Missing s \<Rightarrow> s
     | MigrationLockWait v reason \<Rightarrow>
         ''DB_MIGRATION_LOCK_TIMEOUT_SECONDS is '' @ debug_str v @ '', which is not a usable migration lock wait. Set the chart value database.migrationLockTimeoutSeconds to a whole number of seconds, at least 1, within the bound chart/values.schema.json sets. Why: '' @ reason
     | Pool s \<Rightarrow> s
     | Unparsable k ck v err \<Rightarrow>
         k @ '' is '' @ debug_str v @ '', which is not a whole number ('' @ int_error_text err @ ''). Set the chart value '' @ ck @ '' to a whole number.'')"


section \<open>Knobs\<close>

definition OBSOLETE_TLS_KEY :: string where "OBSOLETE_TLS_KEY = ''DB_REQUIRE_TLS''"
definition SSL_MODE_KEY :: string where "SSL_MODE_KEY = ''DB_SSL_MODE''"
definition SSL_CA_KEY :: string where "SSL_CA_KEY = ''DB_SSL_CA_FILE''"
definition REPLICAS_CHART_KEY :: string where
  "REPLICAS_CHART_KEY = ''autoscaling.maxReplicas (when autoscaling.enabled) or replicaCount (otherwise)''"
definition OPERATOR_RESERVE_KEY :: string where "OPERATOR_RESERVE_KEY = ''DB_ENGINE_OPERATOR_RESERVE''"
definition OPERATOR_RESERVE_CHART_KEY :: string where "OPERATOR_RESERVE_CHART_KEY = ''database.engineOperatorReserve''"
definition ACQUIRE_TIMEOUT_KEY :: string where "ACQUIRE_TIMEOUT_KEY = ''DB_ACQUIRE_TIMEOUT_SECONDS''"
definition ACQUIRE_TIMEOUT_CHART_KEY :: string where "ACQUIRE_TIMEOUT_CHART_KEY = ''database.acquireTimeoutSeconds''"
definition IDLE_TIMEOUT_KEY :: string where "IDLE_TIMEOUT_KEY = ''DB_IDLE_TIMEOUT_SECONDS''"
definition IDLE_TIMEOUT_CHART_KEY :: string where "IDLE_TIMEOUT_CHART_KEY = ''database.idleTimeoutSeconds''"
definition MAX_LIFETIME_KEY :: string where "MAX_LIFETIME_KEY = ''DB_MAX_LIFETIME_SECONDS''"
definition MAX_LIFETIME_CHART_KEY :: string where "MAX_LIFETIME_CHART_KEY = ''database.maxLifetimeSeconds''"
definition MIGRATION_LOCK_TIMEOUT_KEY :: string where
  "MIGRATION_LOCK_TIMEOUT_KEY = ''DB_MIGRATION_LOCK_TIMEOUT_SECONDS''"
definition MIGRATION_LOCK_TIMEOUT_CHART_KEY :: string where
  "MIGRATION_LOCK_TIMEOUT_CHART_KEY = ''database.migrationLockTimeoutSeconds''"

lemmas knob_defs = OBSOLETE_TLS_KEY_def SSL_MODE_KEY_def SSL_CA_KEY_def OPERATOR_RESERVE_KEY_def
  ACQUIRE_TIMEOUT_KEY_def IDLE_TIMEOUT_KEY_def MAX_LIFETIME_KEY_def MIGRATION_LOCK_TIMEOUT_KEY_def

definition set_but_empty :: "string \<Rightarrow> string \<Rightarrow> string" where
  "set_but_empty k ck = k @ '' is set but EMPTY. It has no compiled-in default (ADR-0569), so there is nothing to fall back to. The chart renders it as '' @ ck @ ''; a values override that nulls it produces exactly this.''"

definition not_set :: "string \<Rightarrow> string \<Rightarrow> string" where
  "not_set k ck = k @ '' is NOT SET. It has no compiled-in default (ADR-0569): this process reads it from the environment alone and refuses to start rather than invent a value. The chart renders it as '' @ ck @ ''.''"

definition env_required :: "lookup \<Rightarrow> string \<Rightarrow> string \<Rightarrow> string + string" where
  "env_required lk k ck = (case lk k of
       Some v \<Rightarrow> if v \<noteq> [] then Inr v else Inl (set_but_empty k ck)
     | None \<Rightarrow> Inl (not_set k ck))"

text \<open>The question mark operator, with the error mapped.\<close>

definition attempt :: "('e \<Rightarrow> 'f) \<Rightarrow> 'e + 'a \<Rightarrow> ('a \<Rightarrow> 'f + 'b) \<Rightarrow> 'f + 'b" where
  "attempt h m f = (case m of Inl e \<Rightarrow> Inl (h e) | Inr x \<Rightarrow> f x)"

definition parse_required :: "int \<Rightarrow> lookup \<Rightarrow> string \<Rightarrow> string \<Rightarrow> boot_error + int" where
  "parse_required hi lk k ck =
     attempt Missing (env_required lk k ck) (\<lambda>v.
     attempt (Unparsable k ck v) (parse_num 0 hi v) Inr)"

text \<open>\<open>str::trim\<close>: the characters with the White_Space property, as the bytes UTF-8 gives them. A match at either
  end of a valid text is a whole character there.\<close>

definition WHITE_SPACE :: "string list" where
  "WHITE_SPACE = [[CHR 0x09], [CHR 0x0A], [CHR 0x0B], [CHR 0x0C], [CHR 0x0D], [CHR 0x20],
     [CHR 0xC2, CHR 0x85], [CHR 0xC2, CHR 0xA0], [CHR 0xE1, CHR 0x9A, CHR 0x80],
     [CHR 0xE2, CHR 0x80, CHR 0x80], [CHR 0xE2, CHR 0x80, CHR 0x81], [CHR 0xE2, CHR 0x80, CHR 0x82],
     [CHR 0xE2, CHR 0x80, CHR 0x83], [CHR 0xE2, CHR 0x80, CHR 0x84], [CHR 0xE2, CHR 0x80, CHR 0x85],
     [CHR 0xE2, CHR 0x80, CHR 0x86], [CHR 0xE2, CHR 0x80, CHR 0x87], [CHR 0xE2, CHR 0x80, CHR 0x88],
     [CHR 0xE2, CHR 0x80, CHR 0x89], [CHR 0xE2, CHR 0x80, CHR 0x8A], [CHR 0xE2, CHR 0x80, CHR 0xA8],
     [CHR 0xE2, CHR 0x80, CHR 0xA9], [CHR 0xE2, CHR 0x80, CHR 0xAF], [CHR 0xE2, CHR 0x81, CHR 0x9F],
     [CHR 0xE3, CHR 0x80, CHR 0x80]]"

definition opens_with :: "string list \<Rightarrow> string \<Rightarrow> string option" where
  "opens_with ws s = find (\<lambda>w. w \<noteq> [] \<and> take (length w) s = w) ws"

lemma opens_with_shorter: "opens_with ws s = Some w \<Longrightarrow> length (drop (length w) s) < length s"
  by (cases s) (auto simp: opens_with_def find_Some_iff)

function strip :: "string list \<Rightarrow> string \<Rightarrow> string" where
  "strip ws s = (case opens_with ws s of None \<Rightarrow> s | Some w \<Rightarrow> strip ws (drop (length w) s))"
  by pat_completeness auto

termination
  by (relation "measure (\<lambda>(ws, s). length s)") (auto dest: opens_with_shorter)

declare strip.simps [simp del]

definition trim :: "string \<Rightarrow> string" where
  "trim s = rev (strip (map rev WHITE_SPACE) (rev (strip WHITE_SPACE s)))"

definition ssl_ca_of :: "lookup \<Rightarrow> string option" where
  "ssl_ca_of lk = (case lk SSL_CA_KEY of
       None \<Rightarrow> None | Some v \<Rightarrow> if trim v = [] then None else Some (trim v))"

text \<open>Seconds are read as \<open>u64\<close>, the argument of \<open>Duration::from_secs\<close>.\<close>

definition U64_MAX :: int where "U64_MAX = 2 ^ 64 - 1"

definition pool_config :: "crates \<Rightarrow> lookup \<Rightarrow> boot_error + pool_config" where
  "pool_config x lk =
     (if lk OBSOLETE_TLS_KEY \<noteq> None then Inl ObsoleteRequireTls
      else
      attempt Missing (env_required lk ''DB_HOST'' ''database.host'') (\<lambda>host.
      attempt id (parse_required (field_max x ''DB_PORT'') lk ''DB_PORT'' ''database.port'') (\<lambda>port.
      attempt Missing (env_required lk ''DB_NAME'' ''database.name'') (\<lambda>database.
      attempt Missing (env_required lk ''DB_USER'' ''database.user'') (\<lambda>username.
      attempt id (parse_required (field_max x ''DB_MAX_CONNECTIONS'') lk ''DB_MAX_CONNECTIONS'' ''database.maxConnections'') (\<lambda>max_connections.
      attempt id (parse_required (field_max x ''REPLICAS'') lk ''REPLICAS'' REPLICAS_CHART_KEY) (\<lambda>replicas.
      attempt id (parse_required (field_max x ''DB_ENGINE_MAX_CONNECTIONS'') lk ''DB_ENGINE_MAX_CONNECTIONS'' ''database.engineMaxConnections'') (\<lambda>engine_max.
      attempt id (parse_required (field_max x OPERATOR_RESERVE_KEY) lk OPERATOR_RESERVE_KEY OPERATOR_RESERVE_CHART_KEY) (\<lambda>reserve.
      attempt id (parse_required U64_MAX lk ACQUIRE_TIMEOUT_KEY ACQUIRE_TIMEOUT_CHART_KEY) (\<lambda>acquire_s.
      attempt id (parse_required U64_MAX lk IDLE_TIMEOUT_KEY IDLE_TIMEOUT_CHART_KEY) (\<lambda>idle_s.
      attempt id (parse_required U64_MAX lk MAX_LIFETIME_KEY MAX_LIFETIME_CHART_KEY) (\<lambda>lifetime_s.
      attempt Missing (env_required lk SSL_MODE_KEY ''database.sslMode'') (\<lambda>mode.
      attempt Pool (parse_ssl_mode x mode) (\<lambda>ssl_mode.
      Inr \<lparr>pc_host = host, pc_port = port, pc_database = database, pc_username = username, pc_max_connections = max_connections,
           pc_replicas = replicas, pc_engine_max_connections = engine_max, pc_operator_reserve = reserve,
           pc_acquire_timeout = acquire_s, pc_idle_timeout = idle_s, pc_max_lifetime = lifetime_s, pc_ssl_mode = ssl_mode,
           pc_ssl_ca = ssl_ca_of lk\<rparr>))))))))))))))"

definition migration_lock :: "crates \<Rightarrow> lookup \<Rightarrow> boot_error + handle" where
  "migration_lock x lk =
     attempt Missing (env_required lk MIGRATION_LOCK_TIMEOUT_KEY MIGRATION_LOCK_TIMEOUT_CHART_KEY) (\<lambda>raw.
     attempt (\<lambda>e. MigrationLockWait raw (int_error_text e)) (parse_num (- (2 ^ 31)) (2 ^ 31 - 1) raw) (\<lambda>seconds.
     attempt (MigrationLockWait raw) (lock_options x seconds) Inr))"

definition probe_connect_options :: "crates \<Rightarrow> pool_config \<Rightarrow> handle \<Rightarrow> boot_error + handle" where
  "probe_connect_options x c secret = attempt Pool (connect_options x c secret) Inr"

section \<open>The listener and the watched files\<close>

definition CHART_KEY :: string where "CHART_KEY = ''tls''"
definition LIMITS_CHART_KEY :: string where "LIMITS_CHART_KEY = ''server.limits''"

definition from_env :: "crates \<Rightarrow> lookup \<Rightarrow> handle + handle option" where
  "from_env x lk = server_tls x (listen_prefix x) CHART_KEY lk"

definition limits_from_env :: "crates \<Rightarrow> lookup \<Rightarrow> string + handle" where
  "limits_from_env x lk = server_limits x (listen_prefix x) LIMITS_CHART_KEY lk"

definition builder :: "crates \<Rightarrow> handle option \<Rightarrow> handle \<Rightarrow> handle + handle" where
  "builder x tls limits = tls_server x tls limits"

definition refusal :: "crates \<Rightarrow> handle \<Rightarrow> string" where
  "refusal x e = error_chain x e"

text \<open>\<open>watch_set\<close>: the listener's files where it has any, the password, the engine's authority where one is named,
  and the mounted document.\<close>

definition watch_set :: "crates \<Rightarrow> handle option \<Rightarrow> string \<Rightarrow> string option \<Rightarrow> string list" where
  "watch_set x listener db_password db_ssl_ca =
     (case listener of None \<Rightarrow> [] | Some t \<Rightarrow> tls_files x t) @ [db_password] @
     (case db_ssl_ca of None \<Rightarrow> [] | Some ca \<Rightarrow> [ca]) @ [config_file x]"

section \<open>Boot\<close>

datatype boot_event = ProbeOpened | ProbeSatisfied | ProbeClosed | PoolOpened | MigratedTo nat | MetricsServed | MetricsUnavailable
  | NotAfterExported | Listening handle bool nat handle | HandlersArmed | ServerSpawned handle handle handle | DrainOverran

type_synonym 'a boot = "boot_event list \<Rightarrow> (string + 'a) \<times> boot_event list"

definition yield_value :: "'a \<Rightarrow> 'a boot" where
  "yield_value a ev = (Inr a, ev)"

definition demand :: "string + 'a \<Rightarrow> 'a boot" where
  "demand r ev = (r, ev)"

definition note_event :: "boot_event \<Rightarrow> unit boot" where
  "note_event v ev = (Inr (), ev @ [v])"

definition then_boot :: "'a boot \<Rightarrow> ('a \<Rightarrow> 'b boot) \<Rightarrow> 'b boot" where
  "then_boot m f ev = (case m ev of (Inl s, ev') \<Rightarrow> (Inl s, ev') | (Inr a, ev') \<Rightarrow> f a ev')"

definition required_capabilities :: "capability set" where
  "required_capabilities = {Transactions, RowLocking}"

definition env_required_main :: "lookup \<Rightarrow> string \<Rightarrow> string + string" where
  "env_required_main lk k = (case lk k of
       Some v \<Rightarrow> if v \<noteq> [] then Inr v
         else Inl (k @ '' is set but EMPTY. It has no compiled-in default (ADR-0569), so there is nothing to fall back to. The chart renders it; a values override that nulls it produces exactly this.'')
     | None \<Rightarrow> Inl (k @ '' is NOT SET. It has no compiled-in default (ADR-0569): this process reads it from the environment alone and refuses to start rather than invent a value. The chart renders it.''))"

definition parse_required_addr :: "crates \<Rightarrow> lookup \<Rightarrow> string \<Rightarrow> string + handle" where
  "parse_required_addr x lk k =
     attempt id (env_required_main lk k) (\<lambda>v.
     attempt (\<lambda>e. k @ '' is '' @ debug_str v @ '', which is not a valid address (host:port): '' @ e) (socket_addr x v) Inr)"

definition probe_engine :: "crates \<Rightarrow> pool_config \<Rightarrow> handle \<Rightarrow> unit boot" where
  "probe_engine x c secret =
     then_boot (demand (attempt boot_error_text (probe_connect_options x c secret) Inr)) (\<lambda>options.
     then_boot (demand (connect_with x options)) (\<lambda>conn.
     then_boot (note_event ProbeOpened) (\<lambda>_.
     then_boot (demand (probe_report x conn)) (\<lambda>report.
     then_boot (demand (satisfies x report required_capabilities)) (\<lambda>_.
     then_boot (note_event ProbeSatisfied) (\<lambda>_.
     then_boot (demand (close_conn x conn)) (\<lambda>_. note_event ProbeClosed)))))))"

definition watch_and_schedule :: "crates \<Rightarrow> handle option \<Rightarrow> string \<Rightarrow> string option \<Rightarrow> (string list \<times> handle) boot" where
  "watch_and_schedule x listen_tls db_password ssl_ca =
     (let inputs = watch_set x listen_tls db_password ssl_ca in
      then_boot (demand (schedule x)) (\<lambda>h. yield_value (inputs, h)))"

definition serve_failure :: "string \<Rightarrow> string \<Rightarrow> string" where
  "serve_failure addr e = ''the gRPC server on LISTEN='' @ addr @ '' stopped with an error: '' @ e"

definition no_handlers :: "string \<Rightarrow> string" where
  "no_handlers e = ''the SIGTERM and SIGINT handlers could not be installed: '' @ e @ ''. Refusing to start: a server that cannot hear SIGTERM cannot drain, and Kubernetes ends every pod with one''"

text \<open>The server is the one \<open>builder\<close> made; the service it serves is built on the pool. The schedule is logged and watched by.\<close>

definition serve_until_drained :: "crates \<Rightarrow> handle \<Rightarrow> handle \<Rightarrow> string list \<Rightarrow> handle \<Rightarrow> handle option \<Rightarrow> handle \<Rightarrow> unit boot" where
  "serve_until_drained x server pool watch_inputs sched listen_tls addr =
     then_boot (note_event (Listening addr (listen_tls \<noteq> None) (length watch_inputs) sched)) (\<lambda>_.
     then_boot (demand (attempt no_handlers (signal_handlers x) Inr)) (\<lambda>signals.
     then_boot (note_event HandlersArmed) (\<lambda>_.
     then_boot (note_event (ServerSpawned server pool addr)) (\<lambda>_.
     case drain_within x server pool addr [Signalled signals, Rotated watch_inputs sched] of
       Finished_serving r \<Rightarrow> demand (attempt (serve_failure (show_addr x addr)) r Inr)
     | Overran \<Rightarrow> note_event DrainOverran))))"

definition run_service :: "crates \<Rightarrow> lookup \<Rightarrow> unit boot" where
  "run_service x lk =
     then_boot (demand (attempt boot_error_text (pool_config x lk) Inr)) (\<lambda>config.
     then_boot (demand (attempt boot_error_text (migration_lock x lk) Inr)) (\<lambda>lock.
     then_boot (demand (attempt (refusal x) (from_env x lk) Inr)) (\<lambda>listen_tls.
     then_boot (demand (limits_from_env x lk)) (\<lambda>limits.
     then_boot (demand (attempt (refusal x) (builder x listen_tls limits) Inr)) (\<lambda>server.
     then_boot (demand (parse_required_addr x lk ''LISTEN'')) (\<lambda>addr.
     then_boot (demand (parse_required_addr x lk ''METRICS_LISTEN'')) (\<lambda>metrics_addr.
     then_boot (demand (env_required_main lk ''DB_PASSWORD_FILE'')) (\<lambda>db_password_file.
     then_boot (demand (read_secret x db_password_file)) (\<lambda>secret.
     then_boot (watch_and_schedule x listen_tls db_password_file (pc_ssl_ca config)) (\<lambda>(watch_inputs, sched).
     then_boot (probe_engine x config secret) (\<lambda>_.
     then_boot (demand (pool_connect x config secret)) (\<lambda>pool.
     then_boot (note_event PoolOpened) (\<lambda>_.
     then_boot (demand (migrations (migration_set x))) (\<lambda>ms.
     then_boot (demand (apply_set x pool ms lock)) (\<lambda>applied.
     then_boot (note_event (MigratedTo applied)) (\<lambda>_.
     then_boot (note_event (if isl (install_prometheus x metrics_addr) then MetricsUnavailable else MetricsServed)) (\<lambda>_.
     then_boot (note_event NotAfterExported) (\<lambda>_.
     serve_until_drained x server pool watch_inputs sched listen_tls addr))))))))))))))))))"

datatype exit_code = SUCCESS | FAILURE

text \<open>\<open>main\<close>: the exit status and what it prints.\<close>

definition main_exit :: "crates \<Rightarrow> lookup \<Rightarrow> exit_code \<times> string option" where
  "main_exit x lk = (case fst (run_service x lk []) of
       Inr _ \<Rightarrow> (SUCCESS, None) | Inl e \<Rightarrow> (FAILURE, Some (''Error: '' @ e)))"


section \<open>Lemmas\<close>

definition value_from :: "int \<Rightarrow> string \<Rightarrow> int" where
  "value_from a cs = foldl (\<lambda>a c. a * 10 + int (digit_value c)) a cs"

lemma value_from_grows: "0 \<le> a \<Longrightarrow> a \<le> value_from a cs"
proof (induction cs arbitrary: a)
  case (Cons c cs)
  from Cons.prems have "a \<le> a * 10 + int (digit_value c)" by simp
  also have "\<dots> \<le> value_from (a * 10 + int (digit_value c)) cs" using Cons.prems by (intro Cons.IH) simp
  finally show ?case by (simp add: value_from_def)
qed (simp add: value_from_def)

lemma up_to_value:
  "list_all is_digit cs \<Longrightarrow> 0 \<le> a \<Longrightarrow> value_from a cs \<le> hi \<Longrightarrow> up_to hi cs a = Inr (value_from a cs)"
proof (induction cs arbitrary: a)
  case (Cons c cs)
  let ?b = "a * 10 + int (digit_value c)"
  have "value_from a (c # cs) = value_from ?b cs" by (simp add: value_from_def)
  moreover have "?b \<le> value_from ?b cs" using Cons.prems by (intro value_from_grows) simp
  ultimately show ?case using Cons.IH [of ?b] Cons.prems by (simp add: Let_def)
qed (simp add: value_from_def)

lemma value_from_int: "value_from (int a) cs = int (foldl (\<lambda>a c. a * 10 + digit_value c) a cs)"
proof (induction cs arbitrary: a)
  case (Cons c cs)
  show ?case using Cons.IH [of "a * 10 + digit_value c"] by (simp add: value_from_def)
qed (simp add: value_from_def)

lemma parse_num_dec: "int n \<le> hi \<Longrightarrow> parse_num 0 hi (dec n) = Inr (int n)"
proof -
  assume n: "int n \<le> hi"
  have v: "value_from 0 (dec n) = int n" using value_from_int [of 0 "dec n"] dec_value [of n] by simp
  then have u: "up_to hi (dec n) 0 = Inr (int n)" using up_to_value [OF dec_digits, of 0 n hi] n by simp
  obtain c cs where c: "dec n = c # cs" "is_digit c" using dec_digits [of n] dec_nonempty [of n] by (cases "dec n") auto
  then have "c \<noteq> CHR ''+''" "c \<noteq> CHR ''-''" by (auto simp: is_digit_def)
  with u c show ?thesis by (simp add: parse_num_def del: up_to.simps)
qed

lemma up_to_bounds: "up_to hi cs a = Inr n \<Longrightarrow> 0 \<le> a \<Longrightarrow> a \<le> hi \<Longrightarrow> 0 \<le> n \<and> n \<le> hi"
  by (induction cs arbitrary: a) (auto simp: Let_def split: if_splits)

lemma down_to_bounds: "down_to lo cs a = Inr n \<Longrightarrow> lo \<le> a \<Longrightarrow> a \<le> 0 \<Longrightarrow> lo \<le> n \<and> n \<le> 0"
  by (induction cs arbitrary: a) (auto simp: Let_def split: if_splits)

lemma parse_num_bounds: "parse_num lo hi s = Inr n \<Longrightarrow> lo \<le> 0 \<Longrightarrow> 0 \<le> hi \<Longrightarrow> lo \<le> n \<and> n \<le> hi"
  unfolding parse_num_def
  by (auto split: list.splits if_splits simp del: up_to.simps down_to.simps dest!: up_to_bounds down_to_bounds)

lemma attempt_simps [simp]: "attempt h (Inr a) f = f a" "attempt h (Inl e) f = Inl (h e)"
  by (simp_all add: attempt_def)

lemma env_required_simps [simp]:
  "lk k = Some v \<Longrightarrow> v \<noteq> [] \<Longrightarrow> env_required lk k ck = Inr v"
  "lk k = Some [] \<Longrightarrow> env_required lk k ck = Inl (set_but_empty k ck)"
  "lk k = None \<Longrightarrow> env_required lk k ck = Inl (not_set k ck)"
  by (simp_all add: env_required_def)

section \<open>What the chart renders\<close>

definition num_knob :: "int \<Rightarrow> lookup \<Rightarrow> string \<Rightarrow> int \<Rightarrow> bool" where
  "num_knob hi lk k v \<longleftrightarrow> lk k = Some (dec (nat v)) \<and> 0 \<le> v \<and> v \<le> hi"

definition text_knob :: "lookup \<Rightarrow> string \<Rightarrow> string \<Rightarrow> bool" where
  "text_knob lk k v \<longleftrightarrow> lk k = Some v \<and> v \<noteq> []"

text \<open>Characters of white space only, and a text that has none at its start or at its end.\<close>

definition blank_run :: "string \<Rightarrow> bool" where
  "blank_run a \<longleftrightarrow> (\<exists>ws. set ws \<subseteq> set WHITE_SPACE \<and> a = concat ws)"

definition opens_blank :: "string \<Rightarrow> bool" where
  "opens_blank s \<longleftrightarrow> list_ex (\<lambda>w. take (length w) s = w) WHITE_SPACE"

definition closes_blank :: "string \<Rightarrow> bool" where
  "closes_blank s \<longleftrightarrow> list_ex (\<lambda>w. length w \<le> length s \<and> drop (length s - length w) s = w) WHITE_SPACE"

text \<open>No authority is named by an absent variable or one of white space; one is by its path, white space around it or not.\<close>

definition names_authority :: "string option \<Rightarrow> string option \<Rightarrow> bool" where
  "names_authority v ca \<longleftrightarrow> (case ca of
       None \<Rightarrow> (case v of None \<Rightarrow> True | Some a \<Rightarrow> blank_run a)
     | Some p \<Rightarrow> \<exists>a b. v = Some (a @ p @ b) \<and> blank_run a \<and> blank_run b \<and> p \<noteq> [] \<and> \<not> opens_blank (p @ b) \<and> \<not> closes_blank p)"

definition rendered :: "crates \<Rightarrow> pool_config \<Rightarrow> string \<Rightarrow> lookup \<Rightarrow> bool" where
  "rendered x c mode lk \<longleftrightarrow> lk OBSOLETE_TLS_KEY = None \<and>
     text_knob lk ''DB_HOST'' (pc_host c) \<and> num_knob (field_max x ''DB_PORT'') lk ''DB_PORT'' (pc_port c) \<and>
     text_knob lk ''DB_NAME'' (pc_database c) \<and> text_knob lk ''DB_USER'' (pc_username c) \<and>
     num_knob (field_max x ''DB_MAX_CONNECTIONS'') lk ''DB_MAX_CONNECTIONS'' (pc_max_connections c) \<and>
     num_knob (field_max x ''REPLICAS'') lk ''REPLICAS'' (pc_replicas c) \<and>
     num_knob (field_max x ''DB_ENGINE_MAX_CONNECTIONS'') lk ''DB_ENGINE_MAX_CONNECTIONS'' (pc_engine_max_connections c) \<and>
     num_knob (field_max x OPERATOR_RESERVE_KEY) lk OPERATOR_RESERVE_KEY (pc_operator_reserve c) \<and>
     num_knob U64_MAX lk ACQUIRE_TIMEOUT_KEY (pc_acquire_timeout c) \<and>
     num_knob U64_MAX lk IDLE_TIMEOUT_KEY (pc_idle_timeout c) \<and>
     num_knob U64_MAX lk MAX_LIFETIME_KEY (pc_max_lifetime c) \<and>
     text_knob lk SSL_MODE_KEY mode \<and> parse_ssl_mode x mode = Inr (pc_ssl_mode c) \<and> names_authority (lk SSL_CA_KEY) (pc_ssl_ca c)"

text \<open>The required knobs, each with the chart value that renders it.\<close>

definition KNOBS :: "(string \<times> string) list" where
  "KNOBS = [(''DB_HOST'', ''database.host''), (''DB_PORT'', ''database.port''), (''DB_NAME'', ''database.name''),
     (''DB_USER'', ''database.user''), (''DB_MAX_CONNECTIONS'', ''database.maxConnections''), (''REPLICAS'', REPLICAS_CHART_KEY),
     (''DB_ENGINE_MAX_CONNECTIONS'', ''database.engineMaxConnections''), (OPERATOR_RESERVE_KEY, OPERATOR_RESERVE_CHART_KEY),
     (ACQUIRE_TIMEOUT_KEY, ACQUIRE_TIMEOUT_CHART_KEY), (IDLE_TIMEOUT_KEY, IDLE_TIMEOUT_CHART_KEY),
     (MAX_LIFETIME_KEY, MAX_LIFETIME_CHART_KEY), (SSL_MODE_KEY, ''database.sslMode'')]"

lemma num_knob_parsed: "num_knob hi lk k v \<Longrightarrow> parse_required hi lk k ck = Inr v"
proof -
  assume v: "num_knob hi lk k v"
  with dec_nonempty [of "nat v"] parse_num_dec [of "nat v" hi] show ?thesis by (simp add: parse_required_def num_knob_def)
qed

lemma knob_missing:
  "lk k = None \<Longrightarrow> parse_required hi lk k ck = Inl (Missing (not_set k ck))"
  "lk k = Some [] \<Longrightarrow> parse_required hi lk k ck = Inl (Missing (set_but_empty k ck))"
  by (simp_all add: parse_required_def)

lemma knob_elsewhere:
  "k \<noteq> k' \<Longrightarrow> parse_required hi (lk(k' := v)) k ck = parse_required hi lk k ck"
  "k \<noteq> k' \<Longrightarrow> env_required (lk(k' := v)) k ck = env_required lk k ck"
  by (simp_all add: parse_required_def env_required_def)

lemma text_knob_read: "text_knob lk k v \<Longrightarrow> env_required lk k ck = Inr v"
  by (simp add: text_knob_def)

lemma blank_found:
  assumes "w \<in> set ws" and "w \<noteq> []" and "\<And>u v. u \<in> set ws \<Longrightarrow> v \<in> set ws \<Longrightarrow> prefix u v \<Longrightarrow> u = v"
  shows "opens_with ws (w @ s) = Some w"
proof -
  have one: "u = w" if "u \<in> set ws" "take (length u) (w @ s) = u" for u
  proof -
    have "prefix u (w @ s)" using that(2) by (metis take_is_prefix)
    then have "prefix u w \<or> prefix w u" by (metis prefix_same_cases prefixI)
    then show ?thesis using assms(1,3) that(1) by metis
  qed
  have "opens_with ws (w @ s) \<noteq> None" using assms(1,2) by (auto simp: opens_with_def find_None_iff)
  then obtain u where u: "opens_with ws (w @ s) = Some u" by blast
  then have "u \<in> set ws" "take (length u) (w @ s) = u" by (auto simp: opens_with_def find_Some_iff)
  with one u show ?thesis by simp
qed

lemma strip_run:
  assumes "set us \<subseteq> set ws" and "[] \<notin> set ws" and "\<And>u v. u \<in> set ws \<Longrightarrow> v \<in> set ws \<Longrightarrow> prefix u v \<Longrightarrow> u = v"
    and "opens_with ws s = None"
  shows "strip ws (concat us @ s) = s"
  using assms(1)
proof (induction us)
  case Nil
  then show ?case using assms(4) by (simp add: strip.simps)
next
  case (Cons u us)
  then have "opens_with ws (u @ concat us @ s) = Some u" using assms(2,3) by (intro blank_found) auto
  with Cons show ?case by (simp add: strip.simps [of ws "u @ _"])
qed

lemma white_space_words:
  "[] \<notin> set WHITE_SPACE" "\<And>u v. u \<in> set WHITE_SPACE \<Longrightarrow> v \<in> set WHITE_SPACE \<Longrightarrow> prefix u v \<Longrightarrow> u = v"
  "\<And>u v. u \<in> set (map rev WHITE_SPACE) \<Longrightarrow> v \<in> set (map rev WHITE_SPACE) \<Longrightarrow> prefix u v \<Longrightarrow> u = v"
proof -
  have "list_all (\<lambda>u. u \<noteq> [] \<and> list_all (\<lambda>v. prefix u v \<longrightarrow> u = v) WHITE_SPACE \<and> list_all (\<lambda>v. prefix (rev u) (rev v) \<longrightarrow> u = v) WHITE_SPACE) WHITE_SPACE"
    by code_simp
  then show "[] \<notin> set WHITE_SPACE" "\<And>u v. u \<in> set WHITE_SPACE \<Longrightarrow> v \<in> set WHITE_SPACE \<Longrightarrow> prefix u v \<Longrightarrow> u = v"
    "\<And>u v. u \<in> set (map rev WHITE_SPACE) \<Longrightarrow> v \<in> set (map rev WHITE_SPACE) \<Longrightarrow> prefix u v \<Longrightarrow> u = v"
    by (auto simp: list_all_iff)
qed

lemma opens_none: "opens_with WHITE_SPACE s = None \<longleftrightarrow> \<not> opens_blank s"
  using white_space_words(1) by (auto simp: opens_with_def opens_blank_def find_None_iff list_ex_iff)

lemma closes_none: "opens_with (map rev WHITE_SPACE) (rev s) = None \<longleftrightarrow> \<not> closes_blank s"
proof -
  have "take (length w) (rev s) = rev w \<longleftrightarrow> length w \<le> length s \<and> drop (length s - length w) s = w" for w
    by (metis length_drop length_rev length_take min.cobounded1 diff_diff_cancel nle_le rev_rev_ident rev_take take_rev rev_drop)
  then show ?thesis
    using white_space_words(1) by (auto simp: opens_with_def closes_blank_def find_None_iff list_ex_iff)
qed

lemma blank_ends: "blank_run a \<Longrightarrow> \<exists>us. set us \<subseteq> set (map rev WHITE_SPACE) \<and> rev a = concat us"
proof -
  assume "blank_run a"
  then obtain ws where "set ws \<subseteq> set WHITE_SPACE" "a = concat ws" by (auto simp: blank_run_def)
  then have "set (map rev (rev ws)) \<subseteq> set (map rev WHITE_SPACE) \<and> rev a = concat (map rev (rev ws))"
    by (auto simp: rev_concat rev_map)
  then show ?thesis by blast
qed

lemma trim_around:
  assumes "blank_run a" and "blank_run b" and "p \<noteq> []" and "\<not> opens_blank (p @ b)" and "\<not> closes_blank p"
  shows "trim (a @ p @ b) = p"
proof -
  from assms(1) obtain us where us: "set us \<subseteq> set WHITE_SPACE" "a = concat us" by (auto simp: blank_run_def)
  from blank_ends [OF assms(2)] obtain vs where vs: "set vs \<subseteq> set (map rev WHITE_SPACE)" "rev b = concat vs" by blast
  have "strip WHITE_SPACE (a @ p @ b) = p @ b"
    unfolding us(2) by (rule strip_run [OF us(1) white_space_words(1,2)]) (simp_all add: opens_none assms(4))
  moreover have "strip (map rev WHITE_SPACE) (concat vs @ rev p) = rev p"
    by (rule strip_run [OF vs(1) _ white_space_words(3)]) (use white_space_words(1) assms(5) in \<open>auto simp: closes_none\<close>)
  ultimately show ?thesis by (simp add: trim_def vs(2))
qed

lemma trim_blank: "blank_run a \<Longrightarrow> trim a = []"
proof -
  assume "blank_run a"
  then obtain us where us: "set us \<subseteq> set WHITE_SPACE" "a = concat us" by (auto simp: blank_run_def)
  have none: "opens_with ws [] = None" for ws by (auto simp: opens_with_def find_None_iff)
  have "strip WHITE_SPACE (concat us @ []) = []"
    by (rule strip_run [OF us(1) white_space_words(1,2) none])
  then show ?thesis using none by (simp add: trim_def us(2) strip.simps [of _ "[]"])
qed

lemma names_authority_read: "names_authority (lk SSL_CA_KEY) ca \<Longrightarrow> ssl_ca_of lk = ca"
  by (auto simp: names_authority_def ssl_ca_of_def trim_blank trim_around split: option.splits)

lemma rendered_reads:
  assumes "rendered x c mode lk"
  shows "lk OBSOLETE_TLS_KEY = None \<and>
    env_required lk ''DB_HOST'' ''database.host'' = Inr (pc_host c) \<and>
    parse_required (field_max x ''DB_PORT'') lk ''DB_PORT'' ''database.port'' = Inr (pc_port c) \<and>
    env_required lk ''DB_NAME'' ''database.name'' = Inr (pc_database c) \<and>
    env_required lk ''DB_USER'' ''database.user'' = Inr (pc_username c) \<and>
    parse_required (field_max x ''DB_MAX_CONNECTIONS'') lk ''DB_MAX_CONNECTIONS'' ''database.maxConnections'' = Inr (pc_max_connections c) \<and>
    parse_required (field_max x ''REPLICAS'') lk ''REPLICAS'' REPLICAS_CHART_KEY = Inr (pc_replicas c) \<and>
    parse_required (field_max x ''DB_ENGINE_MAX_CONNECTIONS'') lk ''DB_ENGINE_MAX_CONNECTIONS'' ''database.engineMaxConnections'' = Inr (pc_engine_max_connections c) \<and>
    parse_required (field_max x OPERATOR_RESERVE_KEY) lk OPERATOR_RESERVE_KEY OPERATOR_RESERVE_CHART_KEY = Inr (pc_operator_reserve c) \<and>
    parse_required U64_MAX lk ACQUIRE_TIMEOUT_KEY ACQUIRE_TIMEOUT_CHART_KEY = Inr (pc_acquire_timeout c) \<and>
    parse_required U64_MAX lk IDLE_TIMEOUT_KEY IDLE_TIMEOUT_CHART_KEY = Inr (pc_idle_timeout c) \<and>
    parse_required U64_MAX lk MAX_LIFETIME_KEY MAX_LIFETIME_CHART_KEY = Inr (pc_max_lifetime c) \<and>
    env_required lk SSL_MODE_KEY ''database.sslMode'' = Inr mode \<and>
    parse_ssl_mode x mode = Inr (pc_ssl_mode c) \<and> ssl_ca_of lk = pc_ssl_ca c"
  using assms unfolding rendered_def
  by (elim conjE) (intro conjI; (erule num_knob_parsed | erule text_knob_read | assumption | erule names_authority_read))

lemma pool_config_rendered:
  assumes "rendered x c mode lk" shows "pool_config x lk = Inr c"
  using rendered_reads [OF assms] unfolding pool_config_def by (elim conjE) (simp only: attempt_simps, simp)

text \<open>The refusal of a knob that is absent or empty.\<close>

definition missing :: "string option \<Rightarrow> string \<Rightarrow> string \<Rightarrow> string" where
  "missing v k ck = (case v of None \<Rightarrow> not_set k ck | Some _ \<Rightarrow> set_but_empty k ck)"

lemma knob_gone:
  assumes "v = None \<or> v = Some []"
  shows "env_required (lk(k := v)) k ck = Inl (missing v k ck)"
    and "parse_required hi (lk(k := v)) k ck = Inl (Missing (missing v k ck))"
  using assms by (auto simp: missing_def parse_required_def)

lemma keys_distinct: "distinct (OBSOLETE_TLS_KEY # map fst KNOBS)"
  by code_simp


lemma pool_config_gone:
  assumes "rendered x c mode lk" and "(k, ck) \<in> set KNOBS" and v: "v = None \<or> v = Some []"
  shows "pool_config x (lk(k := v)) = Inl (Missing (missing v k ck))"
proof -
  note reads = rendered_reads [OF assms(1)] and keys = keys_distinct [unfolded KNOBS_def, simplified]
  from assms(2) show ?thesis unfolding pool_config_def KNOBS_def list.set
    by (elim insertE emptyE; simp add: keys reads knob_elsewhere knob_gone [OF v] not_sym)
qed

section \<open>The order of boot\<close>

lemma boot_simps [simp]:
  "then_boot (demand r) f ev = (case r of Inl s \<Rightarrow> (Inl s, ev) | Inr a \<Rightarrow> f a ev)"
  "then_boot (note_event v) g ev = g () (ev @ [v])"
  "then_boot (yield_value a) f ev = f a ev"
  "then_boot (then_boot m f') h ev = then_boot m (\<lambda>a. then_boot (f' a) h) ev"
  by (simp_all add: then_boot_def demand_def note_event_def yield_value_def split: sum.split prod.split)


lemmas boot_defs = run_service_def probe_engine_def watch_and_schedule_def serve_until_drained_def Let_def

text \<open>Everything the process decides without an engine.\<close>

definition configured :: "crates \<Rightarrow> lookup \<Rightarrow> bool" where
  "configured x lk \<longleftrightarrow> \<not> isl (pool_config x lk) \<and> \<not> isl (migration_lock x lk) \<and>
     (\<exists>tls limits server. from_env x lk = Inr tls \<and> limits_from_env x lk = Inr limits \<and> tls_server x tls limits = Inr server) \<and>
     \<not> isl (parse_required_addr x lk ''LISTEN'') \<and> \<not> isl (parse_required_addr x lk ''METRICS_LISTEN'') \<and>
     (\<exists>pw secret. env_required_main lk ''DB_PASSWORD_FILE'' = Inr pw \<and> read_secret x pw = Inr secret) \<and> \<not> isl (schedule x)"

definition boot_order :: "nat \<Rightarrow> boot_event \<Rightarrow> handle \<Rightarrow> bool \<Rightarrow> nat \<Rightarrow> handle \<Rightarrow> handle \<Rightarrow> handle \<Rightarrow> boot_event list" where
  "boot_order n m a t w sched server pool = [ProbeOpened, ProbeSatisfied, ProbeClosed, PoolOpened, MigratedTo n, m, NotAfterExported,
     Listening a t w sched, HandlersArmed, ServerSpawned server pool a, DrainOverran]"

text \<open>An engine that was probed with this configuration and has what is required.\<close>

definition probed :: "crates \<Rightarrow> pool_config \<Rightarrow> handle \<Rightarrow> bool" where
  "probed x c secret \<longleftrightarrow> (\<exists>options conn rep. connect_options x c secret = Inr options \<and> connect_with x options = Inr conn \<and>
     probe_report x conn = Inr rep \<and> satisfies x rep {Transactions, RowLocking} = Inr ())"

lemma engine_part:
  assumes "probe_engine x c s [] = (r, ev)"
  shows "prefix ev [ProbeOpened, ProbeSatisfied, ProbeClosed] \<and>
     (r = Inr () \<longrightarrow> ev = [ProbeOpened, ProbeSatisfied, ProbeClosed] \<and> probed x c s)"
  using assms unfolding probe_engine_def probe_connect_options_def probed_def required_capabilities_def
  by (auto simp: note_event_def attempt_def split: sum.splits)

text \<open>What the serving ends with, once the handlers are armed.\<close>

definition outcome_served :: "crates \<Rightarrow> handle \<Rightarrow> drain \<Rightarrow> string + unit" where
  "outcome_served x addr d = (case d of
       Finished_serving (Inl e) \<Rightarrow> Inl (serve_failure (show_addr x addr) e) | Finished_serving (Inr _) \<Rightarrow> Inr () | Overran \<Rightarrow> Inr ())"

lemma serving_part:
  assumes "serve_until_drained x sv p ws sched tls a ev0 = (r, ev)"
  shows "\<exists>ys. ev = ev0 @ ys \<and>
       prefix ys [Listening a (tls \<noteq> None) (length ws) sched, HandlersArmed, ServerSpawned sv p a, DrainOverran] \<and>
       (ServerSpawned sv p a \<in> set ys \<longrightarrow> (\<exists>sg. signal_handlers x = Inr sg \<and>
          r = outcome_served x a (drain_within x sv p a [Signalled sg, Rotated ws sched]))) \<and>
       (r = Inr () \<longrightarrow> ServerSpawned sv p a \<in> set ys)"
  using assms unfolding serve_until_drained_def outcome_served_def
  by (auto simp: note_event_def demand_def attempt_def split: sum.splits drain.splits)

text \<open>The rest of \<open>run\<close>, once nothing is left to decide.\<close>

definition from_probe :: "crates \<Rightarrow> pool_config \<Rightarrow> handle \<Rightarrow> handle \<Rightarrow> handle option \<Rightarrow> handle \<Rightarrow> handle \<Rightarrow> handle \<Rightarrow> string list \<Rightarrow>
    handle \<Rightarrow> unit boot" where
  "from_probe x config lock server listen_tls addr metrics_addr secret watch_inputs sched =
     then_boot (probe_engine x config secret) (\<lambda>_.
     then_boot (demand (pool_connect x config secret)) (\<lambda>pool.
     then_boot (note_event PoolOpened) (\<lambda>_.
     then_boot (demand (migrations (migration_set x))) (\<lambda>ms.
     then_boot (demand (apply_set x pool ms lock)) (\<lambda>applied.
     then_boot (note_event (MigratedTo applied)) (\<lambda>_.
     then_boot (note_event (if isl (install_prometheus x metrics_addr) then MetricsUnavailable else MetricsServed)) (\<lambda>_.
     then_boot (note_event NotAfterExported) (\<lambda>_.
     serve_until_drained x server pool watch_inputs sched listen_tls addr))))))))"

lemma run_service_alt:
  "run_service x lk =
     then_boot (demand (attempt boot_error_text (pool_config x lk) Inr)) (\<lambda>config.
     then_boot (demand (attempt boot_error_text (migration_lock x lk) Inr)) (\<lambda>lock.
     then_boot (demand (attempt (refusal x) (from_env x lk) Inr)) (\<lambda>listen_tls.
     then_boot (demand (limits_from_env x lk)) (\<lambda>limits.
     then_boot (demand (attempt (refusal x) (builder x listen_tls limits) Inr)) (\<lambda>server.
     then_boot (demand (parse_required_addr x lk ''LISTEN'')) (\<lambda>addr.
     then_boot (demand (parse_required_addr x lk ''METRICS_LISTEN'')) (\<lambda>metrics_addr.
     then_boot (demand (env_required_main lk ''DB_PASSWORD_FILE'')) (\<lambda>db_password_file.
     then_boot (demand (read_secret x db_password_file)) (\<lambda>secret.
     then_boot (watch_and_schedule x listen_tls db_password_file (pc_ssl_ca config)) (\<lambda>(watch_inputs, sched).
     from_probe x config lock server listen_tls addr metrics_addr secret watch_inputs sched))))))))))"
  by (simp add: run_service_def from_probe_def)

text \<open>What the process has decided before it opens anything.\<close>

definition decided_as :: "crates \<Rightarrow> lookup \<Rightarrow> pool_config \<Rightarrow> handle \<Rightarrow> handle option \<Rightarrow> handle \<Rightarrow> handle \<Rightarrow> handle \<Rightarrow> string list \<Rightarrow> handle \<Rightarrow> bool" where
  "decided_as x lk c lock tls server addr secret ws sched \<longleftrightarrow> pool_config x lk = Inr c \<and> migration_lock x lk = Inr lock \<and>
     from_env x lk = Inr tls \<and> (\<exists>limits. limits_from_env x lk = Inr limits \<and> tls_server x tls limits = Inr server) \<and>
     parse_required_addr x lk ''LISTEN'' = Inr addr \<and>
     (\<exists>pw. env_required_main lk ''DB_PASSWORD_FILE'' = Inr pw \<and> read_secret x pw = Inr secret \<and>
        ws = watch_set x tls pw (pc_ssl_ca c)) \<and> schedule x = Inr sched"

lemma decided:
  assumes "run_service x lk [] = (r, ev)"
  shows "(ev = [] \<and> isl r) \<or> (configured x lk \<and> (\<exists>c lock server tls addr maddr secret ws sched.
     decided_as x lk c lock tls server addr secret ws sched \<and>
     from_probe x c lock server tls addr maddr secret ws sched [] = (r, ev)))"
proof (cases "configured x lk")
  case True
  then obtain c lock tls limits server addr maddr pw secret sched where "pool_config x lk = Inr c" "migration_lock x lk = Inr lock"
      "from_env x lk = Inr tls" "limits_from_env x lk = Inr limits" "tls_server x tls limits = Inr server"
      "parse_required_addr x lk ''LISTEN'' = Inr addr" "parse_required_addr x lk ''METRICS_LISTEN'' = Inr maddr"
      "env_required_main lk ''DB_PASSWORD_FILE'' = Inr pw" "read_secret x pw = Inr secret" "schedule x = Inr sched"
    unfolding configured_def by (metis sum.collapse(2))
  moreover from this assms have "from_probe x c lock server tls addr maddr secret (watch_set x tls pw (pc_ssl_ca c)) sched [] = (r, ev)"
    by (simp add: run_service_alt watch_and_schedule_def builder_def Let_def)
  ultimately show ?thesis using True unfolding decided_as_def by blast
next
  case False
  with assms show ?thesis
    unfolding run_service_alt watch_and_schedule_def configured_def builder_def Let_def boot_simps prod.case
    by (auto simp: attempt_def split: sum.splits)
qed

lemma from_probe_order:
  assumes "from_probe x c lock server tls addr maddr secret ws sched [] = (r, ev)"
  shows "\<exists>n m p. m \<in> {MetricsServed, MetricsUnavailable} \<and> prefix ev (boot_order n m addr (tls \<noteq> None) (length ws) sched server p) \<and>
     (ServerSpawned server p addr \<in> set ev \<longrightarrow> probed x c secret \<and> pool_connect x c secret = Inr p \<and>
        (\<exists>ms. migration_set x migration_list = Inr ms \<and> apply_set x p ms lock = Inr n) \<and>
        (\<exists>sg. signal_handlers x = Inr sg \<and>
           r = outcome_served x addr (drain_within x server p addr [Signalled sg, Rotated ws sched]))) \<and>
     (r = Inr () \<longrightarrow> ServerSpawned server p addr \<in> set ev)"
proof -
  obtain r1 ev1 where 1: "probe_engine x c secret [] = (r1, ev1)" by fastforce
  note e = engine_part [OF 1]
  show ?thesis
  proof (cases r1)
    case (Inl s)
    with assms 1 have "ev = ev1" "isl r" by (auto simp: from_probe_def then_boot_def)
    moreover from e have "prefix ev1 [ProbeOpened, ProbeSatisfied, ProbeClosed]" by simp
    ultimately show ?thesis
      by (auto simp: boot_order_def prefix_Cons)
  next
    case (Inr u)
    with e have ev1: "ev1 = [ProbeOpened, ProbeSatisfied, ProbeClosed]" and sat: "probed x c secret" by auto
    let ?m = "if isl (install_prometheus x maddr) then MetricsUnavailable else MetricsServed"
    from assms 1 Inr have rest: "(case pool_connect x c secret of Inl s \<Rightarrow> (Inl s, ev1) | Inr pool \<Rightarrow>
       (case migrations (migration_set x) of Inl s \<Rightarrow> (Inl s, ev1 @ [PoolOpened]) | Inr ms \<Rightarrow>
       (case apply_set x pool ms lock of Inl s \<Rightarrow> (Inl s, ev1 @ [PoolOpened]) | Inr n \<Rightarrow>
          serve_until_drained x server pool ws sched tls addr (ev1 @ [PoolOpened, MigratedTo n, ?m, NotAfterExported])))) = (r, ev)"
      unfolding from_probe_def by (auto simp: then_boot_def [of "probe_engine x c secret"] split: sum.splits)
    show ?thesis
    proof (cases "\<exists>p ms n. pool_connect x c secret = Inr p \<and> migrations (migration_set x) = Inr ms \<and> apply_set x p ms lock = Inr n")
      case True
      then obtain p ms n where ok: "pool_connect x c secret = Inr p" "migrations (migration_set x) = Inr ms" "apply_set x p ms lock = Inr n"
        by blast
      with rest have served: "serve_until_drained x server p ws sched tls addr (ev1 @ [PoolOpened, MigratedTo n, ?m, NotAfterExported]) = (r, ev)"
        by simp
      from serving_part [OF this] obtain ys where ys: "ev = ev1 @ [PoolOpened, MigratedTo n, ?m, NotAfterExported] @ ys"
          "prefix ys [Listening addr (tls \<noteq> None) (length ws) sched, HandlersArmed, ServerSpawned server p addr, DrainOverran]"
          "ServerSpawned server p addr \<in> set ys \<longrightarrow> (\<exists>sg. signal_handlers x = Inr sg \<and>
             r = outcome_served x addr (drain_within x server p addr [Signalled sg, Rotated ws sched]))"
          "r = Inr () \<longrightarrow> ServerSpawned server p addr \<in> set ys" by auto
      have "prefix ev (boot_order n ?m addr (tls \<noteq> None) (length ws) sched server p)" using ys(1,2) by (simp add: ev1 boot_order_def)
      moreover have "?m \<in> {MetricsServed, MetricsUnavailable}" by simp
      moreover have "ServerSpawned server p addr \<in> set ev \<longleftrightarrow> ServerSpawned server p addr \<in> set ys" by (simp add: ys(1) ev1)
      ultimately show ?thesis using ok sat ys(3,4) unfolding migrations_def by blast
    next
      case False
      with rest have "ev = ev1 \<or> ev = ev1 @ [PoolOpened]" "isl r" by (auto split: sum.splits)
      then have "prefix ev (boot_order n m addr (tls \<noteq> None) (length ws) sched server p) \<and> ServerSpawned server p addr \<notin> set ev" "r \<noteq> Inr ()" for n m p
        by (auto simp: ev1 boot_order_def)
      then show ?thesis by blast
    qed
  qed
qed

lemma spawned_in_order:
  assumes "ServerSpawned sv q a \<in> set ev" and "prefix ev (boot_order n m addr t w sched server p)" and "\<forall>x y z. m \<noteq> ServerSpawned x y z"
  shows "sv = server \<and> q = p \<and> a = addr \<and> MigratedTo n \<in> set ev"
  using assms by (auto simp: boot_order_def prefix_Cons)

text \<open>A deployment: the environment the chart renders, and crates that accept it.\<close>

definition sample_crates :: crates where
  "sample_crates = \<lparr>field_max = (\<lambda>k. if k = ''DB_PORT'' then 65535 else 4294967295),
     parse_ssl_mode = (\<lambda>s. if s = ''verify-identity'' then Inr 4 else Inl ''unknown mode''),
     lock_options = (\<lambda>n. if 1 \<le> n then Inr (nat n) else Inl ''below one second''),
     socket_addr = (\<lambda>s. if s = ''0.0.0.0:50051'' then Inr 0 else if s = ''0.0.0.0:9090'' then Inr 1 else Inl ''invalid socket address syntax''),
     show_addr = (\<lambda>h. if h = 0 then ''0.0.0.0:50051'' else ''0.0.0.0:9090''),
     listen_prefix = ''LISTEN'', server_tls = (\<lambda>_ _ _. Inr None), server_limits = (\<lambda>_ _ _. Inr 0), tls_server = (\<lambda>_ _. Inr 0), error_chain = (\<lambda>_. []), tls_files = (\<lambda>_. []),
     read_secret = (\<lambda>_. Inr 0), config_file = ''shared.yaml'', schedule = Inr 0, connect_options = (\<lambda>_ _. Inr 0),
     connect_with = (\<lambda>_. Inr 0), probe_report = (\<lambda>_. Inr 0), satisfies = (\<lambda>_ _. Inr ()), close_conn = (\<lambda>_. Inr ()),
     pool_connect = (\<lambda>_ _. Inr 0), migration_set = (\<lambda>ms. if map mg_version ms = [1..<Suc (length ms)] then Inr (length ms) else Inl ''gap''),
     apply_set = (\<lambda>_ n _. Inr n), install_prometheus = (\<lambda>_. Inl ''address in use''), signal_handlers = Inr 0, drain_within = (\<lambda>_ _ _ _. Overran)\<rparr>"

definition sample_env :: lookup where
  "sample_env = map_of [(''DB_HOST'', ''engine''), (''DB_PORT'', ''13306''), (''DB_NAME'', ''iam''), (''DB_USER'', ''iam''),
     (''DB_MAX_CONNECTIONS'', ''4''), (''REPLICAS'', ''3''), (''DB_ENGINE_MAX_CONNECTIONS'', ''200''), (''DB_ENGINE_OPERATOR_RESERVE'', ''9''),
     (''DB_ACQUIRE_TIMEOUT_SECONDS'', ''11''), (''DB_IDLE_TIMEOUT_SECONDS'', ''733''), (''DB_MAX_LIFETIME_SECONDS'', ''2100''),
     (''DB_SSL_MODE'', ''verify-identity''), (''DB_SSL_CA_FILE'', '' /ca.pem''), (''DB_MIGRATION_LOCK_TIMEOUT_SECONDS'', ''60''),
     (''LISTEN'', ''0.0.0.0:50051''), (''METRICS_LISTEN'', ''0.0.0.0:9090''), (''DB_PASSWORD_FILE'', ''/password'')]"

definition sample_config :: pool_config where
  "sample_config = \<lparr>pc_host = ''engine'', pc_port = 13306, pc_database = ''iam'', pc_username = ''iam'', pc_max_connections = 4,
     pc_replicas = 3, pc_engine_max_connections = 200, pc_operator_reserve = 9, pc_acquire_timeout = 11, pc_idle_timeout = 733,
     pc_max_lifetime = 2100, pc_ssl_mode = 4, pc_ssl_ca = Some ''/ca.pem''\<rparr>"

section \<open>Properties\<close>

text \<open>C39. What the chart renders is what the process reads, and nothing is invented: from an environment that renders a
  configuration, exactly that configuration is read back; with any one of the twelve required knobs absent or
  empty, boot is refused with the sentence that names the variable and its chart value; and the obsolete key is
  refused whatever else is set.\<close>

theorem config_from_the_chart:
  assumes "rendered x c mode lk"
  shows "pool_config x lk = Inr c \<and>
     (\<forall>(k, ck) \<in> set KNOBS. pool_config x (lk(k := None)) = Inl (Missing (not_set k ck)) \<and>
        pool_config x (lk(k := Some [])) = Inl (Missing (set_but_empty k ck))) \<and>
     (\<forall>lk' v. lk' OBSOLETE_TLS_KEY = Some v \<longrightarrow> pool_config x lk' = Inl ObsoleteRequireTls)"
  using pool_config_rendered [OF assms] pool_config_gone [OF assms, where v = None] pool_config_gone [OF assms, where v = "Some []"]
  by (auto simp: missing_def pool_config_def)

lemma sample_rendered: "rendered sample_crates sample_config ''verify-identity'' sample_env"
proof -
  have dec: "dec 13306 = ''13306''" "dec 4 = ''4''" "dec 3 = ''3''" "dec 200 = ''200''" "dec 9 = ''9''" "dec 11 = ''11''"
      "dec 733 = ''733''" "dec 2100 = ''2100''"
    by (simp_all add: dec.simps digit_def char_of_def bit_0)
  obtain a where a: "a = [CHR 0x20]" by blast
  have "blank_run a" "blank_run []"
    unfolding blank_run_def a by (rule exI [of _ "[[CHR 0x20]]"], simp add: WHITE_SPACE_def) (rule exI [of _ "[]"], simp)
  moreover have "\<not> opens_blank (''/ca.pem'' @ []) \<and> \<not> closes_blank ''/ca.pem''" by code_simp
  ultimately have "names_authority (Some (a @ ''/ca.pem'' @ [])) (Some ''/ca.pem'')" unfolding names_authority_def by fastforce
  then have "names_authority (Some '' /ca.pem'') (Some ''/ca.pem'')" by (simp add: a)
  then show ?thesis
    by (simp add: rendered_def num_knob_def text_knob_def sample_config_def sample_crates_def knob_defs U64_MAX_def dec)
       (simp add: sample_env_def)
qed

theorem config_from_the_chart_witness:
  "pool_config sample_crates sample_env = Inr sample_config \<and>
   pool_config sample_crates (sample_env(''REPLICAS'' := Some [])) = Inl (Missing (set_but_empty ''REPLICAS'' REPLICAS_CHART_KEY))"
proof -
  note read = config_from_the_chart [OF sample_rendered]
  have "(''REPLICAS'', REPLICAS_CHART_KEY) \<in> set KNOBS" by (simp add: KNOBS_def)
  from bspec [OF read [THEN conjunct2, THEN conjunct1] this] read [THEN conjunct1] show ?thesis by (simp only: prod.case)
qed

text \<open>C40. Probe, migrate, then serve: whatever the environment holds and whatever the other crates answer, the events of a
  run are an initial part of the one order of boot, and nothing is opened before every knob, the transport, its limits,
  the addresses, the password and the schedule are accepted. What is spawned is the server built of the transport and
  of the limits the environment configures, on the address it names, so that it is without TLS only where the
  configuration says so; its service is built on a pool of the configured engine, probed with the same configuration
  and found to have the required capabilities, with the migrations applied on that pool. Only the signals and a change
  in the files watched, the password and the document always among them, can ask it to stop; and the process exits
  with success exactly when such a server was spawned and its serving ended without an error or overran its drain.\<close>

theorem serves_only_when_ready:
  assumes "run_service x lk [] = (r, ev)"
  shows "(\<exists>n m a t w sched sv p. m \<in> {MetricsServed, MetricsUnavailable} \<and> prefix ev (boot_order n m a t w sched sv p) \<and> (t \<longleftrightarrow> from_env x lk \<noteq> Inr None) \<and> 2 \<le> w) \<and>
     (ev \<noteq> [] \<longrightarrow> configured x lk) \<and>
     (\<forall>sv p a. ServerSpawned sv p a \<in> set ev \<longrightarrow>
       (\<exists>c lock tls limits pw secret sched ms n sg.
          from_env x lk = Inr tls \<and> limits_from_env x lk = Inr limits \<and> tls_server x tls limits = Inr sv \<and>
          parse_required_addr x lk ''LISTEN'' = Inr a \<and> pool_config x lk = Inr c \<and> migration_lock x lk = Inr lock \<and>
          env_required_main lk ''DB_PASSWORD_FILE'' = Inr pw \<and> read_secret x pw = Inr secret \<and> schedule x = Inr sched \<and>
          probed x c secret \<and> pool_connect x c secret = Inr p \<and>
          migration_set x migration_list = Inr ms \<and> apply_set x p ms lock = Inr n \<and> MigratedTo n \<in> set ev \<and>
          {pw, config_file x} \<subseteq> set (watch_set x tls pw (pc_ssl_ca c)) \<and>
          r = outcome_served x a (drain_within x sv p a [Signalled sg, Rotated (watch_set x tls pw (pc_ssl_ca c)) sched]))) \<and>
     (fst (main_exit x lk) = SUCCESS \<longleftrightarrow> r = Inr () \<and> (\<exists>sv p a. ServerSpawned sv p a \<in> set ev))"
proof -
  have ex: "fst (main_exit x lk) = SUCCESS \<longleftrightarrow> r = Inr ()" using assms by (auto simp: main_exit_def split: sum.splits)
  from decided [OF assms] show ?thesis
  proof
    assume "ev = [] \<and> isl r"
    then show ?thesis using ex by auto
  next
    assume "configured x lk \<and> (\<exists>c lock server tls addr maddr secret ws sched.
       decided_as x lk c lock tls server addr secret ws sched \<and>
       from_probe x c lock server tls addr maddr secret ws sched [] = (r, ev))"
    then obtain c lock server tls addr maddr secret ws sched where conf: "configured x lk"
        and as: "decided_as x lk c lock tls server addr secret ws sched"
        and f: "from_probe x c lock server tls addr maddr secret ws sched [] = (r, ev)" by blast
    from from_probe_order [OF f] obtain n m p where m: "m \<in> {MetricsServed, MetricsUnavailable}" and order: "prefix ev (boot_order n m addr (tls \<noteq> None) (length ws) sched server p)"
        and spawn: "ServerSpawned server p addr \<in> set ev \<longrightarrow> probed x c secret \<and> pool_connect x c secret = Inr p \<and>
          (\<exists>ms. migration_set x migration_list = Inr ms \<and> apply_set x p ms lock = Inr n) \<and>
          (\<exists>sg. signal_handlers x = Inr sg \<and>
             r = outcome_served x addr (drain_within x server p addr [Signalled sg, Rotated ws sched]))"
        and went: "r = Inr () \<longrightarrow> ServerSpawned server p addr \<in> set ev" by blast
    have tls: "from_env x lk = Inr tls" and "2 \<le> length ws" using as by (auto simp: decided_as_def watch_set_def)
    then have "m \<in> {MetricsServed, MetricsUnavailable} \<and> prefix ev (boot_order n m addr (tls \<noteq> None) (length ws) sched server p) \<and>
        ((tls \<noteq> None) \<longleftrightarrow> from_env x lk \<noteq> Inr None) \<and> 2 \<le> length ws" using m order by simp
    then have "\<exists>n m a t w sched sv p. m \<in> {MetricsServed, MetricsUnavailable} \<and> prefix ev (boot_order n m a t w sched sv p) \<and>
        (t \<longleftrightarrow> from_env x lk \<noteq> Inr None) \<and> 2 \<le> w" by blast
    moreover have one: "sv = server \<and> q = p \<and> a = addr" and mig: "MigratedTo n \<in> set ev" if "ServerSpawned sv q a \<in> set ev" for sv q a
      using spawned_in_order [OF that order] m by auto
    moreover have "\<exists>c lock tls limits pw secret sched ms n sg.
          from_env x lk = Inr tls \<and> limits_from_env x lk = Inr limits \<and> tls_server x tls limits = Inr server \<and>
          parse_required_addr x lk ''LISTEN'' = Inr addr \<and> pool_config x lk = Inr c \<and> migration_lock x lk = Inr lock \<and>
          env_required_main lk ''DB_PASSWORD_FILE'' = Inr pw \<and> read_secret x pw = Inr secret \<and> schedule x = Inr sched \<and>
          probed x c secret \<and> pool_connect x c secret = Inr p \<and>
          migration_set x migration_list = Inr ms \<and> apply_set x p ms lock = Inr n \<and> MigratedTo n \<in> set ev \<and>
          {pw, config_file x} \<subseteq> set (watch_set x tls pw (pc_ssl_ca c)) \<and>
          r = outcome_served x addr (drain_within x server p addr [Signalled sg, Rotated (watch_set x tls pw (pc_ssl_ca c)) sched])"
      if "ServerSpawned server p addr \<in> set ev"
    proof -
      from as obtain limits pw where "pool_config x lk = Inr c" "migration_lock x lk = Inr lock" "from_env x lk = Inr tls"
          "limits_from_env x lk = Inr limits" "tls_server x tls limits = Inr server" "parse_required_addr x lk ''LISTEN'' = Inr addr"
          "env_required_main lk ''DB_PASSWORD_FILE'' = Inr pw" "read_secret x pw = Inr secret" "schedule x = Inr sched"
          and ws: "ws = watch_set x tls pw (pc_ssl_ca c)" unfolding decided_as_def by blast
      moreover have "{pw, config_file x} \<subseteq> set (watch_set x tls pw (pc_ssl_ca c))" by (simp add: watch_set_def)
      ultimately show ?thesis using spawn that mig [OF that] unfolding ws by blast
    qed
    ultimately show ?thesis using conf ex went by blast
  qed
qed

theorem serves_only_when_ready_witness:
  "configured sample_crates sample_env \<and> fst (main_exit sample_crates sample_env) = SUCCESS"
proof -
  have "run_service sample_crates sample_env [] = (Inr (), [ProbeOpened, ProbeSatisfied, ProbeClosed, PoolOpened, MigratedTo 21,
     MetricsUnavailable, NotAfterExported, Listening 0 False 3 0, HandlersArmed, ServerSpawned 0 0 0, DrainOverran])"
    by code_simp
  from serves_only_when_ready [OF this] show ?thesis by auto
qed

end
