(* ===== verification/Schema.thy ===== *)
theory Schema
  imports Migrations
begin

text \<open>
  The constrained writes of \<open>Store\<close> against the schema the migrations build. \<open>meets\<close> reads the PRIMARY,
  UNIQUE, FOREIGN KEY and CHECK clauses of a catalogue on the rows of a store; a constrained write
  is accepted exactly when the clauses of the migrated catalogue hold of the rows it would leave.
\<close>

section \<open>The clauses, read on a store\<close>

text \<open>What a key column holds: text under its collation, bytes, or a number.\<close>

datatype cell = Text string | Bytes bytes | Number int

definition text_cell :: "string \<Rightarrow> cell" where
  "text_cell s = Text (text_key s)"

text \<open>The tables of a store by name, each row with the columns some clause names.\<close>

definition stored :: "db \<Rightarrow> (string \<times> (string \<times> cell) list list) list" where
  "stored d =
    [(''iam_user'', map (\<lambda>u. [(''id'', text_cell (u_id u)), (''external_id_blind_index'', Bytes (u_blind_index u))]) (iam_user d)),
     (''iam_password'', map (\<lambda>p. [(''user_id'', text_cell (p_user_id p))]) (iam_password d)),
     (''iam_team'', map (\<lambda>t. [(''id'', text_cell (t_id t)), (''name'', text_cell (t_name t))]) (iam_team d)),
     (''iam_team_member'', map (\<lambda>m. [(''team_id'', text_cell (m_team_id m)), (''user_id'', text_cell (m_user_id m))]) (iam_team_member d)),
     (''iam_credential'', map (\<lambda>c. [(''id'', text_cell (c_id c)), (''user_id'', text_cell (c_user_id c)),
        (''token_hash'', Bytes (c_token_hash c))]) (iam_credential d)),
     (''iam_enrolment'', map (\<lambda>n. [(''id'', text_cell (e_id n)), (''user_id'', text_cell (e_user_id n)),
        (''secret_hash'', Bytes (e_secret_hash n))]) (iam_enrolment d)),
     (''iam_enrolment_redemption'', map (\<lambda>r. [(''idempotency_key'', text_cell (rd_key r)),
        (''enrolment_id'', text_cell (rd_enrolment_id r))]) (iam_enrolment_redemption d)),
     (''iam_rate_limit_override'', map (\<lambda>l. [(''user_id'', text_cell (rl_user_id l)), (''module'', text_cell (rl_module l)),
        (''kind'', Number (rl_kind l))]) (iam_rate_limit_override d)),
     (''iam_org_setting'', map (\<lambda>s. [(''name'', text_cell (os_name s)), (''value'', Number (os_value s))]) (iam_org_setting d)),
     (''iam_team_setting_override'', map (\<lambda>s. [(''name'', text_cell (to_name s)), (''team_id'', text_cell (to_team_id s)),
        (''value'', Number (to_value s))]) (iam_team_setting_override d)),
     (''iam_inherited_setting_write'', map (\<lambda>w. [(''idempotency_key'', text_cell (sw_key w))]) (iam_inherited_setting_write d)),
     (''iam_key_identity'', (case iam_key_identity d of None \<Rightarrow> [] | Some k \<Rightarrow> [[(''singleton'', Number 1)]])),
     (''iam_team_member_pending'', map (\<lambda>p. [(''team_id'', text_cell (pd_team_id p)), (''user_id'', text_cell (pd_user_id p))])
        (iam_team_member_pending d)),
     (''iam_team_sync_lock'', (if iam_team_sync_lock d then [[(''id'', Number 1)]] else []))]"

definition stored_rows :: "string \<Rightarrow> db \<Rightarrow> (string \<times> cell) list list" where
  "stored_rows n d = (case map_of (stored d) n of None \<Rightarrow> [] | Some rs \<Rightarrow> rs)"

fun holds :: "db \<Rightarrow> (string \<times> cell) list list \<Rightarrow> table_constraint \<Rightarrow> bool" where
  "holds d rs (PrimaryKey ks) = distinct (map (\<lambda>r. map (map_of r) ks) rs)"
| "holds d rs (UniqueKey n ks) = distinct (map (\<lambda>r. map (map_of r) ks) rs)"
| "holds d rs (Key n ks) = True"
| "holds d rs (ForeignKey n ks t ks') = list_all (\<lambda>r. list_ex (\<lambda>r'. map (map_of r') ks' = map (map_of r) ks) (stored_rows t d)) rs"
| "holds d rs (CheckIn n k vs) = list_all (\<lambda>r. case map_of r k of Some (Number i) \<Rightarrow> i \<in> set vs | _ \<Rightarrow> False) rs"

definition table_holds :: "db \<Rightarrow> string \<Rightarrow> table_constraint list \<Rightarrow> bool" where
  "table_holds d n ks \<longleftrightarrow> list_all (holds d (stored_rows n d)) ks"

definition meets :: "table list \<Rightarrow> db \<Rightarrow> bool" where
  "meets ts d \<longleftrightarrow> list_all (\<lambda>t. table_holds d (tb_name t) (tb_constraints t)) ts"

section \<open>The migrated clauses\<close>

lemma clauses:
  "map_option (map (\<lambda>t. (tb_name t, tb_constraints t))) (schema_at 21) = Some
    [(''iam_user'', [PrimaryKey [''id''], UniqueKey ''uq_iam_user_blind_index'' [''external_id_blind_index'']]),
     (''iam_password'', [PrimaryKey [''user_id''], ForeignKey ''fk_iam_password_user'' [''user_id''] ''iam_user'' [''id'']]),
     (''iam_team'', [PrimaryKey [''id''], UniqueKey ''uq_iam_team_name'' [''name'']]),
     (''iam_team_member'', [PrimaryKey [''team_id'', ''user_id''], Key ''ix_iam_team_member_user'' [''user_id''],
        ForeignKey ''fk_iam_team_member_team'' [''team_id''] ''iam_team'' [''id''],
        ForeignKey ''fk_iam_team_member_user'' [''user_id''] ''iam_user'' [''id'']]),
     (''iam_credential'', [PrimaryKey [''id''], UniqueKey ''uq_iam_credential_token'' [''token_hash''],
        Key ''ix_iam_credential_user'' [''user_id''], ForeignKey ''fk_iam_credential_user'' [''user_id''] ''iam_user'' [''id'']]),
     (''iam_enrolment'', [PrimaryKey [''id''], UniqueKey ''uq_iam_enrolment_secret'' [''secret_hash''],
        Key ''ix_iam_enrolment_user'' [''user_id''], ForeignKey ''fk_iam_enrolment_user'' [''user_id''] ''iam_user'' [''id'']]),
     (''iam_enrolment_redemption'', [PrimaryKey [''idempotency_key''], Key ''ix_iam_enrolment_redemption_enrolment'' [''enrolment_id''],
        ForeignKey ''fk_iam_enrolment_redemption_enrolment'' [''enrolment_id''] ''iam_enrolment'' [''id'']]),
     (''iam_rate_limit_override'', [PrimaryKey [''user_id'', ''module'', ''kind''],
        ForeignKey ''fk_iam_rate_limit_override_user'' [''user_id''] ''iam_user'' [''id'']]),
     (''iam_org_setting'', [PrimaryKey [''name''], CheckIn ''ck_iam_org_setting_value'' ''value'' [1, 2]]),
     (''iam_team_setting_override'', [PrimaryKey [''name'', ''team_id''], CheckIn ''ck_iam_team_setting_override_value'' ''value'' [1, 2],
        ForeignKey ''fk_iam_team_setting_override_team'' [''team_id''] ''iam_team'' [''id'']]),
     (''iam_inherited_setting_write'', [PrimaryKey [''idempotency_key'']]),
     (''iam_key_identity'', [PrimaryKey [''singleton''], CheckIn ''ck_iam_key_identity_singleton'' ''singleton'' [1]]),
     (''iam_team_member_pending'', [PrimaryKey [''team_id'', ''user_id''],
        ForeignKey ''fk_iam_team_member_pending_team'' [''team_id''] ''iam_team'' [''id'']]),
     (''iam_team_sync_lock'', [PrimaryKey [''id''], CheckIn ''ck_iam_team_sync_lock_one'' ''id'' [1]])]"
  by code_simp

lemma meets_clauses:
  "meets ts d \<longleftrightarrow> list_all (\<lambda>(n, ks). table_holds d n ks) (map (\<lambda>t. (tb_name t, tb_constraints t)) ts)"
  by (simp add: meets_def list_all_iff)

text \<open>The clauses of the migrated catalogue, table by table.\<close>

lemmas cell_defs = stored_rows_def stored_def text_cell_def has_user_def has_team_def has_enrolment_def list_all_iff list_ex_iff distinct_map inj_on_def

lemma table_clauses:
  "table_holds d ''iam_user'' [PrimaryKey [''id''], UniqueKey n [''external_id_blind_index'']] \<longleftrightarrow>
     distinct (map (\<lambda>u. text_key (u_id u)) (iam_user d)) \<and> distinct (map u_blind_index (iam_user d))"
  "table_holds d ''iam_password'' [PrimaryKey [''user_id''], ForeignKey n [''user_id''] ''iam_user'' [''id'']] \<longleftrightarrow>
     distinct (map (\<lambda>p. text_key (p_user_id p)) (iam_password d)) \<and> (\<forall>p \<in> set (iam_password d). has_user d (p_user_id p))"
  "table_holds d ''iam_team'' [PrimaryKey [''id''], UniqueKey n [''name'']] \<longleftrightarrow>
     distinct (map (\<lambda>t. text_key (t_id t)) (iam_team d)) \<and> distinct (map (\<lambda>t. text_key (t_name t)) (iam_team d))"
  "table_holds d ''iam_team_member'' [PrimaryKey [''team_id'', ''user_id''], Key n [''user_id''], ForeignKey n' [''team_id''] ''iam_team'' [''id''], ForeignKey n'' [''user_id''] ''iam_user'' [''id'']] \<longleftrightarrow>
     distinct (map (\<lambda>m. (text_key (m_team_id m), text_key (m_user_id m))) (iam_team_member d)) \<and> (\<forall>m \<in> set (iam_team_member d). has_team d (m_team_id m) \<and> has_user d (m_user_id m))"
  "table_holds d ''iam_credential'' [PrimaryKey [''id''], UniqueKey n [''token_hash''], Key n' [''user_id''], ForeignKey n'' [''user_id''] ''iam_user'' [''id'']] \<longleftrightarrow>
     distinct (map (\<lambda>c. text_key (c_id c)) (iam_credential d)) \<and> distinct (map c_token_hash (iam_credential d)) \<and> (\<forall>c \<in> set (iam_credential d). has_user d (c_user_id c))"
  "table_holds d ''iam_enrolment'' [PrimaryKey [''id''], UniqueKey n [''secret_hash''], Key n' [''user_id''], ForeignKey n'' [''user_id''] ''iam_user'' [''id'']] \<longleftrightarrow>
     distinct (map (\<lambda>n. text_key (e_id n)) (iam_enrolment d)) \<and> distinct (map e_secret_hash (iam_enrolment d)) \<and> (\<forall>n \<in> set (iam_enrolment d). has_user d (e_user_id n))"
  "table_holds d ''iam_enrolment_redemption'' [PrimaryKey [''idempotency_key''], Key n [''enrolment_id''], ForeignKey n' [''enrolment_id''] ''iam_enrolment'' [''id'']] \<longleftrightarrow>
     distinct (map (\<lambda>r. text_key (rd_key r)) (iam_enrolment_redemption d)) \<and> (\<forall>r \<in> set (iam_enrolment_redemption d). has_enrolment d (rd_enrolment_id r))"
  "table_holds d ''iam_rate_limit_override'' [PrimaryKey [''user_id'', ''module'', ''kind''], ForeignKey n [''user_id''] ''iam_user'' [''id'']] \<longleftrightarrow>
     distinct (map (\<lambda>l. (text_key (rl_user_id l), text_key (rl_module l), rl_kind l)) (iam_rate_limit_override d)) \<and> (\<forall>l \<in> set (iam_rate_limit_override d). has_user d (rl_user_id l))"
  "table_holds d ''iam_org_setting'' [PrimaryKey [''name''], CheckIn n ''value'' [1, 2]] \<longleftrightarrow>
     distinct (map (\<lambda>s. text_key (os_name s)) (iam_org_setting d)) \<and> (\<forall>s \<in> set (iam_org_setting d). os_value s \<in> {1, 2})"
  "table_holds d ''iam_team_setting_override'' [PrimaryKey [''name'', ''team_id''], CheckIn n ''value'' [1, 2], ForeignKey n' [''team_id''] ''iam_team'' [''id'']] \<longleftrightarrow>
     distinct (map (\<lambda>s. (text_key (to_name s), text_key (to_team_id s))) (iam_team_setting_override d)) \<and> (\<forall>s \<in> set (iam_team_setting_override d). to_value s \<in> {1, 2} \<and> has_team d (to_team_id s))"
  "table_holds d ''iam_inherited_setting_write'' [PrimaryKey [''idempotency_key'']] \<longleftrightarrow>
     distinct (map (\<lambda>w. text_key (sw_key w)) (iam_inherited_setting_write d))"
  "table_holds d ''iam_key_identity'' [PrimaryKey [''singleton''], CheckIn n ''singleton'' [1]] \<longleftrightarrow>
     True"
  "table_holds d ''iam_team_member_pending'' [PrimaryKey [''team_id'', ''user_id''], ForeignKey n [''team_id''] ''iam_team'' [''id'']] \<longleftrightarrow>
     distinct (map (\<lambda>p. (text_key (pd_team_id p), text_key (pd_user_id p))) (iam_team_member_pending d)) \<and> (\<forall>p \<in> set (iam_team_member_pending d). has_team d (pd_team_id p))"
  "table_holds d ''iam_team_sync_lock'' [PrimaryKey [''id''], CheckIn n ''id'' [1]] \<longleftrightarrow>
     True"
  by (auto simp: table_holds_def cell_defs split: option.splits)

definition clauses_hold :: "db \<Rightarrow> bool" where
  "clauses_hold d \<longleftrightarrow>
     distinct (map (\<lambda>u. text_key (u_id u)) (iam_user d)) \<and> distinct (map u_blind_index (iam_user d)) \<and>
     distinct (map (\<lambda>p. text_key (p_user_id p)) (iam_password d)) \<and> (\<forall>p \<in> set (iam_password d). has_user d (p_user_id p)) \<and>
     distinct (map (\<lambda>t. text_key (t_id t)) (iam_team d)) \<and> distinct (map (\<lambda>t. text_key (t_name t)) (iam_team d)) \<and>
     distinct (map (\<lambda>m. (text_key (m_team_id m), text_key (m_user_id m))) (iam_team_member d)) \<and> (\<forall>m \<in> set (iam_team_member d). has_team d (m_team_id m) \<and> has_user d (m_user_id m)) \<and>
     distinct (map (\<lambda>c. text_key (c_id c)) (iam_credential d)) \<and> distinct (map c_token_hash (iam_credential d)) \<and> (\<forall>c \<in> set (iam_credential d). has_user d (c_user_id c)) \<and>
     distinct (map (\<lambda>n. text_key (e_id n)) (iam_enrolment d)) \<and> distinct (map e_secret_hash (iam_enrolment d)) \<and> (\<forall>n \<in> set (iam_enrolment d). has_user d (e_user_id n)) \<and>
     distinct (map (\<lambda>r. text_key (rd_key r)) (iam_enrolment_redemption d)) \<and> (\<forall>r \<in> set (iam_enrolment_redemption d). has_enrolment d (rd_enrolment_id r)) \<and>
     distinct (map (\<lambda>l. (text_key (rl_user_id l), text_key (rl_module l), rl_kind l)) (iam_rate_limit_override d)) \<and> (\<forall>l \<in> set (iam_rate_limit_override d). has_user d (rl_user_id l)) \<and>
     distinct (map (\<lambda>s. text_key (os_name s)) (iam_org_setting d)) \<and> (\<forall>s \<in> set (iam_org_setting d). os_value s \<in> {1, 2}) \<and>
     distinct (map (\<lambda>s. (text_key (to_name s), text_key (to_team_id s))) (iam_team_setting_override d)) \<and> (\<forall>s \<in> set (iam_team_setting_override d). to_value s \<in> {1, 2} \<and> has_team d (to_team_id s)) \<and>
     distinct (map (\<lambda>w. text_key (sw_key w)) (iam_inherited_setting_write d)) \<and>
     distinct (map (\<lambda>p. (text_key (pd_team_id p), text_key (pd_user_id p))) (iam_team_member_pending d)) \<and> (\<forall>p \<in> set (iam_team_member_pending d). has_team d (pd_team_id p))"

lemma meets_migrated:
  assumes "schema_at 21 = Some ts"
  shows "meets ts d \<longleftrightarrow> clauses_hold d"
proof -
  have "meets ts d \<longleftrightarrow> list_all (\<lambda>(n, ks). table_holds d n ks)
      (the (map_option (map (\<lambda>t. (tb_name t, tb_constraints t))) (schema_at 21)))"
    using meets_clauses by (simp add: assms)
  also have "\<dots> \<longleftrightarrow> clauses_hold d"
    unfolding clauses option.sel by (simp only: list.pred_inject prod.case table_clauses clauses_hold_def simp_thms conj_assoc)
  finally show ?thesis .
qed

lemma in_image: "k \<in> f ` S \<longleftrightarrow> (\<exists>x \<in> S. f x = k)"
  by auto

lemma keys_has: "text_key x \<in> user_keys d \<longleftrightarrow> has_user d x" "text_key x \<in> team_keys d \<longleftrightarrow> has_team d x"
  by (auto simp: user_keys_def team_keys_def has_user_def has_team_def list_ex_iff in_image)

lemma spent_has: "(\<exists>e \<in> set (iam_enrolment d). spent_as r e) \<Longrightarrow> has_enrolment d (rd_enrolment_id r)"
  by (force simp: spent_as_def has_enrolment_def list_ex_iff)

lemma store_clauses: "store_ok d \<Longrightarrow> clauses_hold d"
  unfolding clauses_hold_def store_ok_def users_ok_def passwords_ok_def teams_ok_def members_ok_def credentials_ok_def
    enrolments_ok_def redemptions_ok_def rate_limits_ok_def settings_ok_def setting_writes_ok_def pending_ok_def keys_has
  by (elim conjE, intro conjI) (blast intro: spent_has)+

lemma has_frames [simp]:
  "has_user (iam_password_update f1 d) x = has_user d x" "has_user (iam_team_update f2 d) x = has_user d x"
  "has_user (iam_team_member_update f3 d) x = has_user d x" "has_user (iam_credential_update f4 d) x = has_user d x"
  "has_user (iam_enrolment_update f5 d) x = has_user d x" "has_user (iam_enrolment_redemption_update f6 d) x = has_user d x"
  "has_user (iam_rate_limit_override_update f7 d) x = has_user d x" "has_user (iam_org_setting_update f8 d) x = has_user d x"
  "has_user (iam_team_setting_override_update f9 d) x = has_user d x" "has_user (iam_inherited_setting_write_update f10 d) x = has_user d x"
  "has_user (iam_team_member_pending_update f11 d) x = has_user d x" "has_team (iam_user_update f12 d) x = has_team d x"
  "has_team (iam_password_update f13 d) x = has_team d x" "has_team (iam_team_member_update f14 d) x = has_team d x"
  "has_team (iam_credential_update f15 d) x = has_team d x" "has_team (iam_enrolment_update f16 d) x = has_team d x"
  "has_team (iam_enrolment_redemption_update f17 d) x = has_team d x" "has_team (iam_rate_limit_override_update f18 d) x = has_team d x"
  "has_team (iam_org_setting_update f19 d) x = has_team d x" "has_team (iam_team_setting_override_update f20 d) x = has_team d x"
  "has_team (iam_inherited_setting_write_update f21 d) x = has_team d x" "has_team (iam_team_member_pending_update f22 d) x = has_team d x"
  "has_enrolment (iam_user_update f23 d) x = has_enrolment d x" "has_enrolment (iam_password_update f24 d) x = has_enrolment d x"
  "has_enrolment (iam_team_update f25 d) x = has_enrolment d x" "has_enrolment (iam_team_member_update f26 d) x = has_enrolment d x"
  "has_enrolment (iam_credential_update f27 d) x = has_enrolment d x" "has_enrolment (iam_enrolment_redemption_update f28 d) x = has_enrolment d x"
  "has_enrolment (iam_rate_limit_override_update f29 d) x = has_enrolment d x" "has_enrolment (iam_org_setting_update f30 d) x = has_enrolment d x"
  "has_enrolment (iam_team_setting_override_update f31 d) x = has_enrolment d x" "has_enrolment (iam_inherited_setting_write_update f32 d) x = has_enrolment d x"
  "has_enrolment (iam_team_member_pending_update f33 d) x = has_enrolment d x"
  by (simp_all add: has_user_def has_team_def has_enrolment_def)

lemma more_rows [simp]:
  "has_user (d\<lparr>iam_user := iam_user d @ [u]\<rparr>) x \<longleftrightarrow> has_user d x \<or> sql_eq (u_id u) x"
  "has_team (d\<lparr>iam_team := iam_team d @ [t]\<rparr>) x \<longleftrightarrow> has_team d x \<or> sql_eq (t_id t) x"
  "has_enrolment (d\<lparr>iam_enrolment := iam_enrolment d @ [n]\<rparr>) x \<longleftrightarrow> has_enrolment d x \<or> sql_eq (e_id n) x"
  by (simp_all add: has_user_def has_team_def has_enrolment_def)

lemma accepted_user:
  "clauses_hold d \<Longrightarrow> (\<exists>d'. ins_user u d = Inr d') \<longleftrightarrow> clauses_hold (d\<lparr>iam_user := iam_user d @ [u]\<rparr>)"
  unfolding clauses_hold_def ins_user_def by (auto simp: has_user_def list_ex_iff in_image)

lemma accepted_team:
  "clauses_hold d \<Longrightarrow> (\<exists>d'. ins_team t d = Inr d') \<longleftrightarrow> clauses_hold (d\<lparr>iam_team := iam_team d @ [t]\<rparr>)"
  unfolding clauses_hold_def ins_team_def by (auto simp: has_team_def list_ex_iff in_image)

lemma accepted_member:
  "clauses_hold d \<Longrightarrow> (\<exists>d'. ins_member m d = Inr d') \<longleftrightarrow> clauses_hold (d\<lparr>iam_team_member := iam_team_member d @ [m]\<rparr>)"
  unfolding clauses_hold_def ins_member_def by (auto simp: list_ex_iff in_image)

lemma accepted_credential:
  "clauses_hold d \<Longrightarrow> (\<exists>d'. ins_credential c d = Inr d') \<longleftrightarrow> clauses_hold (d\<lparr>iam_credential := iam_credential d @ [c]\<rparr>)"
  unfolding clauses_hold_def ins_credential_def by (auto simp: list_ex_iff in_image)

lemma accepted_enrolment:
  "clauses_hold d \<Longrightarrow> (\<exists>d'. ins_enrolment n d = Inr d') \<longleftrightarrow> clauses_hold (d\<lparr>iam_enrolment := iam_enrolment d @ [n]\<rparr>)"
  unfolding clauses_hold_def ins_enrolment_def by (auto simp: has_enrolment_def list_ex_iff in_image)

lemma accepted_redemption:
  "clauses_hold d \<Longrightarrow> (\<exists>d'. ins_redemption r d = Inr d') \<longleftrightarrow> clauses_hold (d\<lparr>iam_enrolment_redemption := iam_enrolment_redemption d @ [r]\<rparr>)"
  unfolding clauses_hold_def ins_redemption_def by (auto simp: list_ex_iff in_image)

lemma accepted_setting_write:
  "clauses_hold d \<Longrightarrow> (\<exists>d'. ins_setting_write w d = Inr d') \<longleftrightarrow> clauses_hold (d\<lparr>iam_inherited_setting_write := iam_inherited_setting_write d @ [w]\<rparr>)"
  unfolding clauses_hold_def ins_setting_write_def by (auto simp: list_ex_iff in_image)

lemma accepted_pending:
  "clauses_hold d \<Longrightarrow> (\<exists>d'. ins_pending p d = Inr d') \<longleftrightarrow> clauses_hold (d\<lparr>iam_team_member_pending := iam_team_member_pending d @ [p]\<rparr>)"
  unfolding clauses_hold_def ins_pending_def by (auto simp: list_ex_iff in_image)

lemma upserted_password:
  "clauses_hold d \<Longrightarrow> (\<exists>y. ups_password x h d = Inr y) \<longleftrightarrow>
     clauses_hold (d\<lparr>iam_password := del (\<lambda>p. sql_eq (p_user_id p) x) (iam_password d) @ [\<lparr>p_user_id = x, p_hash = h\<rparr>]\<rparr>)"
  unfolding clauses_hold_def ups_password_def by (auto simp: del_def in_image distinct_map_filter Let_def split: prod.splits)

lemma upserted_rate_limit:
  "clauses_hold d \<Longrightarrow> (\<exists>y. ups_rate_limit l d = Inr y) \<longleftrightarrow>
     clauses_hold (d\<lparr>iam_rate_limit_override := del (\<lambda>v. sql_eq (rl_user_id v) (rl_user_id l) \<and>
       sql_eq (rl_module v) (rl_module l) \<and> rl_kind v = rl_kind l) (iam_rate_limit_override d) @ [l]\<rparr>)"
  unfolding clauses_hold_def ups_rate_limit_def by (auto simp: del_def in_image distinct_map_filter Let_def split: prod.splits)

lemma upserted_org_setting:
  "clauses_hold d \<Longrightarrow> (\<exists>y. ups_org_setting s d = Inr y) \<longleftrightarrow>
     clauses_hold (d\<lparr>iam_org_setting := del (\<lambda>v. sql_eq (os_name v) (os_name s)) (iam_org_setting d) @ [s]\<rparr>)"
  unfolding clauses_hold_def ups_org_setting_def by (auto simp: del_def in_image distinct_map_filter Let_def split: prod.splits)

lemma upserted_team_override:
  "clauses_hold d \<Longrightarrow> (\<exists>y. ups_team_override s d = Inr y) \<longleftrightarrow>
     clauses_hold (d\<lparr>iam_team_setting_override := del (\<lambda>v. sql_eq (to_name v) (to_name s) \<and>
       sql_eq (to_team_id v) (to_team_id s)) (iam_team_setting_override d) @ [s]\<rparr>)"
  unfolding clauses_hold_def ups_team_override_def by (auto simp: del_def in_image distinct_map_filter Let_def split: prod.splits)

section \<open>Properties\<close>



end
