(* ===== verification/Progress.thy ===== *)
theory Progress
  imports Bootstrap Revocation
begin

text \<open>
  What gets done when nothing stands in the way: total triples of a calm transaction (no refused
  statement, no lost reply, no other session), and with them the way of a person from an enrolment
  to a credential that resolves. The partial triples of \<open>Alone\<close> say what a call did if it answered;
  these say that it answers.
\<close>

section \<open>Total triples\<close>

definition goes :: "env \<Rightarrow> (db \<Rightarrow> bool) \<Rightarrow> 'a act \<Rightarrow> ('a \<Rightarrow> db \<Rightarrow> bool) \<Rightarrow> bool" where
  "goes e P m Q \<longleftrightarrow> (\<forall>w. tx w \<noteq> None \<longrightarrow> P (cur w) \<longrightarrow>
     (\<exists>x w'. m e w = (Inr x, w') \<and> tx w' \<noteq> None \<and> Q x (cur w')))"

definition lands :: "env \<Rightarrow> (db \<Rightarrow> bool) \<Rightarrow> 'a act \<Rightarrow> ('a \<Rightarrow> db \<Rightarrow> bool) \<Rightarrow> bool" where
  "lands e P m Q \<longleftrightarrow> (\<forall>w. tx w \<noteq> None \<longrightarrow> P (cur w) \<longrightarrow> (\<exists>x w'. m e w = (Inr x, w') \<and> Q x (committed w')))"

lemma goes_ok: "(\<And>d. P d \<Longrightarrow> Q x d) \<Longrightarrow> goes e P (ok x) Q"
  by (simp add: goes_def ok_def)

lemma goes_then:
  assumes "goes e P m Q" and "\<And>x. goes e (Q x) (f x) S" shows "goes e P (and_then m f) S"
  unfolding goes_def
proof (intro allI impI)
  fix w
  assume "tx w \<noteq> None" "P (cur w)"
  with assms(1) obtain x w1 where m: "m e w = (Inr x, w1)" "tx w1 \<noteq> None" "Q x (cur w1)" unfolding goes_def by blast
  with assms(2) show "\<exists>y w'. and_then m f e w = (Inr y, w') \<and> tx w' \<noteq> None \<and> S y (cur w')"
    unfolding goes_def by (simp add: and_then_def)
qed

lemma lands_then:
  assumes "goes e P m Q" and "\<And>x. lands e (Q x) (f x) S" shows "lands e P (and_then m f) S"
  unfolding lands_def
proof (intro allI impI)
  fix w
  assume "tx w \<noteq> None" "P (cur w)"
  with assms(1) obtain x w1 where m: "m e w = (Inr x, w1)" "tx w1 \<noteq> None" "Q x (cur w1)" unfolding goes_def by blast
  with assms(2) show "\<exists>y w'. and_then m f e w = (Inr y, w') \<and> S y (committed w')"
    unfolding lands_def by (simp add: and_then_def)
qed

lemma goes_stmt:
  assumes "calm e" and "\<And>n d. P d \<Longrightarrow> \<exists>x d'. s (clock e n) d = Inr (x, d') \<and> Q x d'"
  shows "goes e P (stmt s) Q"
  unfolding goes_def
proof (intro allI impI)
  fix w
  assume w: "tx w \<noteq> None" "P (cur w)"
  from assms(2) [OF w(2)] obtain x d' where "s (clock e (steps w)) (cur w) = Inr (x, d')" "Q x d'" by blast
  with w(1) show "\<exists>x w'. stmt s e w = (Inr x, w') \<and> tx w' \<noteq> None \<and> Q x (cur w')" by (auto simp: calm_stmt [OF assms(1)])
qed

lemma goes_stmt_lock:
  assumes "calm e" and "\<And>n d. P d \<Longrightarrow> \<exists>x d'. s (clock e n) d = Inr (x, d') \<and> Q x d'"
  shows "goes e P (stmt_lock L s) Q"
  unfolding goes_def
proof (intro allI impI)
  fix w
  assume w: "tx w \<noteq> None" "P (cur w)"
  from assms(2) [OF w(2)] obtain x d' where "s (clock e (steps w)) (cur w) = Inr (x, d')" "Q x d'" by blast
  with w(1) show "\<exists>x w'. stmt_lock L s e w = (Inr x, w') \<and> tx w' \<noteq> None \<and> Q x (cur w')"
    by (auto simp: calm_stmt_lock [OF assms(1)])
qed

lemma goes_select: "calm e \<Longrightarrow> (\<And>n d. P d \<Longrightarrow> Q (q (clock e n) d) d) \<Longrightarrow> goes e P (select q) Q"
  by (auto simp: goes_def calm_select)

lemma goes_select_lock: "calm e \<Longrightarrow> (\<And>n d. P d \<Longrightarrow> Q (q (clock e n) d) d) \<Longrightarrow> goes e P (select_lock L q) Q"
  by (auto simp: goes_def calm_select_lock hold_def cur_def split: option.splits)

lemma goes_fetch_one:
  assumes "calm e" and "\<And>d. P d \<Longrightarrow> \<exists>x. q d = Some x \<and> Q x d" shows "goes e P (fetch_one q) Q"
  unfolding goes_def
proof (intro allI impI)
  fix w
  assume w: "tx w \<noteq> None" "P (cur w)"
  from assms(2) [OF w(2)] obtain x where "q (cur w) = Some x" "Q x (cur w)" by blast
  with w(1) show "\<exists>x w'. fetch_one q e w = (Inr x, w') \<and> tx w' \<noteq> None \<and> Q x (cur w')"
    by (auto simp: calm_fetch_one [OF assms(1)])
qed

lemma lands_commit:
  "calm e \<Longrightarrow> (\<And>d. P d \<Longrightarrow> Q x d) \<Longrightarrow> lands e P (and_then commit (\<lambda>_. and_then (emit v) (\<lambda>_. ok x))) Q"
  by (auto simp: lands_def calm_run)

lemma goes_pure: "(b \<Longrightarrow> goes e P m Q) \<Longrightarrow> goes e (\<lambda>d. b \<and> P d) m Q"
  unfolding goes_def by blast

lemma lands_pure: "(b \<Longrightarrow> lands e P m Q) \<Longrightarrow> lands e (\<lambda>d. b \<and> P d) m Q"
  unfolding lands_def by blast

lemma lands_ex: "(\<And>y. lands e (P y) m Q) \<Longrightarrow> lands e (\<lambda>d. \<exists>y. P y d) m Q"
  unfolding lands_def by blast

text \<open>A whole request: it answers, and the store is what the transaction published.\<close>

lemma lands_run:
  assumes "calm e" and "lands e (\<lambda>x. x = d) body Q"
  obtains y d' ev where "run (and_then acquire (\<lambda>_. and_then (begin_tx i) (\<lambda>_. body))) e d = (Inr y, d', ev)" and "Q y d'"
proof -
  let ?w = "\<lparr>committed = d, tx = Some \<lparr>iso = i, work = d, snap = None, held = []\<rparr>,
      steps = (case i of Default \<Rightarrow> 1 | ReadCommitted \<Rightarrow> 2), events = []\<rparr>"
  have "tx ?w \<noteq> None" "cur ?w = d" by (simp_all add: cur_def)
  with assms(2) obtain y w' where "body e ?w = (Inr y, w')" "Q y (committed w')" unfolding lands_def by blast
  with assms(1) have "run (and_then acquire (\<lambda>_. and_then (begin_tx i) (\<lambda>_. body))) e d = (Inr y, committed w', events w')"
    by (simp add: run_def and_then_def calm_begin_tx)
  from this \<open>Q y (committed w')\<close> show thesis by (rule that)
qed

section \<open>A redemption\<close>

text \<open>What every statement after the spend leaves in place, and what makes the next one succeed.\<close>

definition ready :: "string \<Rightarrow> string \<Rightarrow> redemption_row list \<Rightarrow> db \<Rightarrow> bool" where
  "ready x eid ps d \<longleftrightarrow> has_user d x \<and> has_enrolment d eid \<and> iam_enrolment_redemption d = ps"

lemma find_has: "has_user d x \<Longrightarrow> \<exists>u. find_user d x = Some u"
  by (cases "find_user d x") (auto simp: has_user_def find_user_def list_ex_iff filter_empty_conv)

lemma has_user_ids: "has_user d x \<longleftrightarrow> text_key x \<in> (\<lambda>u. text_key (u_id u)) ` set (iam_user d)"
  by (auto simp: has_user_def list_ex_iff image_iff eq_commute)

lemma has_enrolment_ids: "has_enrolment d x \<longleftrightarrow> text_key x \<in> (\<lambda>n. text_key (e_id n)) ` set (iam_enrolment d)"
  by (auto simp: has_enrolment_def list_ex_iff image_iff eq_commute)

lemma has_user_upd [simp]:
  "has_user (d\<lparr>iam_user := upd P (\<lambda>u. u\<lparr>u_epoch := g u\<rparr>) (iam_user d)\<rparr>) x = has_user d x"
  by (simp add: has_user_ids image_upd)

lemma has_enrolment_upd [simp]:
  "has_enrolment (d\<lparr>iam_enrolment := upd P (\<lambda>n. n\<lparr>e_spent_at := g n\<rparr>) (iam_enrolment d)\<rparr>) x = has_enrolment d x"
  "has_enrolment (d\<lparr>iam_enrolment := upd P (\<lambda>n. n\<lparr>e_voided_at := g n\<rparr>) (iam_enrolment d)\<rparr>) x = has_enrolment d x"
  by (simp_all add: has_enrolment_ids image_upd)

lemma goes_bump:
  assumes "calm e" and "\<And>d. P d \<Longrightarrow> \<forall>v \<in> set (iam_user d). sql_eq (u_id v) x \<longrightarrow> u_epoch v + 1 < 2 ^ 64"
    and "\<And>d. P d \<Longrightarrow> ready y eid ps d"
  shows "goes e P (bump x) (\<lambda>_. ready y eid ps)"
  unfolding bump_def
proof (rule goes_stmt_lock [OF assms(1)])
  fix n d
  assume P: "P d"
  let ?Q = "\<lambda>u. sql_eq (u_id u) x" and ?d = "d\<lparr>iam_user := upd (\<lambda>u. sql_eq (u_id u) x) (\<lambda>u. u\<lparr>u_epoch := u_epoch u + 1\<rparr>) (iam_user d)\<rparr>"
  have "bump_stm ?Q (clock e n) d = Inr (cnt ?Q (iam_user d), ?d)"
    using assms(2) [OF P] by (auto simp: bump_stm_def list_all_iff incr64_def)
  moreover have "ready y eid ps ?d" using assms(3) [OF P] by (simp add: ready_def) (simp add: has_enrolment_def)
  ultimately show "\<exists>m d'. bump_stm ?Q (clock e n) d = Inr (m, d') \<and> ready y eid ps d'" by blast
qed

lemma goes_ended:
  assumes "calm e"
  shows "goes e (ready y eid ps) (revoke_every x) (\<lambda>_. ready y eid ps)" and "goes e (ready y eid ps) (void x) (\<lambda>_. ready y eid ps)"
proof -
  have r: "goes e (ready y eid ps) (stmt (revoke_stm x)) (\<lambda>_. ready y eid ps)"
    by (rule goes_stmt [OF assms]) (auto simp: revoke_stm_def Let_def ready_def has_user_def has_enrolment_def)
  have c: "goes e (ready y eid ps) (case u of None \<Rightarrow> ok None | Some _ \<Rightarrow> and_then (stmt (revoke_stm x)) (\<lambda>n. ok (Some n)))
      (\<lambda>_. ready y eid ps)" for u :: "user_row option"
    by (cases u) (auto intro: goes_ok goes_then [OF r])
  show "goes e (ready y eid ps) (revoke_every x) (\<lambda>_. ready y eid ps)"
    unfolding revoke_every_def
    by (rule goes_then [OF goes_select_lock [OF assms, where Q = "\<lambda>_. ready y eid ps"]]) (assumption, rule c)
  have "goes e (ready y eid ps) (stmt (void_stm x)) (\<lambda>_. ready y eid ps)"
    by (rule goes_stmt [OF assms]) (simp add: void_stm_def Let_def ready_def, simp add: has_user_def)
  then show "goes e (ready y eid ps) (void x) (\<lambda>_. ready y eid ps)"
    unfolding void_def by (rule goes_then) (auto intro: goes_ok)
qed

lemma goes_current: "calm e \<Longrightarrow> goes e (ready x eid ps) (current x) (\<lambda>_. ready x eid ps)"
  unfolding current_def by (rule goes_fetch_one) (auto simp: ready_def dest!: find_has)

lemma goes_ups:
  assumes "calm e" shows "goes e (ready x eid ps) (stmt (ups_password_stm x h)) (\<lambda>_. ready x eid ps)"
  by (rule goes_stmt [OF assms])
     (auto simp: ups_password_stm_def ups_password_def ready_def has_user_def has_enrolment_def split: prod.splits)

lemma goes_ledger:
  assumes "calm e" and "\<forall>p \<in> set ps. \<not> sql_eq (rd_key p) k"
  shows "goes e (ready x eid ps) (stmt (ledger_stm k h eid z q)) (\<lambda>_ _. True)"
  by (rule goes_stmt [OF assms(1)]) (use assms(2) in \<open>auto simp: ledger_stm_def ins_redemption_def ready_def list_ex_iff\<close>)

text \<open>The tail of the call, once the enrolment is spent.\<close>

lemma lands_redeemed:
  assumes "calm e" and "store_ok d" and n: "redeemable h t d n u" and "u_epoch u + 1 < 2 ^ 64"
    and k: "find_redemption k d = None" and "xq_secret_hash r = h"
  shows "lands e (\<lambda>x. x = spend_one n t d) (redeemed k r) (\<lambda>y _. xr_outcome y = Redeemed)"
proof -
  let ?d1 = "spend_one n t d" and ?ps = "iam_enrolment_redemption d"
  let ?R = "ready (e_user_id n) (e_id n) ?ps"
  have n': "n \<in> set (iam_enrolment d)" "u \<in> set (iam_user d)" "sql_eq (u_id u) (e_user_id n)" "e_secret_hash n = h"
    using n by (auto simp: redeemable_def)
  have users: "iam_user ?d1 = iam_user d" by (simp add: spend_one_def)
  have "has_enrolment d (e_id n)" using n'(1) by (auto simp: has_enrolment_def list_ex_iff)
  then have "has_enrolment ?d1 (e_id n)" by (simp add: spend_one_def)
  moreover have "has_user ?d1 (e_user_id n)" using n'(2,3) users by (auto simp: has_user_def list_ex_iff)
  ultimately have R: "?R ?d1" by (simp add: ready_def spend_one_def)
  have "(n\<lparr>e_spent_at := Some t\<rparr>, u) \<in> set (filter (\<lambda>(n, u). sql_eq (u_id u) (e_user_id n) \<and> e_secret_hash n = h)
      (List.product (iam_enrolment ?d1) (iam_user ?d1)))"
    using n' by (auto simp: spend_one_def upd_def)
  then have "redeemed_row h ?d1 \<noteq> None" unfolding redeemed_row_def fetch_optional_None by (metis empty_iff list.set(1))
  then obtain nu where "redeemed_row h ?d1 = Some nu" by blast
  then have row: "redeemed_row h ?d1 = Some (n\<lparr>e_spent_at := Some t\<rparr>, u)"
    using spend_one_row [OF assms(2) n] by (cases nu) auto
  have epochs: "\<forall>v \<in> set (iam_user ?d1). sql_eq (u_id v) (e_user_id n) \<longrightarrow> u_epoch v + 1 < 2 ^ 64"
    using same_user [OF assms(2)] n'(2,3) assms(4) users by metis
  have fetch: "goes e (\<lambda>x. x = ?d1) (fetch_one (redeemed_row h)) (\<lambda>nu x. nu = (n\<lparr>e_spent_at := Some t\<rparr>, u) \<and> x = ?d1)"
    by (rule goes_fetch_one [OF assms(1)]) (use row in auto)
  have bump: "goes e (\<lambda>x. x = ?d1) (bump (e_user_id n)) (\<lambda>_. ?R)"
    by (rule goes_bump [OF assms(1)]) (use epochs R in auto)
  have ended: "goes e ?R (if b then and_then (revoke_every (e_user_id n)) (\<lambda>_. void (e_user_id n)) else ok 0) (\<lambda>_. ?R)" for b
    by (auto intro: goes_ok goes_then [OF goes_ended(1)] goes_ended(2) assms(1))
  have ledger: "goes e ?R (if k \<noteq> [] then stmt (ledger_stm k h (e_id n) (e_user_id n) q) else ok ()) (\<lambda>_ _. True)" for q
    using k by (auto simp: find_redemption_def filter_empty_conv intro!: goes_ok goes_ledger [OF assms(1)])
  have sel: "e_user_id (n\<lparr>e_spent_at := Some t\<rparr>) = e_user_id n" "e_id (n\<lparr>e_spent_at := Some t\<rparr>) = e_id n"
      "e_revoke_existing (n\<lparr>e_spent_at := Some t\<rparr>) = e_revoke_existing n" by simp_all
  show ?thesis unfolding redeemed_def assms(6)
    by (rule lands_then [OF fetch], rule lands_pure, simp only: prod.case sel,
        rule lands_then [OF bump], rule lands_then [OF goes_current [OF assms(1)]], rule lands_then [OF ended],
        rule lands_then [OF goes_ups [OF assms(1)]], rule lands_then [OF ledger], rule lands_commit [OF assms(1)]) simp
qed


text \<open>An open enrolment of a live person at every moment of the call.\<close>

definition open_for :: "env \<Rightarrow> redeem_request \<Rightarrow> db \<Rightarrow> enrolment_row \<Rightarrow> user_row \<Rightarrow> bool" where
  "open_for e r d n u \<longleftrightarrow> (\<forall>i. redeemable (xq_secret_hash r) (clock e i) d n u) \<and> u_epoch u + 1 < 2 ^ 64 \<and>
     length (xq_argon2id_hash r) \<le> MAX_ARGON2ID_HASH \<and>
     find_redemption (redeem_key r) d = None"

lemma goes_spend:
  assumes "calm e" and "store_ok d" and open_n: "open_for e r d n u"
  shows "goes e (\<lambda>x. x = d) (spend (xq_secret_hash r)) (\<lambda>m x. m \<noteq> 0 \<and> (\<exists>i. x = spend_one n (clock e i) d))"
  unfolding spend_def
proof (rule goes_stmt [OF assms(1)])
  fix i x
  assume x: "x = d"
  let ?h = "xq_secret_hash r" and ?t = "clock e i"
  obtain m d1 where s: "spend_stm ?h ?t d = Inr (m, d1)" by (simp add: spend_stm_def Let_def)
  from open_n have n: "redeemable ?h ?t d n u" by (simp add: open_for_def)
  then have "0 < m" using s by (fastforce simp: spend_stm_def Let_def cnt_pos spendable_def redeemable_def list_ex_iff)
  moreover from this spend_stm_one [OF assms(2) s] obtain n' u' where "redeemable ?h ?t d n' u'" "d1 = spend_one n' ?t d" by auto
  moreover from this n have "n' = n" using secret_unique [OF assms(2)] by (auto simp: redeemable_def)
  ultimately show "\<exists>m d'. spend_stm ?h ?t x = Inr (m, d') \<and> m \<noteq> 0 \<and> (\<exists>i. d' = spend_one n (clock e i) d)" using s x by auto
qed

lemma goes_lock_owner: "calm e \<Longrightarrow> goes e (\<lambda>x. x = d) (lock_owner h) (\<lambda>_ x. x = d)"
  unfolding lock_owner_def
  by (rule goes_then [OF goes_select [where Q = "\<lambda>_ x. x = d"]])
     (auto intro!: goes_ok goes_then [OF goes_select_lock [where Q = "\<lambda>_ x. x = d"]] split: option.split)

lemma goes_replay_none:
  assumes "calm e" and none: "find_redemption k d = None"
  shows "goes e (\<lambda>x. x = d) (if k \<noteq> [] then replay k h NoLock else ok None) (\<lambda>v x. v = None \<and> x = d)"
proof (cases "k = []")
  case False
  have "goes e (\<lambda>x. x = d) (replay k h NoLock) (\<lambda>v x. v = None \<and> x = d)"
    unfolding replay_def
    by (rule goes_then [OF goes_select_lock [OF assms(1), where Q = "\<lambda>p x. p = None \<and> x = d"]])
       (auto simp: none intro!: goes_pure goes_ok)
  with False show ?thesis by simp
qed (simp add: goes_ok)

lemma redeem_answers:
  assumes "calm e" and "store_ok d" and open_n: "open_for e r d n u"
  obtains ev t t' t'' where "run (redeem r) e d =
    (Inr (redeem_answer n u d), redemption (redeem_key r) (xq_argon2id_hash r) n u t t' t'' d, ev)"
proof -
  let ?k = "redeem_key r" and ?h = "xq_secret_hash r"
  from open_n have k: "find_redemption ?k d = None" by (simp add: open_for_def)
  have body: "lands e (\<lambda>x. x = d) (and_then (if ?k \<noteq> [] then replay ?k ?h NoLock else ok None) (\<lambda>replayed.
     case replayed of
       Some resp \<Rightarrow> and_then commit (\<lambda>_. and_then (emit (Finished 0)) (\<lambda>_. ok resp))
     | None \<Rightarrow>
         and_then (fits_password_column (xq_argon2id_hash r)) (\<lambda>_.
         and_then (lock_owner ?h) (\<lambda>_.
         and_then (spend ?h) (\<lambda>n.
         if n = 0 then unspent ?k r else redeemed ?k r))))) (\<lambda>y _. xr_outcome y = Redeemed)"
  proof (rule lands_then [OF goes_replay_none [OF assms(1) k]], rule lands_pure, simp only: option.case)
    have fits: "goes e (\<lambda>x. x = d) (fits_password_column (xq_argon2id_hash r)) (\<lambda>_ x. x = d)"
      using open_n by (simp add: open_for_def fits_password_column_def goes_ok)
    have tail: "lands e (\<lambda>x. x = spend_one n (clock e i) d) (redeemed ?k r) (\<lambda>y _. xr_outcome y = Redeemed)" for i
      using open_n k by (intro lands_redeemed [OF assms(1,2) _ _ _ refl]) (auto simp: open_for_def)
    show "lands e (\<lambda>x. x = d) (and_then (fits_password_column (xq_argon2id_hash r)) (\<lambda>_.
         and_then (lock_owner ?h) (\<lambda>_. and_then (spend ?h) (\<lambda>n. if n = 0 then unspent ?k r else redeemed ?k r))))
         (\<lambda>y _. xr_outcome y = Redeemed)"
      by (rule lands_then [OF fits], rule lands_then [OF goes_lock_owner [OF assms(1)]],
          rule lands_then [OF goes_spend [OF assms]], rule lands_pure, simp only: if_False, rule lands_ex, rule tail)
  qed
  obtain y d' ev where y: "run (redeem r) e d = (Inr y, d', ev)" "xr_outcome y = Redeemed"
    using lands_run [OF assms(1) body, of ReadCommitted] unfolding redeem_def redeem_key_def [symmetric] Let_def by metis
  have none: "replay_answer ?k ?h d = None" by (simp add: replay_answer_def k)
  from redeem_outcome_of [OF alone_calm [OF assms(1)] assms(2) y(1)] y(2) none obtain n' u' t t' t'' where
    n': "redeemable ?h t d n' u'" and r: "y = redeem_answer n' u' d" "d' = redemption ?k (xq_argon2id_hash r) n' u' t t' t'' d"
    by (auto simp: redeem_result_def)
  from open_n have n: "redeemable ?h (clock e 0) d n u" by (simp add: open_for_def)
  from n n' have "n' = n" using secret_unique [OF assms(2)] by (auto simp: redeemable_def)
  moreover from this n n' have "u' = u" using same_user [OF assms(2)] by (auto simp: redeemable_def)
  ultimately show thesis using y(1) r that by blast
qed

end
