(* ===== verification/Access.thy ===== *)
theory Access
  imports Progress
begin

text \<open>
  The way of a person, call by call, when nothing stands in the way: the enrolment that is issued for
  them opens, the password it sets is the one a login reads, the epoch it tells mints a credential,
  and the credential resolves to the person.
\<close>

section \<open>What a redemption leaves\<close>

lemma upsert_hash:
  "\<exists>p \<in> set (snd (upsert (\<lambda>p. sql_eq (p_user_id p) x) \<lparr>p_user_id = x, p_hash = h\<rparr> (\<lambda>p. p\<lparr>p_hash := h\<rparr>) ps)).
     sql_eq (p_user_id p) x \<and> p_hash p = h"
proof (cases "\<exists>q \<in> set ps. sql_eq (p_user_id q) x")
  case True
  then obtain q where q: "q \<in> set ps" "sql_eq (p_user_id q) x" by blast
  then have "q\<lparr>p_hash := h\<rparr> \<in> set (upd (\<lambda>p. sql_eq (p_user_id p) x) (\<lambda>p. p\<lparr>p_hash := h\<rparr>) ps)" by (auto simp: set_upd)
  with q True show ?thesis by (intro bexI [of _ "q\<lparr>p_hash := h\<rparr>"]) (simp_all add: upsert_def list_ex_iff)
next
  case False
  then show ?thesis by (auto simp: upsert_def list_ex_iff)
qed

lemma redemption_users:
  "iam_user (redemption k h n u t t' t'' d) = upd (\<lambda>u. sql_eq (u_id u) (e_user_id n)) (\<lambda>u. u\<lparr>u_epoch := u_epoch u + 1\<rparr>) (iam_user d)"
  by (simp add: redemption_def log_redemption_def set_hash_def end_all_def next_epoch_def spend_one_def)

lemma redemption_user:
  assumes "u \<in> set (iam_user d)" and "sql_eq (u_id u) (e_user_id n)"
  shows "u\<lparr>u_epoch := u_epoch u + 1\<rparr> \<in> set (iam_user (redemption k h n u t t' t'' d))"
  using assms by (auto simp: redemption_users set_upd)

lemma redemption_password:
  "\<exists>p \<in> set (iam_password (redemption k h n u t t' t'' d)). sql_eq (p_user_id p) (e_user_id n) \<and> p_hash p = h"
proof -
  let ?d = "(if e_revoke_existing n then end_all (e_user_id n) t' t'' else (\<lambda>d. d)) (next_epoch (e_user_id n) (spend_one n t d))"
  have "iam_password (redemption k h n u t t' t'' d) = snd (upsert (\<lambda>p. sql_eq (p_user_id p) (e_user_id n))
      \<lparr>p_user_id = e_user_id n, p_hash = h\<rparr> (\<lambda>p. p\<lparr>p_hash := h\<rparr>) (iam_password ?d))"
    by (simp add: redemption_def log_redemption_def set_hash_def)
  then show ?thesis using upsert_hash by metis
qed

lemma redemption_credentials:
  "map c_id (iam_credential (redemption k h n u t t' t'' d)) = map c_id (iam_credential d)"
  "map c_token_hash (iam_credential (redemption k h n u t t' t'' d)) = map c_token_hash (iam_credential d)"
  by (simp_all add: redemption_def log_redemption_def set_hash_def end_all_def next_epoch_def spend_one_def map_upd)

section \<open>Login\<close>

lemma fetch_the_pair:
  assumes "(a, b) \<in> set (filter P xs)" and "\<And>a' b'. (a', b') \<in> set (filter P xs) \<Longrightarrow> a' = a \<and> b' = b"
  shows "fetch_optional (filter P xs) = Some (a, b)"
proof (cases "fetch_optional (filter P xs)")
  case None
  with assms(1) show ?thesis by (metis empty_iff fetch_optional_None list.set(1))
next
  case (Some ab)
  then have "ab \<in> set (filter P xs)" by (rule fetch_optional_in)
  with assms(2) Some show ?thesis by (cases ab) auto
qed

lemma password_answers:
  assumes "calm e" and "store_ok d" and "u \<in> set (iam_user d)" and "u_deleted_at u = None"
    and "p \<in> set (iam_password d)" and "sql_eq (p_user_id p) (u_id u)"
  shows "run (password_hash (u_blind_index u)) e d =
    (Inr \<lparr>gr_user_id = u_id u, gr_argon2id_hash = p_hash p, gr_credential_epoch = u_epoch u\<rparr>, d, [Finished 0])"
proof -
  have one: "v = u \<and> q = p" if "(v, q) \<in> set (filter (\<lambda>(v, q). sql_eq (p_user_id q) (u_id v) \<and> u_blind_index v = u_blind_index u \<and>
       u_deleted_at v = None) (List.product (iam_user d) (iam_password d)))" for v q
  proof -
    from that assms(2,3) have v: "v = u" by (auto simp: store_ok_def users_ok_def distinct_map inj_on_def)
    with that assms(2,5,6) have "q = p" by (auto simp: store_ok_def passwords_ok_def distinct_map inj_on_def)
    with v show ?thesis by simp
  qed
  have "fetch_optional (hash_rows (u_blind_index u) d) = Some (u, p)"
    unfolding hash_rows_def by (rule fetch_the_pair) (use assms(3-6) in simp, rule one)
  with assms(1) show ?thesis by (simp add: password_hash_def calm_run Let_def)
qed

section \<open>Credential\<close>

definition token_free :: "create_credential_request \<Rightarrow> string \<Rightarrow> db \<Rightarrow> bool" where
  "token_free q cid d \<longleftrightarrow> (\<forall>x \<in> set (map c_id (iam_credential d)). \<not> sql_eq x cid) \<and>
     cq_token_hash q \<notin> set (map c_token_hash (iam_credential d))"

definition with_credential :: "credential_row \<Rightarrow> db \<Rightarrow> db" where
  "with_credential c d = d\<lparr>iam_credential := iam_credential d @ [c]\<rparr>"

lemma mint_answers:
  assumes "calm e" and "store_ok d" and "u \<in> set (iam_user d)" and "live_row (cq_user_id q) u"
    and "case cq_expected_epoch q of None \<Rightarrow> True | Some k \<Rightarrow> u_epoch u = k"
    and "token_free q (''yadgar:credential:'' @ now_v7 e) d"
  shows "\<exists>ev. run (mint_credential q rid) e d = (Inr (''yadgar:credential:'' @ now_v7 e),
     with_credential (mint_row e (''yadgar:credential:'' @ now_v7 e) q (clock e 0) u) d, ev)"
proof -
  let ?cid = "''yadgar:credential:'' @ now_v7 e"
  have "fetch_optional (filter (mintable q) (iam_user d)) = Some u"
    using assms(3-5) same_user [OF assms(2)] by (intro fetch_the_one) (auto simp: mintable_def live_row_def)
  moreover have "has_user d (u_id u)" using assms(3) by (auto simp: has_user_def list_ex_iff)
  ultimately have "mint_stm e ?cid q t d = Inr (1, with_credential (mint_row e ?cid q t u) d)" for t
    using assms(6) by (auto simp: mint_stm_def ins_credential_def mint_row_def token_free_def list_ex_iff with_credential_def image_iff)
  with assms(1) show ?thesis by (simp add: mint_credential_def calm_run record_actor_def Let_def)
qed

section \<open>Resolution\<close>

lemma resolve_answers:
  assumes "calm e" and "store_ok d" and "c \<in> set (iam_credential d)" and "\<And>i. cred_live (clock e i) c"
    and "u \<in> set (iam_user d)" and "sql_eq (u_id u) (c_user_id c)" and "u_deleted_at u = None" and "rq_token_hash s = c_token_hash c"
  shows "\<exists>ans ev. run (resolve s) e d = (Inr ans, d, ev) \<and> rs_user_id ans = c_user_id c \<and> rs_credential_id ans = c_id c \<and>
    rs_expires_at ans = c_expires_at c"
proof -
  have one: "c' = c \<and> u' = u" if "(c', u') \<in> set (resolve_rows (rq_token_hash s) t d)" for c' u' t
  proof -
    from that assms(2,3,8) have "c' = c" by (auto simp: resolve_rows_def store_ok_def credentials_ok_def distinct_map inj_on_def)
    with that assms(5,6) show ?thesis using same_user [OF assms(2)] by (auto simp: resolve_rows_def)
  qed
  have "fetch_optional (resolve_rows (rq_token_hash s) (clock e i) d) = Some (c, u)" for i
    unfolding resolve_rows_def by (rule fetch_the_pair) (use assms(3-8) in simp, rule one [unfolded resolve_rows_def])
  with assms(1) show ?thesis
    by (simp add: resolve_def resolved_def teams_and_admin_def owner_reads_own_record_def calm_run Let_def)
qed


section \<open>Enrolment\<close>

lemma enrolment_answers:
  assumes "calm e" and "store_ok d" and "find_live_user d (eq_user_id m) = Some u" and "\<not> eq_require_zero_credential_admin m"
    and "eq_expires_at m = Some secs" and "from_unixtime e secs = Some x" and "secret_free m (''yadgar:enrolment:'' @ now_v7 e) d"
  shows "\<exists>ev. run (mint_enrolment m rid) e d = (Inr (''yadgar:enrolment:'' @ now_v7 e),
     with_enrolment m (''yadgar:enrolment:'' @ now_v7 e) u (clock e 0) x (eq_revoke_existing_credentials m) d, ev)"
proof -
  let ?eid = "''yadgar:enrolment:'' @ now_v7 e" and ?b = "eq_revoke_existing_credentials m"
  have live: "live_row (eq_user_id m) u" using find_live_user_in [OF assms(3)] by (simp add: live_row_def)
  have "statement False ?b e ?eid m secs t d = Inr (1, with_enrolment m ?eid u t x ?b d)" for t
    using insert_for_decides [OF assms(2,3) _ assms(7,6), of "\<lambda>_. live_row (eq_user_id m)" ?b t] live
    by (cases ?b) (simp_all add: statement_def REVOKE_INSERT_def ORDINARY_def)
  with assms(1,4,5) show ?thesis
    by (auto simp: mint_enrolment_def compatible_def calm_run record_actor_def idempotency_sensor_def Let_def split: option.split)
qed

section \<open>The way\<close>

text \<open>What a person needs: to be live, a secret, a token and ids nobody used, times that have not passed.\<close>

definition way_open :: "env \<Rightarrow> create_enrolment_request \<Rightarrow> redeem_request \<Rightarrow> create_credential_request \<Rightarrow> resolve_request \<Rightarrow> db \<Rightarrow> user_row \<Rightarrow> bool" where
  "way_open e m r q s d u \<longleftrightarrow> find_live_user d (eq_user_id m) = Some u \<and> u_epoch u + 1 < 2 ^ 64 \<and>
     \<not> eq_require_zero_credential_admin m \<and>
     (\<exists>secs x. eq_expires_at m = Some secs \<and> from_unixtime e secs = Some x \<and> (\<forall>i. clock e i < x)) \<and>
     secret_free m (''yadgar:enrolment:'' @ now_v7 e) d \<and>
     xq_secret_hash r = eq_secret_hash m \<and> length (xq_argon2id_hash r) \<le> MAX_ARGON2ID_HASH \<and> find_redemption (redeem_key r) d = None \<and>
     sql_eq (cq_user_id q) (u_id u) \<and> token_free q (''yadgar:credential:'' @ now_v7 e) d \<and>
     (case cq_expires_at q of None \<Rightarrow> True | Some secs \<Rightarrow> (\<exists>x. from_unixtime e secs = Some x \<and> (\<forall>i. clock e i < x))) \<and>
     rq_token_hash s = cq_token_hash q"

text \<open>The first half: the secret is issued and redeemed, and leaves the person a password and the epoch told.\<close>

lemma way_to_the_password:
  assumes "calm e" and "store_ok d" and "way_open e m r q s d u"
  obtains eid d1 first d2 ev ev' p where
    "run (mint_enrolment m rid) e d = (Inr eid, d1, ev)" and "run (redeem r) e d1 = (Inr first, d2, ev')"
    and "xr_outcome first = Redeemed" and "xr_user_id first = u_id u" and "xr_enrolment_id first = eid"
    and "xr_credential_epoch first = u_epoch u + 1"
    and "store_ok d2" and "u\<lparr>u_epoch := u_epoch u + 1\<rparr> \<in> set (iam_user d2)"
    and "p \<in> set (iam_password d2)" and "sql_eq (p_user_id p) (u_id u)" and "p_hash p = xq_argon2id_hash r"
    and "map c_id (iam_credential d2) = map c_id (iam_credential d)"
    and "map c_token_hash (iam_credential d2) = map c_token_hash (iam_credential d)"
proof -
  obtain eid b where eid: "eid = ''yadgar:enrolment:'' @ now_v7 e" "b = eq_revoke_existing_credentials m" by blast
  from assms(3) obtain secs x where m: "find_live_user d (eq_user_id m) = Some u" "\<not> eq_require_zero_credential_admin m"
      "eq_expires_at m = Some secs" "from_unixtime e secs = Some x" "\<And>i. clock e i < x" "secret_free m eid d"
    by (auto simp: way_open_def eid)
  from find_live_user_in [OF m(1)] have u: "u \<in> set (iam_user d)" "u_deleted_at u = None" by auto
  obtain n where n: "n = \<lparr>e_id = eid, e_user_id = u_id u, e_secret_hash = eq_secret_hash m, e_created_at = clock e 0,
      e_expires_at = x, e_spent_at = None, e_revoke_existing = b, e_voided_at = None\<rparr>" by blast
  obtain d1 where d1: "d1 = with_enrolment m eid u (clock e 0) x b d" by blast
  have d1_sel: "iam_user d1 = iam_user d" "iam_credential d1 = iam_credential d" "n \<in> set (iam_enrolment d1)"
      "iam_enrolment_redemption d1 = iam_enrolment_redemption d" by (simp_all add: d1 n with_enrolment_def)
  obtain ev1 where 1: "run (mint_enrolment m rid) e d = (Inr eid, d1, ev1)"
    using enrolment_answers [OF assms(1,2) m(1-4), folded eid, OF m(6)] unfolding d1 by blast
  note relies = relies_alone [OF alone_calm [OF assms(1)]]
  have ok1: "store_ok d1" using hist.keeps_run [OF keeps_mint_enrolment relies assms(2) 1] by simp
  have "open_for e r d1 n u" using assms(3) m(5) u d1_sel
    by (simp add: way_open_def open_for_def redeemable_def find_redemption_def) (simp add: n)
  from redeem_answers [OF assms(1) ok1 this] obtain ev2 t t' t'' where
    2: "run (redeem r) e d1 = (Inr (redeem_answer n u d1), redemption (redeem_key r) (xq_argon2id_hash r) n u t t' t'' d1, ev2)" .
  obtain d2 where d2: "d2 = redemption (redeem_key r) (xq_argon2id_hash r) n u t t' t'' d1" by blast
  have ok2: "store_ok d2" using hist.keeps_run [OF keeps_redeem relies ok1 2] by (simp add: d2)
  have "xr_credential_epoch (redeem_answer n u d1) = u_epoch u + 1" by (simp add: redeem_answer_def)
  moreover have "u\<lparr>u_epoch := u_epoch u + 1\<rparr> \<in> set (iam_user d2)"
    unfolding d2 by (rule redemption_user) (simp_all add: d1_sel u n)
  moreover obtain p where "p \<in> set (iam_password d2)" "sql_eq (p_user_id p) (e_user_id n)" "p_hash p = xq_argon2id_hash r"
    unfolding d2 using redemption_password by metis
  ultimately show thesis
    using 1 2 ok2 by (intro that [of eid d1 ev1 "redeem_answer n u d1" d2])
      (simp_all add: d2 redemption_credentials d1_sel redeem_answer_def n)
qed

text \<open>The second half: the mint against that epoch, and its resolution.\<close>

lemma way_to_the_person:
  assumes "calm e" and "store_ok d" and "u \<in> set (iam_user d)" and "u_deleted_at u = None" and "sql_eq (cq_user_id q) (u_id u)"
    and "cq_expected_epoch q = Some (u_epoch u)" and "token_free q (''yadgar:credential:'' @ now_v7 e) d"
    and "case cq_expires_at q of None \<Rightarrow> True | Some secs \<Rightarrow> (\<exists>x. from_unixtime e secs = Some x \<and> (\<forall>i. clock e i < x))"
    and "rq_token_hash s = cq_token_hash q"
  obtains cid d' ev ans ev' where "run (mint_credential q rid) e d = (Inr cid, d', ev)"
    and "run (resolve s) e d' = (Inr ans, d', ev')" and "rs_user_id ans = u_id u" and "rs_credential_id ans = cid"
proof -
  obtain cid where cid: "cid = ''yadgar:credential:'' @ now_v7 e" by blast
  obtain c where c: "c = mint_row e cid q (clock e 0) u" by blast
  have q: "live_row (cq_user_id q) u" "case cq_expected_epoch q of None \<Rightarrow> True | Some k \<Rightarrow> u_epoch u = k"
    using assms(4-6) by (simp_all add: live_row_def eq_commute)
  from mint_answers [OF assms(1-3) q assms(7)] obtain ev where
    mint: "run (mint_credential q rid) e d = (Inr cid, with_credential c d, ev)" by (auto simp: cid c)
  have ok: "store_ok (with_credential c d)"
    using hist.keeps_run [OF keeps_mint_credential relies_alone [OF alone_calm [OF assms(1)]] assms(2) mint] by simp
  have live: "cred_live (clock e i) c" for i
    using assms(8) by (auto simp: c cred_live_def mint_row_def split: option.splits)
  have sel: "c_user_id c = u_id u" "c_id c = cid" "c_token_hash c = cq_token_hash q" by (simp_all add: c mint_row_def)
  have "\<exists>ans ev. run (resolve s) e (with_credential c d) = (Inr ans, with_credential c d, ev) \<and> rs_user_id ans = c_user_id c \<and>
      rs_credential_id ans = c_id c \<and> rs_expires_at ans = c_expires_at c"
    by (rule resolve_answers [OF assms(1) ok _ live _ _ assms(4)]) (simp_all add: with_credential_def assms(3,9) sel)
  with mint sel that show thesis by auto
qed

text \<open>C7. The way in stays open. For any live person of a well-formed store, with no failure and nobody in between: the
  enrolment is issued; redeeming its secret answers \<open>Redeemed\<close>; the login then reads the new password and the
  epoch the redemption told; a mint against that epoch answers; and the minted token resolves to the person and
  to the minted credential.\<close>

theorem enrolled_person_gets_in:
  assumes "calm e" and "store_ok d" and "way_open e m r q s d u"
  shows "\<exists>eid d1 first d2 cid d3 ans. fst (run (mint_enrolment m rid) e d) = Inr eid \<and> fst (snd (run (mint_enrolment m rid) e d)) = d1 \<and>
     fst (run (redeem r) e d1) = Inr first \<and> fst (snd (run (redeem r) e d1)) = d2 \<and>
       xr_outcome first = Redeemed \<and> xr_user_id first = u_id u \<and> xr_enrolment_id first = eid \<and>
     fst (run (password_hash (u_blind_index u)) e d2) =
       Inr \<lparr>gr_user_id = u_id u, gr_argon2id_hash = xq_argon2id_hash r, gr_credential_epoch = xr_credential_epoch first\<rparr> \<and>
     fst (run (mint_credential (q\<lparr>cq_expected_epoch := Some (xr_credential_epoch first)\<rparr>) rid) e d2) = Inr cid \<and>
     fst (snd (run (mint_credential (q\<lparr>cq_expected_epoch := Some (xr_credential_epoch first)\<rparr>) rid) e d2)) = d3 \<and>
     fst (run (resolve s) e d3) = Inr ans \<and> rs_user_id ans = u_id u \<and> rs_credential_id ans = cid"
proof -
  from way_to_the_password [OF assms] obtain eid d1 first d2 ev ev' p where
    1: "run (mint_enrolment m rid) e d = (Inr eid, d1, ev)" and 2: "run (redeem r) e d1 = (Inr first, d2, ev')"
    and first: "xr_outcome first = Redeemed" "xr_user_id first = u_id u" "xr_enrolment_id first = eid"
      "xr_credential_epoch first = u_epoch u + 1"
    and d2: "store_ok d2" "u\<lparr>u_epoch := u_epoch u + 1\<rparr> \<in> set (iam_user d2)"
      "map c_id (iam_credential d2) = map c_id (iam_credential d)"
      "map c_token_hash (iam_credential d2) = map c_token_hash (iam_credential d)"
    and p: "p \<in> set (iam_password d2)" "sql_eq (p_user_id p) (u_id u)" "p_hash p = xq_argon2id_hash r" by metis
  obtain u2 where u2: "u2 = u\<lparr>u_epoch := u_epoch u + 1\<rparr>" by blast
  from assms(3) have "find_live_user d (eq_user_id m) = Some u" by (simp add: way_open_def)
  then have sel: "u2 \<in> set (iam_user d2)" "u_deleted_at u2 = None" "u_id u2 = u_id u" "u_blind_index u2 = u_blind_index u"
      "u_epoch u2 = xr_credential_epoch first" using d2(2) find_live_user_in by (auto simp: u2 first)
  have 3: "run (password_hash (u_blind_index u)) e d2 = (Inr \<lparr>gr_user_id = u_id u, gr_argon2id_hash = xq_argon2id_hash r,
      gr_credential_epoch = xr_credential_epoch first\<rparr>, d2, [Finished 0])"
    using password_answers [OF assms(1) d2(1) sel(1,2) p(1)] by (simp add: sel p)
  obtain q' where q': "q' = q\<lparr>cq_expected_epoch := Some (xr_credential_epoch first)\<rparr>" by blast
  have "token_free q' (''yadgar:credential:'' @ now_v7 e) d2" "sql_eq (cq_user_id q') (u_id u2)"
      "cq_expected_epoch q' = Some (u_epoch u2)" "rq_token_hash s = cq_token_hash q'"
      "case cq_expires_at q' of None \<Rightarrow> True | Some secs \<Rightarrow> (\<exists>x. from_unixtime e secs = Some x \<and> (\<forall>i. clock e i < x))"
    using assms(3) by (simp_all add: way_open_def token_free_def q' sel d2(3,4) cong: option.case_cong)
  from way_to_the_person [OF assms(1) d2(1) sel(1,2) this(2,3,1,5,4)] obtain cid d3 ev4 ans ev5 where
    4: "run (mint_credential q' rid) e d2 = (Inr cid, d3, ev4)" and 5: "run (resolve s) e d3 = (Inr ans, d3, ev5)"
    and ans: "rs_user_id ans = u_id u2" "rs_credential_id ans = cid" .
  show ?thesis
    by (rule exI [of _ eid], rule exI [of _ d1], rule exI [of _ first], rule exI [of _ d2], rule exI [of _ cid], rule exI [of _ d3],
        rule exI [of _ ans]) (simp add: 1 2 3 4 [unfolded q'] 5 first(1-3) ans sel)
qed

definition still_env :: env where "still_env = calm_env\<lparr>clock := (\<lambda>_. 1000)\<rparr>"

lemma calm_still_env: "calm still_env"
  by (simp add: still_env_def calm_def calm_env_def)

definition sample_way :: "create_enrolment_request \<times> redeem_request \<times> create_credential_request \<times> resolve_request" where
  "sample_way =
     (\<lparr>eq_user_id = alice, eq_secret_hash = [6], eq_expires_at = Some 9000, eq_require_zero_credential_admin = False,
        eq_revoke_existing_credentials = True, eq_admin_from_team = False, eq_idempotency = None, eq_actor = None\<rparr>,
      \<lparr>xq_secret_hash = [6], xq_argon2id_hash = ''argon-b'', xq_idempotency = Some ''key-2''\<rparr>,
      \<lparr>cq_user_id = alice, cq_token_hash = [9], cq_label = ''desk'', cq_expires_at = Some 9000, cq_expected_epoch = None, cq_actor = None\<rparr>,
      \<lparr>rq_token_hash = [9], rq_admin_from_team = False\<rparr>)"

lemma fresh_keys:
  "text_key ''yadgar:credential:0192f3c4-1a2b-7c3d-8e4f-0123456789ab'' = ''yadgar:credential:0192f3c4-1a2b-7c3d-8e4f-0123456789ab''"
  "text_key ''yadgar:enrolment:0192f3c4-1a2b-7c3d-8e4f-0123456789ab'' = ''yadgar:enrolment:0192f3c4-1a2b-7c3d-8e4f-0123456789ab''"
  by (rule plain_key, simp add: plain_def)+

lemma sample_way_open:
  "sample_way = (m, r, q, s) \<Longrightarrow> way_open still_env m r q s sample_db alice_row"
  unfolding way_open_def
  by (auto simp: live_row_def fresh_keys sample_way_def still_env_def calm_env_def find_live_user_def secret_free_def has_enrolment_def token_free_def
      find_redemption_def redeem_key_def MAX_ARGON2ID_HASH_def sample_defs)

theorem enrolled_person_gets_in_witness:
  "\<exists>m r q s d1 first d3 ans. sample_way = (m, r, q, s) \<and> fst (snd (run (mint_enrolment m []) still_env sample_db)) = d1 \<and>
     fst (run (redeem r) still_env d1) = Inr first \<and> xr_outcome first = Redeemed \<and> xr_user_id first = alice \<and>
     fst (run (resolve s) still_env d3) = Inr ans \<and> rs_user_id ans = alice"
proof -
  obtain m r q s where w: "sample_way = (m, r, q, s)" by (cases sample_way) auto
  have "u_id alice_row = alice" by (simp add: alice_row_def)
  with enrolled_person_gets_in [OF calm_still_env store_ok_sample_db sample_way_open [OF w], of "[]"] w show ?thesis
    by metis
qed

end
