(* ===== verification/Standing.thy ===== *)
theory Standing
  imports Access Policy
begin

text \<open>
  What one person's policy is as the next resolution reads it: the limit asked for, or none once it is
  cleared, in the one bucket named and everything else as it was; and what becomes of an expiry the
  engine cannot represent.
\<close>

section \<open>Resolution in a calm call\<close>

lemma resolve_calm:
  "calm e \<Longrightarrow> fst (run (resolve s) e d) = Inr (resolve_answer s (clock e 1) d)"
  by (auto simp: resolve_def resolved_def teams_and_admin_def owner_reads_own_record_def calm_run Let_def
      resolve_answer_def inherited_def split: option.splits)

lemma resolve_answer_limits:
  assumes "d'\<lparr>iam_rate_limit_override := iam_rate_limit_override d\<rparr> = d"
  shows "resolve_answer s t d' = (case fetch_optional (resolve_rows (rq_token_hash s) t d) of
     None \<Rightarrow> empty_resolve
   | Some (c, u) \<Rightarrow> (resolve_answer s t d)\<lparr>rs_rate_limit_overrides := override_rows (c_user_id c) d'\<rparr>)"
proof -
  have d: "iam_user d' = iam_user d" "iam_credential d' = iam_credential d" "iam_team_member d' = iam_team_member d"
      "iam_team d' = iam_team d" "iam_org_setting d' = iam_org_setting d"
      "iam_team_setting_override d' = iam_team_setting_override d"
    using arg_cong [OF assms, of iam_user] arg_cong [OF assms, of iam_credential] arg_cong [OF assms, of iam_team_member]
      arg_cong [OF assms, of iam_team] arg_cong [OF assms, of iam_org_setting] arg_cong [OF assms, of iam_team_setting_override]
    by simp_all
  then have "resolve_rows (rq_token_hash s) t d' = resolve_rows (rq_token_hash s) t d"
      "live_team_ids x d' = live_team_ids x d" "inherited y d' = inherited y d" for x y
    by (simp_all add: resolve_rows_def live_team_ids_def inherited_def org_row_def override_map_def)
  then show ?thesis by (auto simp: resolve_answer_def split: option.split)
qed

section \<open>Buckets\<close>

definition limit_for :: "string \<Rightarrow> int \<Rightarrow> rate_limit_override list \<Rightarrow> (f64 \<times> nat) list" where
  "limit_for m k os = map (\<lambda>l. (ro_rate l, ro_burst l)) (filter (\<lambda>l. sql_eq (ro_module l) m \<and> ro_kind l = k) os)"

definition in_bucket :: "string \<Rightarrow> string \<Rightarrow> int \<Rightarrow> rate_limit_row \<Rightarrow> bool" where
  "in_bucket x m k l \<longleftrightarrow> sql_eq (rl_user_id l) x \<and> sql_eq (rl_module l) m \<and> rl_kind l = k"

lemma limit_for_rows:
  "limit_for m k (override_rows x d) =
     map (\<lambda>l. (rl_rate l, rl_burst l)) (filter (in_bucket x m k) (iam_rate_limit_override d))"
  by (simp add: limit_for_def override_rows_def filter_map comp_def in_bucket_def [abs_def] conj_ac)

lemma filter_upd_other:
  assumes "\<And>r. P r \<Longrightarrow> \<not> Q r \<and> \<not> Q (f r)" shows "filter Q (upd P f rs) = filter Q rs"
  using assms by (induction rs) auto

lemma filter_upd_same:
  assumes "\<And>r. P r \<Longrightarrow> P (f r)" shows "filter P (upd P f rs) = map f (filter P rs)"
  using assms by (induction rs) auto

lemma filter_unique:
  assumes "distinct (map g rs)" and "\<And>r s. P r \<Longrightarrow> P s \<Longrightarrow> g r = g s" and "list_ex P rs"
  shows "\<exists>r. filter P rs = [r]"
  using assms
proof (induction rs)
  case (Cons r rs)
  show ?case
  proof (cases "P r")
    case True
    have "\<not> P s" if "s \<in> set rs" for s
      using that Cons.prems(1) Cons.prems(2) [OF True, of s] by (metis distinct.simps(2) imageI list.set_map list.simps(9))
    then have "filter P rs = []" by (simp add: filter_empty_conv)
    with True show ?thesis by simp
  next
    case False
    have "distinct (map g rs)" "list_ex P rs" using Cons.prems(1,3) False by simp_all
    from Cons.IH [OF this(1) Cons.prems(2) this(2)] False show ?thesis by simp
  qed
qed simp

lemma filter_upsert:
  assumes "distinct (map g rs)" and "\<And>r s. P r \<Longrightarrow> P s \<Longrightarrow> g r = g s" and "\<And>r. P (f r) = P r" and "P new"
    and "\<And>r. h (f r) = h new"
  shows "map h (filter P (snd (upsert P new f rs))) = [h new]"
proof (cases "list_ex P rs")
  case True
  with filter_unique [OF assms(1,2)] obtain r where "filter P rs = [r]" by blast
  with True assms(3,5) show ?thesis by (simp add: upsert_def filter_upd_same)
next
  case False
  with assms(4) show ?thesis by (auto simp: upsert_def list_ex_iff)
qed

lemma filter_upsert_other:
  assumes "\<And>r. P r \<Longrightarrow> \<not> Q r \<and> \<not> Q (f r)" and "\<not> Q new" shows "filter Q (snd (upsert P new f rs)) = filter Q rs"
  using assms filter_upd_other [of P Q f rs] by (simp add: upsert_def)

section \<open>Limits\<close>

text \<open>The store after the write: the bucket has the limit asked for, or none, and every other row is as it was.\<close>

definition limited :: "set_rate_limit_request \<Rightarrow> user_row \<Rightarrow> db \<Rightarrow> db \<Rightarrow> bool" where
  "limited r u d d' \<longleftrightarrow> d'\<lparr>iam_rate_limit_override := iam_rate_limit_override d\<rparr> = d \<and>
     (\<forall>x m k. limit_for m k (override_rows x d') =
        (if sql_eq x (u_id u) \<and> sql_eq m (sl_module r) \<and> k = sl_kind r
         then (case sl_limit r of None \<Rightarrow> [] | Some l \<Rightarrow> [(li_rate l, li_burst l)])
         else limit_for m k (override_rows x d)))"

lemma set_limit_limited:
  assumes "store_ok d" and "find_live_user d (sl_user_id r) = Some u" and "sl_limit r = Some l"
  shows "\<exists>n d'. (\<forall>t. set_limit_stm r l t d = Inr (n, d')) \<and> n \<noteq> 0 \<and> limited r u d d'"
proof -
  let ?l = "\<lparr>rl_user_id = u_id u, rl_module = sl_module r, rl_kind = sl_kind r, rl_rate = li_rate l, rl_burst = li_burst l\<rparr>"
  let ?B = "in_bucket (u_id u) (sl_module r) (sl_kind r)" and ?f = "\<lambda>v. v\<lparr>rl_rate := li_rate l, rl_burst := li_burst l\<rparr>"
  let ?u = "upsert ?B ?l ?f (iam_rate_limit_override d)"
  let ?d = "d\<lparr>iam_rate_limit_override := snd ?u\<rparr>"
  let ?g = "\<lambda>l. (text_key (rl_user_id l), text_key (rl_module l), rl_kind l)"
  have "has_user d (u_id u)" using find_live_user_in [OF assms(2)] by (auto simp: has_user_def list_ex_iff)
  then have s: "set_limit_stm r l t d = Inr (fst ?u, ?d)" for t using assms(2)
    by (simp add: set_limit_stm_def ups_rate_limit_def in_bucket_def [abs_def] split: prod.split)
  have "distinct (map ?g (iam_rate_limit_override d))" using assms(1) by (simp add: store_ok_def rate_limits_ok_def)
  then have same: "map (\<lambda>l. (rl_rate l, rl_burst l)) (filter ?B (snd ?u)) = [(li_rate l, li_burst l)]"
    by (subst filter_upsert [where g = ?g]) (auto simp: in_bucket_def)
  have "limit_for m k (override_rows x ?d) =
        (if sql_eq x (u_id u) \<and> sql_eq m (sl_module r) \<and> k = sl_kind r
         then [(li_rate l, li_burst l)] else limit_for m k (override_rows x d))" for x m k
  proof (cases "sql_eq x (u_id u) \<and> sql_eq m (sl_module r) \<and> k = sl_kind r")
    case True
    then have "in_bucket x m k = ?B" by (auto simp: in_bucket_def)
    with True same show ?thesis by (simp add: limit_for_rows)
  next
    case False
    have "filter (in_bucket x m k) (snd ?u) = filter (in_bucket x m k) (iam_rate_limit_override d)"
      by (rule filter_upsert_other) (use False in \<open>auto simp: in_bucket_def\<close>)
    then show ?thesis unfolding limit_for_rows using False by auto
  qed
  with s assms(3) show ?thesis by (simp add: limited_def upsert_def)
qed

lemma clear_limit_limited:
  assumes "find_live_user d (sl_user_id r) = Some u" and "sl_limit r = None"
  shows "\<exists>n d'. (\<forall>t. clear_limit_stm r t d = Inr (n, d')) \<and> limited r u d d'"
proof -
  have u: "sql_eq (u_id u) (sl_user_id r)" using find_live_user_in [OF assms(1)] by simp
  let ?d = "d\<lparr>iam_rate_limit_override := del (bucket r) (iam_rate_limit_override d)\<rparr>"
  have "limit_for m k (override_rows x ?d) = (if sql_eq x (u_id u) \<and> sql_eq m (sl_module r) \<and> k = sl_kind r
         then [] else limit_for m k (override_rows x d))" for x m k
    using u by (auto simp: limit_for_rows del_def filter_empty_conv in_bucket_def bucket_def
        intro!: arg_cong [where f = "map _"] filter_cong)
  with assms(2) show ?thesis by (simp add: clear_limit_stm_def limited_def)
qed

lemma set_rate_limit_answers:
  assumes "calm e" and "store_ok d" and "sl_kind r \<in> {1, 2, 3}" and "find_live_user d (sl_user_id r) = Some u"
  shows "\<exists>d' ev. run (set_rate_limit r rid) e d = (Inr (), d', ev) \<and> limited r u d d'"
proof -
  have kind: "refuse_unstored_kind (sl_kind r) = ok ()" using assms(3) by (simp only: refuse_unstored_kind_def kind_stored_iff if_True)
  show ?thesis
  proof (cases "sl_limit r")
    case None
    from clear_limit_limited [OF assms(4) None] obtain n d' where
      "\<And>t. clear_limit_stm r t d = Inr (n, d')" "limited r u d d'" by blast
    with None assms(1,4) show ?thesis by (simp add: set_rate_limit_def kind calm_run record_actor_def live_user_def)
  next
    case (Some l)
    from set_limit_limited [OF assms(2,4) Some] obtain n d' where
      "\<And>t. set_limit_stm r l t d = Inr (n, d')" "n \<noteq> 0" "limited r u d d'" by blast
    with Some assms(1) show ?thesis by (simp add: set_rate_limit_def kind calm_run record_actor_def)
  qed
qed

lemma set_rate_limit_refuses:
  assumes "calm e" and "sl_kind r \<notin> {1, 2, 3} \<or> find_live_user d (sl_user_id r) = None"
  shows "\<exists>ev. run (set_rate_limit r rid) e d =
     (Inl (if sl_kind r \<notin> {1, 2, 3} then Status INVALID_ARGUMENT ''a rate-limit override must name READ, WRITE or GENERATE''
           else Status NOT_FOUND ''no such live user''), d, ev)"
proof (cases "sl_kind r \<in> {1, 2, 3}")
  case True
  then have kind: "refuse_unstored_kind (sl_kind r) = ok ()" by (simp only: refuse_unstored_kind_def kind_stored_iff if_True)
  from True assms have "find_live_user d (sl_user_id r) = None" by simp
  with True assms(1) show ?thesis
    by (auto simp: set_rate_limit_def kind calm_run record_actor_def live_user_def set_limit_stm_def split: option.split)
next
  case False
  then have kind: "refuse_unstored_kind (sl_kind r) =
      fail (Status INVALID_ARGUMENT ''a rate-limit override must name READ, WRITE or GENERATE'')"
    by (simp only: refuse_unstored_kind_def kind_stored_iff if_False)
  with False assms(1) show ?thesis by (simp add: set_rate_limit_def kind calm_run record_actor_def)
qed

lemma limited_answer:
  assumes "limited r u d d'"
  shows "(resolve_answer s t d')\<lparr>rs_rate_limit_overrides := rs_rate_limit_overrides (resolve_answer s t d)\<rparr> = resolve_answer s t d"
    and "limit_for m k (rs_rate_limit_overrides (resolve_answer s t d')) =
      (if resolve_answer s t d' \<noteq> empty_resolve \<and> sql_eq (rs_user_id (resolve_answer s t d')) (u_id u) \<and>
          sql_eq m (sl_module r) \<and> k = sl_kind r
       then (case sl_limit r of None \<Rightarrow> [] | Some l \<Rightarrow> [(li_rate l, li_burst l)])
       else limit_for m k (rs_rate_limit_overrides (resolve_answer s t d)))"
proof -
  from assms have eq: "d'\<lparr>iam_rate_limit_override := iam_rate_limit_override d\<rparr> = d"
    and rows: "\<And>x. limit_for m k (override_rows x d') = (if sql_eq x (u_id u) \<and> sql_eq m (sl_module r) \<and> k = sl_kind r
         then (case sl_limit r of None \<Rightarrow> [] | Some l \<Rightarrow> [(li_rate l, li_burst l)])
         else limit_for m k (override_rows x d))"
    by (simp_all add: limited_def)
  let ?A = "(resolve_answer s t d')\<lparr>rs_rate_limit_overrides := rs_rate_limit_overrides (resolve_answer s t d)\<rparr> = resolve_answer s t d"
  let ?B = "limit_for m k (rs_rate_limit_overrides (resolve_answer s t d')) =
      (if resolve_answer s t d' \<noteq> empty_resolve \<and> sql_eq (rs_user_id (resolve_answer s t d')) (u_id u) \<and>
          sql_eq m (sl_module r) \<and> k = sl_kind r
       then (case sl_limit r of None \<Rightarrow> [] | Some l \<Rightarrow> [(li_rate l, li_burst l)])
       else limit_for m k (rs_rate_limit_overrides (resolve_answer s t d)))"
  have "?A \<and> ?B"
  proof (cases "fetch_optional (resolve_rows (rq_token_hash s) t d)")
    case None
    then have "resolve_answer s t d = empty_resolve" by (simp add: resolve_answer_def)
    moreover have "resolve_answer s t d' = empty_resolve" using None by (simp add: resolve_answer_limits [OF eq])
    ultimately show ?thesis by simp
  next
    case (Some cv)
    then obtain c v where cv: "fetch_optional (resolve_rows (rq_token_hash s) t d) = Some (c, v)" by (cases cv) auto
    have new: "resolve_answer s t d' = (resolve_answer s t d)\<lparr>rs_rate_limit_overrides := override_rows (c_user_id c) d'\<rparr>"
      by (simp add: resolve_answer_limits [OF eq] cv)
    have "rs_user_id (resolve_answer s t d) = c_user_id c" "rs_owner_reads_own_record (resolve_answer s t d) \<noteq> None"
        "rs_rate_limit_overrides (resolve_answer s t d) = override_rows (c_user_id c) d"
      by (simp_all add: resolve_answer_def cv)
    moreover from this(2) have "rs_owner_reads_own_record (resolve_answer s t d') \<noteq> None" by (simp add: new)
    then have "resolve_answer s t d' \<noteq> empty_resolve" by (metis empty_resolve_def resolve_response.select_convs(6))
    ultimately show ?thesis unfolding new by (simp add: rows)
  qed
  then show ?A and ?B by auto
qed

text \<open>C37. What \<open>SetRateLimitOverride\<close> decides, in a call on its own, and what is read back: a kind that is never
  stored is INVALID_ARGUMENT, a person who is not live is NOT_FOUND, and neither writes. Otherwise, every token
  resolves as before but for the one bucket of that person, which has the limit asked for, or none where the request
  cleared it.\<close>

theorem rate_limit_reads_back:
  assumes "calm e" and "store_ok d"
  shows "case (if sl_kind r \<in> {1, 2, 3} then find_live_user d (sl_user_id r) else None) of
     None \<Rightarrow> (\<exists>ev. run (set_rate_limit r rid) e d =
       (Inl (if sl_kind r \<in> {1, 2, 3} then Status NOT_FOUND ''no such live user''
             else Status INVALID_ARGUMENT ''a rate-limit override must name READ, WRITE or GENERATE''), d, ev))
   | Some u \<Rightarrow> (\<exists>d' ev. run (set_rate_limit r rid) e d = (Inr (), d', ev) \<and>
       (\<forall>s. \<exists>old new. fst (run (resolve s) e d) = Inr old \<and> fst (run (resolve s) e d') = Inr new \<and>
          new\<lparr>rs_rate_limit_overrides := rs_rate_limit_overrides old\<rparr> = old \<and>
          (\<forall>m k. limit_for m k (rs_rate_limit_overrides new) =
            (if new \<noteq> empty_resolve \<and> sql_eq (rs_user_id new) (u_id u) \<and> sql_eq m (sl_module r) \<and> k = sl_kind r
             then (case sl_limit r of None \<Rightarrow> [] | Some l \<Rightarrow> [(li_rate l, li_burst l)])
             else limit_for m k (rs_rate_limit_overrides old)))))"
proof (cases "if sl_kind r \<in> {1, 2, 3} then find_live_user d (sl_user_id r) else None")
  case None
  then have "sl_kind r \<notin> {1, 2, 3} \<or> find_live_user d (sl_user_id r) = None" by (auto split: if_splits)
  from set_rate_limit_refuses [OF assms(1) this, of rid] None show ?thesis by auto
next
  case (Some u)
  then have u: "sl_kind r \<in> {1, 2, 3}" "find_live_user d (sl_user_id r) = Some u" by (auto split: if_splits)
  from set_rate_limit_answers [OF assms u, of rid] obtain d' ev where
    w: "run (set_rate_limit r rid) e d = (Inr (), d', ev)" and l: "limited r u d d'" by blast
  show ?thesis unfolding resolve_calm [OF assms(1)] sum.inject ex_simps using w Some limited_answer [OF l] by auto
qed

theorem rate_limit_reads_back_witness:
  "\<exists>d' ev. run (set_rate_limit \<lparr>sl_user_id = alice, sl_module = ''notes'', sl_kind = 2,
      sl_limit = Some \<lparr>li_rate = 5, li_burst = 10\<rparr>, sl_actor = None\<rparr> []) calm_env sample_db = (Inr (), d', ev) \<and>
     (\<exists>new. fst (run (resolve \<lparr>rq_token_hash = [7], rq_admin_from_team = False\<rparr>) calm_env d') = Inr new \<and>
        limit_for ''notes'' 1 (rs_rate_limit_overrides new) = [])"
proof -
  let ?r = "\<lparr>sl_user_id = alice, sl_module = ''notes'', sl_kind = 2, sl_limit = Some \<lparr>li_rate = 5, li_burst = 10\<rparr>, sl_actor = None\<rparr>"
  let ?s = "\<lparr>rq_token_hash = [7], rq_admin_from_team = False\<rparr>"
  have u: "(if sl_kind ?r \<in> {1, 2, 3} then find_live_user sample_db (sl_user_id ?r) else None) = Some alice_row"
    by (simp add: find_live_user_def live_row_def sample_defs)
  from rate_limit_reads_back [OF calm_calm_env store_ok_sample_db, of ?r "[]", unfolded u option.case]
  obtain d' ev where w: "run (set_rate_limit ?r []) calm_env sample_db = (Inr (), d', ev)"
    and r: "\<exists>old new. fst (run (resolve ?s) calm_env sample_db) = Inr old \<and> fst (run (resolve ?s) calm_env d') = Inr new \<and>
      (\<forall>m k. limit_for m k (rs_rate_limit_overrides new) =
            (if new \<noteq> empty_resolve \<and> sql_eq (rs_user_id new) (u_id alice_row) \<and> sql_eq m (sl_module ?r) \<and> k = sl_kind ?r
             then (case sl_limit ?r of None \<Rightarrow> [] | Some l \<Rightarrow> [(li_rate l, li_burst l)])
             else limit_for m k (rs_rate_limit_overrides old)))" by blast
  from r obtain old new where "fst (run (resolve ?s) calm_env sample_db) = Inr old" "fst (run (resolve ?s) calm_env d') = Inr new"
      "limit_for ''notes'' 1 (rs_rate_limit_overrides new) = limit_for ''notes'' 1 (rs_rate_limit_overrides old)" by auto
  moreover have "limit_for m k (rs_rate_limit_overrides (resolve_answer ?s t sample_db)) = []" for m k t
    by (auto simp: resolve_answer_def limit_for_def override_rows_def sample_defs empty_resolve_def split: option.split)
  ultimately show ?thesis using w resolve_calm [OF calm_calm_env, of ?s sample_db] by auto
qed

section \<open>Expiry\<close>

text \<open>C26. An expiry the engine cannot represent is no expiry: where \<open>FROM_UNIXTIME\<close> gives NULL for the second asked for,
  a \<open>CreateCredential\<close> on its own and without an expected epoch answers OK and the credential it stores never expires: on the store the mint left, at whatever time,
  its token resolves to the person, and the answer names no expiry.\<close>

theorem unrepresentable_expiry_never_expires:
  assumes "calm e" and "store_ok d" and "find_live_user d (cq_user_id q) = Some u" and "cq_expected_epoch q = None"
    and "token_free q (''yadgar:credential:'' @ now_v7 e) d"
    and "cq_expires_at q = Some secs" and "from_unixtime e secs = None"
  shows "\<exists>cid d' ev. run (mint_credential q rid) e d = (Inr cid, d', ev) \<and>
     (\<forall>later s. calm later \<and> rq_token_hash s = cq_token_hash q \<longrightarrow>
        (\<exists>ans. fst (run (resolve s) later d') = Inr ans \<and> rs_user_id ans = u_id u \<and> rs_credential_id ans = cid \<and> rs_expires_at ans = None))"
proof -
  let ?cid = "''yadgar:credential:'' @ now_v7 e"
  obtain c where c: "c = mint_row e ?cid q (clock e 0) u" by blast
  from find_live_user_in [OF assms(3)] have u: "u \<in> set (iam_user d)" "live_row (cq_user_id q) u" "u_deleted_at u = None"
    by (auto simp: live_row_def)
  from mint_answers [OF assms(1,2) u(1,2) _ assms(5)] assms(4) obtain ev where
    mint: "run (mint_credential q rid) e d = (Inr ?cid, with_credential c d, ev)" by (auto simp: c)
  have ok: "store_ok (with_credential c d)"
    using hist.keeps_run [OF keeps_mint_credential relies_alone [OF alone_calm [OF assms(1)]] assms(2) mint] by simp
  have sel: "c_user_id c = u_id u" "c_id c = ?cid" "c_token_hash c = cq_token_hash q" "c_expires_at c = None" "cred_live t c" for t
    by (simp_all add: c mint_row_def cred_live_def assms(6,7))
  have "\<exists>ans. fst (run (resolve s) later (with_credential c d)) = Inr ans \<and> rs_user_id ans = u_id u \<and>
      rs_credential_id ans = ?cid \<and> rs_expires_at ans = None" if "calm later" "rq_token_hash s = cq_token_hash q" for later s
    using resolve_answers [OF that(1) ok, of c u s] u that(2) by (auto simp: sel with_credential_def)
  with mint show ?thesis by blast
qed

theorem unrepresentable_expiry_never_expires_witness:
  "\<exists>cid d' ans. fst (run (mint_credential \<lparr>cq_user_id = alice, cq_token_hash = [9], cq_label = [], cq_expires_at = Some (- 1),
      cq_expected_epoch = None, cq_actor = None\<rparr> []) calm_env sample_db) = Inr cid \<and>
     fst (run (resolve \<lparr>rq_token_hash = [9], rq_admin_from_team = False\<rparr>)
       (calm_env\<lparr>clock := (\<lambda>n. 9999999999)\<rparr>) d') = Inr ans \<and> rs_user_id ans = alice \<and> rs_expires_at ans = None"
proof -
  let ?q = "\<lparr>cq_user_id = alice, cq_token_hash = [9], cq_label = [], cq_expires_at = Some (- 1), cq_expected_epoch = None, cq_actor = None\<rparr>"
  let ?s = "\<lparr>rq_token_hash = [9], rq_admin_from_team = False\<rparr>" and ?l = "calm_env\<lparr>clock := (\<lambda>n. 9999999999)\<rparr>"
  have u: "find_live_user sample_db (cq_user_id ?q) = Some alice_row" by (simp add: find_live_user_def live_row_def sample_defs)
  have free: "token_free ?q (''yadgar:credential:'' @ now_v7 calm_env) sample_db"
    by (simp add: token_free_def sample_defs calm_env_def fresh_keys)
  have l: "calm ?l" by (simp add: calm_def calm_env_def)
  have "from_unixtime calm_env (- 1) = None" by (simp add: calm_env_def)
  with unrepresentable_expiry_never_expires [OF calm_calm_env store_ok_sample_db u _ free, of "- 1" "[]"]
  obtain cid d' ev where "run (mint_credential ?q []) calm_env sample_db = (Inr cid, d', ev)"
    "\<forall>later s. calm later \<and> rq_token_hash s = [9] \<longrightarrow> (\<exists>ans. fst (run (resolve s) later d') = Inr ans \<and>
        rs_user_id ans = u_id alice_row \<and> rs_credential_id ans = cid \<and> rs_expires_at ans = None)" by auto
  moreover from this(2) have "\<exists>ans. fst (run (resolve ?s) ?l d') = Inr ans \<and> rs_user_id ans = u_id alice_row \<and> rs_expires_at ans = None"
    using l by (metis resolve_request.select_convs(1))
  ultimately show ?thesis by (simp add: alice_row_def) blast
qed

end
