(* ===== verification/Spec2Isabelle.thy ===== *)
theory Spec2Isabelle
  imports Seam Door Inheritance Pages Marker Declaration Pooling Boot Schema Standing
begin

text \<open>
  Verification of iam-db, the identity store's service (\<open>src/src\<close>): who exists, what they hold, and
  what the organisation declared. The service is one gRPC surface of twenty verbs over one MariaDB
  schema. A call passes the caller gate, takes a connection under the caller's deadline, runs its
  statements, most of them inside one transaction, and leaves an answer, a call record and, for a
  write, an actor line.

  \<^bold>\<open>Parts and theories\<close>, in the order they build on each other.

  \<^item> \<open>Prelude\<close>: statuses, the store's text comparison, row operations, decimal text, and two
    interfaces as locales: \<open>keyed_rows\<close> (an update leaves the key alone) and \<open>tombstone\<close> (a column set
    once), interpreted in \<open>History\<close> on the credential, enrolment and user tables.
  \<^item> \<open>Store\<close>: one record per table of \<open>schema.rs\<close>, \<open>schema/policy.rs\<close> and \<open>schema/team.rs\<close>, the constrained
    writes (primary, unique and foreign keys, checks) and the constraints as \<open>store_ok\<close>.
  \<^item> \<open>Engine\<close>: how a request reaches the store (\<open>service/conn.rs\<close>): acquire, statements, locking reads,
    snapshots, transactions, commit. Everything outside the program is the record \<open>env\<close>.
  \<^item> \<open>Guarantee\<close> and \<open>History\<close>: what every operation guarantees whatever fails and whatever other sessions
    do (locale \<open>guarantee\<close>, interpreted as \<open>hist\<close> on \<open>step_ok\<close>): the constraints stay, nobody is
    forgotten, no tombstone moves, no epoch goes back, ledgers and the marker only grow.
  \<^item> \<open>Alone\<close>: the triples of a transaction without company, where statements still fail and replies are
    still lost; \<open>Locking\<close>: what sessions that respect a row lock can do.
  \<^item> \<open>Service\<close>, \<open>Seam\<close>: \<open>service.rs\<close>, \<open>service/caller.rs\<close>, \<open>service/seam.rs\<close>, \<open>service/handlers.rs\<close>: the gate, the
    actor line, liveness re-reads, the twins and the dispatcher \<open>serve\<close>.
  \<^item> \<open>Epoch\<close>, \<open>Credential\<close>, \<open>Password\<close>, \<open>Policy\<close>, \<open>Enrolment\<close>, \<open>Setting\<close>, \<open>Team\<close>, \<open>Identity\<close>, \<open>Sync\<close>,
    \<open>KeyIdentity\<close>: one theory per file or group of files under \<open>service/\<close>, each with its messages, its
    statements, its handlers and the guarantee each handler gives.
  \<^item> \<open>Redemption\<close>, \<open>Revocation\<close>, \<open>Bootstrap\<close>, \<open>Door\<close>, \<open>Inheritance\<close>: the specifications of redeeming,
    revoking, bootstrapping and of the inherited setting, and the proofs that the handlers implement them; \<open>Door\<close>
    interprets \<open>guarantee\<close> once more, on the relation \<open>quiet\<close>, for what closes the bootstrap creation.
  \<^item> \<open>Pages\<close>: keyset pagination as an interface (locale \<open>keyset\<close>), interpreted on \<open>ListCredentials\<close> and on
    \<open>ListKeyIdentityEvidence\<close>; \<open>Marker\<close>: the key-identity marker; \<open>Declaration\<close>: what one \<open>SyncTeams\<close> leaves.
  \<^item> \<open>Progress\<close>, \<open>Access\<close>, \<open>Standing\<close>: total triples of a call nothing stands in the way of, the way of a person
    from an enrolment to a credential that resolves, and what a policy write changes in the next resolution.
  \<^item> \<open>Pooling\<close>: the life of a connection in \<open>service/conn.rs\<close> (arming, \<open>StoreWork\<close>, the two \<open>Drop\<close>s) as a step
    relation \<open>conn_step\<close> over any interleaving of requests. What a session is, what the server does with
    what it is sent, and the driver's own drop of an open transaction are not code of this repository: \<open>session\<close>,
    \<open>server_runs\<close> and \<open>released\<close> state what the module's header documents of them. \<open>closed\<close> counts the calls of
    \<open>close_on_drop\<close>.
  \<^item> \<open>Migrations\<close>: every migration of \<open>schema.rs\<close>, \<open>schema/policy.rs\<close> and \<open>schema/team.rs\<close> as the statement it
    holds, applied to a catalogue of tables; \<open>Schema\<close>: the clauses of that catalogue read on a store, and the
    constrained writes of \<open>Store\<close> as their implementation.
  \<^item> \<open>Boot\<close>: \<open>boot.rs\<close>, \<open>boot/lock.rs\<close>, \<open>serve.rs\<close>, \<open>rotate.rs\<close>, \<open>main.rs\<close>: the knobs, the migration lock, the
    listener, the watch set, the order of boot, the drain and the exit code. Calls into other crates are
    the fields of the record \<open>crates\<close>.
  \<^item> \<open>Sample\<close>: small stores the properties are evaluated on. This theory: the states the service
    reaches and the properties that span components.

  \<^bold>\<open>How the code is read.\<close> A handler is a function of the environment and the world (\<open>act\<close>): the
  store, the open transaction, the number of round trips so far and the events. \<open>and_then\<close> is the
  question mark operator, \<open>refuse_call\<close> is \<open>call.fail\<close> with an early return, and a statement is a function of
  the statement's own clock and of the rows (\<open>stm\<close>). Each statement may find the store moved by
  others, may be refused by the engine (which also stands for every engine-side refusal the schema
  does not name, such as a value too wide for its column), and may take effect without its reply
  arriving. Plain reads in a REPEATABLE READ transaction read its snapshot (\<open>select_snap\<close>); locking
  reads and reads at READ COMMITTED read the latest rows (\<open>select\<close>, \<open>select_lock\<close>). \<open>commit\<close> publishes
  the copy; every path that leaves a handler without it drops the copy.

  Texts compare by \<open>text_key\<close>, the ASCII part of the column's collation: case and trailing spaces do
  not count; binary columns compare exactly. 64-bit counters are refused past their last value by
  the engine, \<open>as u32\<close> truncates and \<open>u32::try_from\<close> saturates as written. A rate is
  the 64 bits of its \<open>f64\<close> (nothing computes with it). A \<open>BTreeMap\<close> is an association
  list in key order, a \<open>BTreeSet\<close> a sorted list without duplicates, a map of a message a function. \<open>{:?}\<close> of a text
  (\<open>debug_str\<close>) escapes quotes, backslashes and the control characters of ASCII; what it makes of characters
  beyond ASCII, and the collation's rules for them, are not modelled. \<open>str::trim\<close> is modelled on the bytes of UTF-8
  with every character of white space. An \<open>expect\<close> is \<open>the\<close>, reached only
  where validation has put a value. The pool, the clock, \<open>capped\<close> (a sibling crate), the uuid source,
  \<open>FROM_UNIXTIME\<close>, the bound a deadline gives and the reading of the client certificate are fields of
  \<open>env\<close> or arguments. Recursion is structural throughout, or carries its termination proof; no fuel is
  used.

  \<^bold>\<open>What is shown.\<close> C1--C3: the gate, and that every verb under every environment keeps the
  constraints and the history. C4--C8: resolution reads one state, revocation is for good, a stale
  mint is refused, the way in stays open, a revoke-all is complete under the row lock. C9--C13: a
  redemption is all or nothing, a lost answer is replayed, a secret is spent once, and an epoch told
  before a revoke-all mints nothing after it. C14--C18: what the two bootstrap doors decide and that
  they close, each with the sessions it is closed against. C19--C23: the inherited setting.
  C24--C25: following a listing's tokens ends and gives every row once. C26: an expiry the engine
  cannot represent is stored as none. C27--C29: the marker is recorded once, on an empty store or on
  its oldest rows, and decides every later comparison. C30--C31: a declaration is applied whole or
  not at all and never locks the administrators out. C32, C34: the pool holds only clean connections,
  and what either drop does. C33: what a page token says. C35--C36: the constrained writes are those the migrated
  schema accepts, and every later schema keeps accepting older inserts. C37: a limit is read back. C38: what is accepted fits its column.
  C39--C40: the configuration is read as rendered, and what is served is the server built of the configured
  transport and limits, over a pool of the probed and migrated engine.
  C7 is the one that says calls answer: with nothing in the way, a person who is enrolled gets in.

  \<^bold>\<open>Not modelled.\<close> Log lines other than the actor line, metric registration, and the latency and size
  fields of telemetry (no decision reads them); columns no statement reads or writes; generated
  message code, which the records of messages stand for; the test modules.
  Of the start-up path, the log subscriber; \<open>lib.rs\<close> (the list of modules) and \<open>build.rs\<close>, which runs the code
  generator when the crate is built.
\<close>

section \<open>The states the service reaches\<close>

inductive reachable :: "db \<Rightarrow> bool" where
  start: "reachable initial_db"
| served: "reachable d \<Longrightarrow> hist.relies e \<Longrightarrow> run (serve (\<lambda>p. p) caller h q) e d = (r, d', ev) \<Longrightarrow>
    reachable d'"

lemma relies_calm: "calm e \<Longrightarrow> hist.relies e"
  by (simp add: calm_def hist.relies_def hist.R_refl)

lemma relies_calm_env: "hist.relies calm_env"
  by (rule relies_calm [OF calm_calm_env])

lemma step_ok_store: "step_ok d d' \<Longrightarrow> store_ok d \<Longrightarrow> store_ok d'"
  by (simp add: step_ok_def)

lemma served_step:
  assumes "hist.relies e" and "store_ok d" and "run (serve ccn p h q) e d = (r, d', ev)"
  shows "step_ok d d' \<and> store_ok d'"
  using hist.keeps_run [OF keeps_serve assms] .

text \<open>C1. Only \<open>iam\<close> is served: a call whose client certificate does not name it, whatever the verb,
  is answered PERMISSION_DENIED, leaves the store as it was, and leaves exactly the call record, the
  gate's counter and the failure, under every environment.\<close>

theorem gate_refuses:
  assumes "ccn p \<noteq> Some IAM_CALLER"
  shows "run (serve ccn p h q) e d =
     (Inl (Status PERMISSION_DENIED (gate_message (ccn p))), d,
      [Started (rpc_name q) (rpc_kind q) (request_id_of h e) (rpc_user q),
       Counter CALLER_REFUSED (case ccn p of None \<Rightarrow> NO_CALLER | Some c \<Rightarrow> c),
       Failed PERMISSION_DENIED])"
  using serve_is_gated [of ccn p h q] twin_refuses [OF assms] by metis

theorem gate_refuses_witness:
  "run (serve (\<lambda>p. p) (Some ''gateway-caller'') None (SetUserAdmin
      \<lparr>sa_user_id = alice, sa_is_admin = True, sa_actor = None\<rparr>)) calm_env sample_db =
     (Inl (Status PERMISSION_DENIED (gate_message (Some ''gateway-caller''))), sample_db,
      [Started ''SetUserAdmin'' Write [] alice, Counter CALLER_REFUSED ''gateway-caller'',
       Failed PERMISSION_DENIED])"
  using gate_refuses [of "\<lambda>p. p" "Some ''gateway-caller''" None "SetUserAdmin
      \<lparr>sa_user_id = alice, sa_is_admin = True, sa_actor = None\<rparr>" calm_env sample_db]
  by (simp add: IAM_CALLER_def request_id_of_def)

text \<open>C2. Every verb keeps the store's constraints and its history, under every pattern of refused
  statements and lost replies and with other sessions moving between any two statements, as long as
  they keep them too: nobody, no credential and no enrolment is forgotten, no tombstone moves, no
  epoch goes back, and the two ledgers and the marker only grow.\<close>

theorem every_verb_keeps_history:
  assumes "hist.relies e" and "store_ok d" and "run (serve ccn p h q) e d = (r, d', ev)"
  shows "evolves d d' \<and> store_ok d'"
  using served_step [OF assms] by (simp add: step_ok_def)

theorem every_verb_keeps_history_witness:
  "\<exists>r d' ev. run (serve (\<lambda>p. p) (Some IAM_CALLER) None (RevokeAllCredentials
      \<lparr>aq_user_id = alice, aq_actor = None\<rparr>)) calm_env sample_db = (r, d', ev) \<and>
     evolves sample_db d' \<and> store_ok d'"
  using every_verb_keeps_history [OF relies_calm_env store_ok_sample_db] by (metis prod.exhaust)

text \<open>C3. Every state the service reaches from the migrated store satisfies the constraints.\<close>

theorem reachable_store_ok: "reachable d \<Longrightarrow> store_ok d"
proof (induction rule: reachable.induct)
  case start
  show ?case by (rule store_ok_initial_db)
next
  case (served d e caller h q r d' ev)
  show ?case using served_step [OF served(2,4,3)] by simp
qed

theorem reachable_store_ok_witness: "store_ok initial_db"
  by (rule reachable_store_ok [OF reachable.start])

section \<open>Credentials\<close>



text \<open>C5. A revocation is for good: once a credential is tombstoned, no later state and no later call
  resolves its token again, whoever else is at work.\<close>

theorem revoked_for_good:
  assumes "store_ok d" and "c \<in> set (iam_credential d)" and "c_revoked_at c \<noteq> None"
    and "step_ok d d'" and "hist.relies e" and "rq_token_hash r = c_token_hash c"
    and "run (resolve r) e d' = (Inr resp, d'', ev)"
  shows "resp = empty_resolve"
proof -
  from resolve_one_state [OF assms(5) step_ok_store [OF assms(4,1)] assms(7)]
  obtain t s where s: "step_ok d' s" "resp = resolve_answer r t s" by blast
  with assms(4) have "step_ok d s" using hist.R_trans by blast
  with no_row_for_revoked [OF assms(1-3)] assms(6) have "resolve_rows (rq_token_hash r) t s = []" by simp
  with s(2) show ?thesis by (simp add: resolve_answer_def)
qed

theorem revoked_for_good_witness:
  "fst (run (resolve \<lparr>rq_token_hash = [8], rq_admin_from_team = False\<rparr>) calm_env sample_db) = Inr empty_resolve"
proof -
  have "is_ok (fst (run (resolve \<lparr>rq_token_hash = [8], rq_admin_from_team = False\<rparr>) calm_env sample_db))"
    by (simp add: resolve_def resolved_def calm_run calm_calm_env resolve_rows_def Let_def sample_defs cred_live_def)
  then obtain resp d' ev where r: "run (resolve \<lparr>rq_token_hash = [8], rq_admin_from_team = False\<rparr>) calm_env sample_db
      = (Inr resp, d', ev)" by (rule run_answers)
  have "phone \<in> set (iam_credential sample_db)" "c_revoked_at phone \<noteq> None" "[8] = c_token_hash phone"
    by (simp_all add: sample_defs)
  then have "resp = empty_resolve"
    using revoked_for_good [OF store_ok_sample_db _ _ hist.R_refl relies_calm_env _ r, of phone] by simp
  with r show ?thesis by simp
qed

text \<open>C6. A mint that carries the epoch its caller read is refused once the person's epoch has moved
  past it, whatever fails and whatever other sessions do, as long as they keep the constraints and the history
  (so that none moves an epoch back): no answer names a credential.\<close>

theorem stale_mint_refused:
  assumes "hist.relies e" and "store_ok d" and "epoch_at d (cq_user_id r) = Some n"
    and "cq_expected_epoch r = Some k" and "k < n"
  shows "\<not> is_ok (fst (run (mint_credential r rid) e d))"
  using mint_never_answers [OF assms(1,2) _ assms(4,5)] assms(3) by (auto simp: epoch_from_def)

theorem stale_mint_refused_witness:
  "\<not> is_ok (fst (run (mint_credential \<lparr>cq_user_id = alice, cq_token_hash = [9], cq_label = [],
     cq_expires_at = None, cq_expected_epoch = Some 2, cq_actor = None\<rparr> []) calm_env sample_db))"
  by (rule stale_mint_refused [OF relies_calm_env store_ok_sample_db, where n = 3 and k = 2])
     (simp_all add: epoch_at_def find_user_def sample_defs)

text \<open>A revoke-all that answers has moved the person's epoch past every value read before it,
  also when other sessions moved during the call.\<close>

theorem revoke_all_moves_the_epoch:
  assumes "hist.relies e" and "store_ok d" and "epoch_at d (aq_user_id r) = Some n"
    and "run (revoke_all r rid) e d = (Inr resp, d', ev)"
  shows "\<exists>m > n. epoch_at d' (aq_user_id r) = Some m"
  using revoke_all_epoch [OF assms(1,2) _ assms(4)] assms(3) by (auto simp: epoch_from_def Suc_le_eq)

theorem revoke_all_moves_the_epoch_witness:
  "\<exists>m > 3. epoch_at (fst (snd (run (revoke_all \<lparr>aq_user_id = alice, aq_actor = None\<rparr> []) calm_env sample_db))) alice
     = Some m"
proof -
  from sample_revoke_all obtain resp d' ev where r: "run (revoke_all \<lparr>aq_user_id = alice, aq_actor = None\<rparr> []) calm_env sample_db
      = (Inr resp, d', ev)" by (rule run_answers)
  have "epoch_at sample_db alice = Some 3" by (simp add: epoch_at_def find_user_def sample_defs)
  with r revoke_all_moves_the_epoch [OF relies_calm_env store_ok_sample_db _ r] show ?thesis by simp
qed


section \<open>Ids and columns\<close>

text \<open>C38. What the service lets through fits the columns the migrations declare: a canonical person id every column that
  holds one, the id and the name of a declared team theirs, and the width checked before a password is written is the
  width of its column.\<close>

theorem ids_fit_their_columns:
  assumes "canonical_user_id x" and "name_ok n"
  shows "(\<forall>c \<in> set user_id_columns. fits c x) \<and> (\<forall>c \<in> set team_id_columns. fits c (TEAM_PREFIX @ n)) \<and>
     fits (''iam_team'', ''name'') n \<and> fits (''iam_org_setting'', ''name'') OWNER_READS_OWN_RECORD \<and>
     (\<forall>h. fits (''iam_password'', ''argon2id_hash'') h \<longleftrightarrow> length h \<le> MAX_ARGON2ID_HASH)"
proof -
  from widths obtain ts where ts: "schema_at 21 = Some ts" "\<And>c. c \<in> set (user_id_columns @ team_id_columns) \<Longrightarrow> width_in ts c = Some 96"
      "width_in ts (''iam_team'', ''name'') = Some 255" "width_in ts (''iam_password'', ''argon2id_hash'') = Some 255"
      "width_in ts (''iam_org_setting'', ''name'') = Some 64" by blast
  have "length x \<le> 96" using assms(1) by (elim canonical_shape) (simp add: USER_PREFIX_def)
  moreover have "length n \<le> 63" "length TEAM_PREFIX = 12" using assms(2) by (simp_all add: name_ok_def TEAM_PREFIX_def)
  moreover have "length OWNER_READS_OWN_RECORD \<le> 64" by (simp add: OWNER_READS_OWN_RECORD_def)
  ultimately show ?thesis using ts by (simp add: fits_def MAX_ARGON2ID_HASH_def)
qed

theorem ids_fit_their_columns_witness: "fits (''iam_user'', ''id'') alice \<and> fits (''iam_team'', ''id'') (TEAM_PREFIX @ ''ops'')"
  using ids_fit_their_columns [OF sample_open(2), of "''ops''"]
  by (simp add: user_id_columns_def team_id_columns_def name_ok_def is_lower_def)

end
